theory Spec2Isabelle
  imports Main "HOL-Library.Product_Lexorder" "HOL-Library.Sublist"
begin

chapter \<open>The harvesting scripts \<open>edeska_jmk.py\<close> and \<open>magistrat_mesta_brna.py\<close>\<close>

section \<open>Strings\<close>

text \<open>
  A Python \<open>str\<close> is a sequence of Unicode code points; a code point is a natural number.
  The ASCII literals of the source are written \<open>ascii ''...''\<close>, a single ASCII character
  \<open>cp CHR ''.''\<close>. The bytes of a response body are lists of the same kind.
\<close>

type_synonym codepoint = nat
type_synonym str = "codepoint list"

definition cp :: "char \<Rightarrow> codepoint" where
  "cp c = of_char c"

definition ascii :: "string \<Rightarrow> str" where
  "ascii s = map cp s"

text \<open>\<open>str(n)\<close> for a non-negative integer: the decimal digits, no leading zero.\<close>

fun str_nat :: "nat \<Rightarrow> str" where
  "str_nat n = (if n < 10 then [48 + n] else str_nat (n div 10) @ [48 + n mod 10])"

declare str_nat.simps [simp del]

text \<open>\<open>s.rsplit('.', 1)\<close> for a string that contains a dot: the text before and after the last dot.\<close>

definition rsplit_dot :: "str \<Rightarrow> str \<times> str" where
  "rsplit_dot s =
     (rev (tl (dropWhile (\<lambda>c. c \<noteq> cp CHR ''.'') (rev s))),
      rev (takeWhile (\<lambda>c. c \<noteq> cp CHR ''.'') (rev s)))"

text \<open>
  The first lines of \<open>get_available_filename\<close> and of \<open>sanitize_filename\<close>:
  \<^verbatim>\<open>
  if '.' in filename:
      base, ext = filename.rsplit('.', 1)
      ext = '.' + ext
  else:
      base = filename
      ext = ''
  \<close>
\<close>

definition split_ext :: "str \<Rightarrow> str \<times> str" where
  "split_ext filename =
     (if cp CHR ''.'' \<in> set filename
      then (case rsplit_dot filename of (base, ext) \<Rightarrow> (base, cp CHR ''.'' # ext))
      else (filename, []))"

section \<open>Exceptions\<close>

text \<open>
  The exceptions that no \<open>try\<close> block of the scripts catches: \<open>ValueError\<close> (raised by
  \<open>datetime.strptime\<close> and by \<open>urljoin\<close>) and \<open>OSError\<close> (raised by \<open>Path.exists\<close>).
\<close>

datatype exn = ValueError | OSError

section \<open>Filename resolver: \<open>get_available_filename\<close>\<close>

text \<open>
  \<^verbatim>\<open>
  new_name = filename
  counter = 1
  while (directory / new_name).exists():
      new_name = f"{base}_{counter}{ext}"
      counter += 1
  return new_name
  \<close>
  \<open>Path.exists\<close> returns \<open>True\<close> or \<open>False\<close>, or it raises: \<open>os.stat\<close> fails with
  \<open>ENAMETOOLONG\<close> on a name longer than the file system allows, and \<open>exists\<close> passes on
  every \<open>OSError\<close> but those of a missing path. Nothing in the scripts catches it. A
  directory is what \<open>(directory / n).exists()\<close> does for each name \<open>n\<close>: \<open>Inr\<close> the truth
  value returned, or \<open>Inl\<close> the exception raised.
  The loop runs forever when every candidate exists, so it is a partial function:
  \<open>None\<close> is "does not return".
\<close>

type_synonym directory = "str \<Rightarrow> exn + bool"

definition numbered :: "str \<Rightarrow> str \<Rightarrow> nat \<Rightarrow> str" where
  "numbered base ext counter = base @ ascii ''_'' @ str_nat counter @ ext"

partial_function (option) available_loop ::
  "directory \<Rightarrow> str \<Rightarrow> str \<Rightarrow> str \<Rightarrow> nat \<Rightarrow> (exn + str) option" where
  "available_loop directory base ext new_name counter =
     (case directory new_name of
        Inl e \<Rightarrow> Some (Inl e)
      | Inr found \<Rightarrow>
          if found
          then available_loop directory base ext (numbered base ext counter) (counter + 1)
          else Some (Inr new_name))"

declare available_loop.simps [code]

definition get_available_filename :: "directory \<Rightarrow> str \<Rightarrow> (exn + str) option" where
  "get_available_filename directory filename =
     (case split_ext filename of (base, ext) \<Rightarrow>
        available_loop directory base ext filename 1)"

text \<open>
  A directory of a file system with the usual limit on names: \<open>exists\<close> raises \<open>OSError\<close>
  when a component of the name (the text between two \<open>/\<close>) has more than
  \<open>NAME_MAX = 255\<close> bytes in UTF-8, and otherwise tells whether the name is among those
  present.
\<close>

definition utf8_length :: "str \<Rightarrow> nat" where
  "utf8_length s =
     sum_list (map (\<lambda>c. if c < 128 then 1 else if c < 2048 then 2 else if c < 65536 then 3 else 4) s)"

definition NAME_MAX :: nat where "NAME_MAX = 255"

fun split_on :: "codepoint \<Rightarrow> str \<Rightarrow> str list" where
  "split_on sep [] = [[]]"
| "split_on sep (c # cs) =
     (if c = sep then [] # split_on sep cs
      else (case split_on sep cs of
              [] \<Rightarrow> [[c]]
            | part # parts \<Rightarrow> (c # part) # parts))"

definition name_too_long :: "str \<Rightarrow> bool" where
  "name_too_long name =
     list_ex (\<lambda>component. NAME_MAX < utf8_length component) (split_on (cp CHR ''/'') name)"

definition listing :: "str set \<Rightarrow> directory" where
  "listing present name = (if name_too_long name then Inl OSError else Inr (name \<in> present))"

section \<open>Unicode data and \<open>remove_diacritics\<close>\<close>

text \<open>
  \<open>unicodedata\<close> is a library: its tables are a parameter of the model. For one code point,
  \<open>decomposition\<close> is its full canonical decomposition (the code point itself when it has
  none), \<open>combining\<close> is \<open>unicodedata.combining\<close> (the canonical combining class),
  \<open>category_Mn\<close> is \<open>unicodedata.category(c) == 'Mn'\<close> and \<open>decimal\<close> is the value of a
  decimal digit (what the regular expression \<open>\d\<close> matches and \<open>int\<close> converts).
\<close>

record ucd =
  decomposition :: "codepoint \<Rightarrow> str"
  combining :: "codepoint \<Rightarrow> nat"
  category_Mn :: "codepoint \<Rightarrow> bool"
  decimal :: "codepoint \<Rightarrow> nat option"

text \<open>
  \<open>unicodedata.normalize('NFD', text)\<close>: every code point is replaced by its full canonical
  decomposition, then every maximal run of code points of non-zero combining class is sorted
  by combining class, stably (the canonical ordering of the Unicode standard).
  \<open>pending\<close> is the run read so far.
\<close>

fun canonical_order :: "(codepoint \<Rightarrow> nat) \<Rightarrow> str \<Rightarrow> str \<Rightarrow> str" where
  "canonical_order ccc pending [] = sort_key ccc pending"
| "canonical_order ccc pending (c # cs) =
     (if ccc c = 0 then sort_key ccc pending @ c # canonical_order ccc [] cs
      else canonical_order ccc (pending @ [c]) cs)"

definition normalize_NFD :: "ucd \<Rightarrow> str \<Rightarrow> str" where
  "normalize_NFD db text = canonical_order (combining db) [] (concat (map (decomposition db) text))"

text \<open>
  \<^verbatim>\<open>
  def remove_diacritics(text):
      if not text:
          return text
      normalized = unicodedata.normalize('NFD', text)
      return ''.join(c for c in normalized if unicodedata.category(c) != 'Mn')
  \<close>
\<close>

definition remove_diacritics :: "ucd \<Rightarrow> str \<Rightarrow> str" where
  "remove_diacritics db text =
     (if text = [] then text
      else filter (\<lambda>c. \<not> category_Mn db c) (normalize_NFD db text))"

text \<open>
  An excerpt of the Unicode character database, for evaluating the functions on concrete
  strings: the letters of the Czech alphabet, the three combining marks they decompose to,
  the combining grapheme joiner U+034F (category Mn, class 0) and two musical combining
  marks (U+1D165 of class 216, U+1D16D of class 226, both of category Mc). The block
  U+0300..U+036F is of category Mn throughout. Code points outside the excerpt are
  treated as undecomposable starters that are no marks; ASCII is of that kind. The
  decimal digits of the excerpt are the ASCII digits.
\<close>

definition czech_decompositions :: "(codepoint \<times> str) list" where
  "czech_decompositions =
     [(0xE1, [0x61, 0x301]), (0x10D, [0x63, 0x30C]), (0x10F, [0x64, 0x30C]),
      (0xE9, [0x65, 0x301]), (0x11B, [0x65, 0x30C]), (0xED, [0x69, 0x301]),
      (0x148, [0x6E, 0x30C]), (0xF3, [0x6F, 0x301]), (0x159, [0x72, 0x30C]),
      (0x161, [0x73, 0x30C]), (0x165, [0x74, 0x30C]), (0xFA, [0x75, 0x301]),
      (0x16F, [0x75, 0x30A]), (0xFD, [0x79, 0x301]), (0x17E, [0x7A, 0x30C]),
      (0xC1, [0x41, 0x301]), (0x10C, [0x43, 0x30C]), (0x10E, [0x44, 0x30C]),
      (0xC9, [0x45, 0x301]), (0x11A, [0x45, 0x30C]), (0xCD, [0x49, 0x301]),
      (0x147, [0x4E, 0x30C]), (0xD3, [0x4F, 0x301]), (0x158, [0x52, 0x30C]),
      (0x160, [0x53, 0x30C]), (0x164, [0x54, 0x30C]), (0xDA, [0x55, 0x301]),
      (0x16E, [0x55, 0x30A]), (0xDD, [0x59, 0x301]), (0x17D, [0x5A, 0x30C])]"

definition ucd_excerpt :: ucd where
  "ucd_excerpt =
     \<lparr> decomposition = (\<lambda>c. case map_of czech_decompositions c of Some d \<Rightarrow> d | None \<Rightarrow> [c]),
       combining = (\<lambda>c. if c = 0x301 \<or> c = 0x30A \<or> c = 0x30C then 230
                         else if c = 0x1D165 then 216
                         else if c = 0x1D16D then 226
                         else 0),
       category_Mn = (\<lambda>c. 0x300 \<le> c \<and> c \<le> 0x36F),
       decimal = (\<lambda>c. if 48 \<le> c \<and> c \<le> 57 then Some (c - 48) else None) \<rparr>"

section \<open>\<open>sanitize_filename\<close>\<close>

text \<open>
  \<^verbatim>\<open>
  def sanitize_filename(filename):
      """
      Upravi nazev souboru:
      - Odstrani diakritiku
      - Mezery nahradi podtrzitkem
      - Odstrani nepovolene znaky (ponecha pouze a-z, A-Z, 0-9, _, -, .)
      """
      if not filename:
          return filename
      if '.' in filename:
          name, ext = filename.rsplit('.', 1)
          ext = '.' + ext
      else:
          name = filename
          ext = ''
      name = remove_diacritics(name)
      ext = remove_diacritics(ext)
      name = name.replace(' ', '_')
      name = name.replace("'", "")
      name = re.sub(r'[^a-zA-Z0-9_\-]', '', name)
      return name + ext
  \<close>
  The docstring reads: removes diacritics; replaces spaces by underscores; removes the
  characters that are not allowed (keeps only a-z, A-Z, 0-9, _, -, .).
\<close>

definition replace_char :: "codepoint \<Rightarrow> codepoint \<Rightarrow> str \<Rightarrow> str" where
  "replace_char old new s = map (\<lambda>c. if c = old then new else c) s"

definition remove_char :: "codepoint \<Rightarrow> str \<Rightarrow> str" where
  "remove_char old s = filter (\<lambda>c. c \<noteq> old) s"

text \<open>The character class \<open>[a-zA-Z0-9_\-]\<close>.\<close>

definition name_char :: "codepoint \<Rightarrow> bool" where
  "name_char c \<longleftrightarrow>
     (cp CHR ''a'' \<le> c \<and> c \<le> cp CHR ''z'') \<or> (cp CHR ''A'' \<le> c \<and> c \<le> cp CHR ''Z'') \<or>
     (cp CHR ''0'' \<le> c \<and> c \<le> cp CHR ''9'') \<or> c = cp CHR ''_'' \<or> c = cp CHR ''-''"

definition sanitize_filename :: "ucd \<Rightarrow> str \<Rightarrow> str" where
  "sanitize_filename db filename =
     (if filename = [] then filename
      else case split_ext filename of (name, ext) \<Rightarrow>
        let name = remove_diacritics db name;
            ext = remove_diacritics db ext;
            name = replace_char (cp CHR '' '') (cp CHR ''_'') name;
            name = remove_char 39 name;
            name = filter name_char name
        in name @ ext)"

text \<open>The characters the docstring allows in the result: \<open>[A-Za-z0-9_.-]\<close>.\<close>

definition allowed_char :: "codepoint \<Rightarrow> bool" where
  "allowed_char c \<longleftrightarrow> name_char c \<or> c = cp CHR ''.''"

section \<open>Dates\<close>

text \<open>
  A \<open>datetime\<close> at midnight is the triple (year, month, day); \<open>datetime\<close> objects compare
  as these triples do, lexicographically.
\<close>

type_synonym date = "nat \<times> nat \<times> nat"

definition leap_year :: "nat \<Rightarrow> bool" where
  "leap_year y \<longleftrightarrow> y mod 4 = 0 \<and> (y mod 100 \<noteq> 0 \<or> y mod 400 = 0)"

definition days_in_month :: "nat \<Rightarrow> nat \<Rightarrow> nat" where
  "days_in_month y m =
     (if m = 2 then (if leap_year y then 29 else 28)
      else if m = 4 \<or> m = 6 \<or> m = 9 \<or> m = 11 then 30 else 31)"

text \<open>The constructor \<open>datetime(year, month, day)\<close> raises \<open>ValueError\<close> outside these ranges.\<close>

definition valid_date :: "date \<Rightarrow> bool" where
  "valid_date d = (case d of (y, m, dd) \<Rightarrow>
     1 \<le> y \<and> y \<le> 9999 \<and> 1 \<le> m \<and> m \<le> 12 \<and> 1 \<le> dd \<and> dd \<le> days_in_month y m)"

text \<open>
  \<open>datetime.strptime\<close> turns the format into a regular expression, matches it at the start
  of the string by backtracking, and raises \<open>ValueError\<close> when there is no match or when text
  remains after the match. The directives of the two formats of the scripts are
  \<^verbatim>\<open>
  %d   (3[0-1]|[1-2]\d|0[1-9]|[1-9]| [1-9])
  %m   (1[0-2]|0[1-9]|[1-9])
  %Y   (\d\d\d\d)
  \<close>
  Each of the following functions lists, in the order of the alternatives, the value and
  the remaining text of every way the directive matches a prefix of the string.
\<close>

definition in_range :: "char \<Rightarrow> char \<Rightarrow> codepoint \<Rightarrow> bool" where
  "in_range lo hi c \<longleftrightarrow> cp lo \<le> c \<and> c \<le> cp hi"

definition ascii_digit :: "codepoint \<Rightarrow> nat" where
  "ascii_digit c = c - cp CHR ''0''"

fun directive_d :: "ucd \<Rightarrow> str \<Rightarrow> (nat \<times> str) list" where
  "directive_d db (a # b # rest) =
     (if a = cp CHR ''3'' \<and> in_range CHR ''0'' CHR ''1'' b then [(30 + ascii_digit b, rest)] else []) @
     (if in_range CHR ''1'' CHR ''2'' a \<and> decimal db b \<noteq> None
        then [(10 * ascii_digit a + the (decimal db b), rest)] else []) @
     (if a = cp CHR ''0'' \<and> in_range CHR ''1'' CHR ''9'' b then [(ascii_digit b, rest)] else []) @
     (if in_range CHR ''1'' CHR ''9'' a then [(ascii_digit a, b # rest)] else []) @
     (if a = cp CHR '' '' \<and> in_range CHR ''1'' CHR ''9'' b then [(ascii_digit b, rest)] else [])"
| "directive_d db [a] = (if in_range CHR ''1'' CHR ''9'' a then [(ascii_digit a, [])] else [])"
| "directive_d db [] = []"

fun directive_m :: "str \<Rightarrow> (nat \<times> str) list" where
  "directive_m (a # b # rest) =
     (if a = cp CHR ''1'' \<and> in_range CHR ''0'' CHR ''2'' b then [(10 + ascii_digit b, rest)] else []) @
     (if a = cp CHR ''0'' \<and> in_range CHR ''1'' CHR ''9'' b then [(ascii_digit b, rest)] else []) @
     (if in_range CHR ''1'' CHR ''9'' a then [(ascii_digit a, b # rest)] else [])"
| "directive_m [a] = (if in_range CHR ''1'' CHR ''9'' a then [(ascii_digit a, [])] else [])"
| "directive_m [] = []"

fun directive_Y :: "ucd \<Rightarrow> str \<Rightarrow> (nat \<times> str) list" where
  "directive_Y db (a # b # c # d # rest) =
     (case (decimal db a, decimal db b, decimal db c, decimal db d) of
        (Some a', Some b', Some c', Some d') \<Rightarrow> [(1000 * a' + 100 * b' + 10 * c' + d', rest)]
      | _ \<Rightarrow> [])"
| "directive_Y db _ = []"

text \<open>A literal character of the format.\<close>

fun literal :: "char \<Rightarrow> str \<Rightarrow> str list" where
  "literal ch (a # rest) = (if a = cp ch then [rest] else [])"
| "literal ch [] = []"

text \<open>
  The first overall match decides; the text after it must be empty; the date must exist.
\<close>

definition finish_strptime :: "(date \<times> str) list \<Rightarrow> exn + date" where
  "finish_strptime matches =
     (case matches of
        [] \<Rightarrow> Inl ValueError
      | (d, rest) # _ \<Rightarrow> if rest \<noteq> [] then Inl ValueError
                         else if valid_date d then Inr d else Inl ValueError)"

text \<open>\<open>datetime.strptime(s, "%d.%m.%Y")\<close>\<close>

definition strptime_dmY :: "ucd \<Rightarrow> str \<Rightarrow> exn + date" where
  "strptime_dmY db s = finish_strptime
     (List.bind (directive_d db s) (\<lambda>(d, r1).
      List.bind (literal CHR ''.'' r1) (\<lambda>r2.
      List.bind (directive_m r2) (\<lambda>(m, r3).
      List.bind (literal CHR ''.'' r3) (\<lambda>r4.
      List.bind (directive_Y db r4) (\<lambda>(y, r5). [((y, m, d), r5)]))))))"

text \<open>\<open>datetime.strptime(s, "%Y-%m-%d")\<close>\<close>

definition strptime_Ymd :: "ucd \<Rightarrow> str \<Rightarrow> exn + date" where
  "strptime_Ymd db s = finish_strptime
     (List.bind (directive_Y db s) (\<lambda>(y, r1).
      List.bind (literal CHR ''-'' r1) (\<lambda>r2.
      List.bind (directive_m r2) (\<lambda>(m, r3).
      List.bind (literal CHR ''-'' r3) (\<lambda>r4.
      List.bind (directive_d db r4) (\<lambda>(d, r5). [((y, m, d), r5)]))))))"

text \<open>
  \<open>dt.strftime("%Y-%m-%d")\<close>: month and day with two digits; the year as the C library
  of the platform prints it, which on Linux (where the scripts are scheduled) is without
  padding.
\<close>

definition pad2 :: "nat \<Rightarrow> str" where
  "pad2 n = (if n < 10 then cp CHR ''0'' # str_nat n else str_nat n)"

definition strftime_Ymd :: "date \<Rightarrow> str" where
  "strftime_Ymd d = (case d of (y, m, dd) \<Rightarrow> str_nat y @ ascii ''-'' @ pad2 m @ ascii ''-'' @ pad2 dd)"

text \<open>
  \<^verbatim>\<open>
  def parse_date_cz(date_str):          # edeska_jmk.py
      return datetime.strptime(date_str, "%d.%m.%Y")

  def format_date_iso(date_str):
      dt = parse_date_cz(date_str)
      return dt.strftime("%Y-%m-%d")
  \<close>
\<close>

definition parse_date_cz :: "ucd \<Rightarrow> str \<Rightarrow> exn + date" where
  "parse_date_cz db date_str = strptime_dmY db date_str"

definition format_date_iso :: "ucd \<Rightarrow> str \<Rightarrow> exn + str" where
  "format_date_iso db date_str =
     (case parse_date_cz db date_str of Inl e \<Rightarrow> Inl e | Inr dt \<Rightarrow> Inr (strftime_Ymd dt))"

text \<open>
  \<open>str.strip()\<close> removes the white space of Python (\<open>str.isspace\<close>) at both ends.
  In \<open>magistrat_mesta_brna.py\<close>, \<open>parse_date_cz\<close> strips its argument first:
  \<^verbatim>\<open>
  def parse_date_cz(date_str):
      return datetime.strptime(date_str.strip(), "%d.%m.%Y")
  \<close>
\<close>

definition isspace :: "codepoint \<Rightarrow> bool" where
  "isspace c \<longleftrightarrow> (9 \<le> c \<and> c \<le> 13) \<or> (28 \<le> c \<and> c \<le> 32) \<or> c = 133 \<or> c = 160 \<or> c = 5760 \<or>
     (8192 \<le> c \<and> c \<le> 8202) \<or> c = 8232 \<or> c = 8233 \<or> c = 8239 \<or> c = 8287 \<or> c = 12288"

definition strip :: "str \<Rightarrow> str" where
  "strip s = rev (dropWhile isspace (rev (dropWhile isspace s)))"

definition brno_parse_date_cz :: "ucd \<Rightarrow> str \<Rightarrow> exn + date" where
  "brno_parse_date_cz db date_str = strptime_dmY db (strip date_str)"

definition brno_format_date_iso :: "ucd \<Rightarrow> str \<Rightarrow> exn + str" where
  "brno_format_date_iso db date_str =
     (case brno_parse_date_cz db date_str of Inl e \<Rightarrow> Inl e | Inr dt \<Rightarrow> Inr (strftime_Ymd dt))"

section \<open>Run state, logging, pauses\<close>

text \<open>
  The module-level variables \<open>LOG_LINES\<close> and \<open>HAS_ERROR\<close>, the \<open>stats\<close> dictionary of
  \<open>main\<close>, the statements of the \<open>SQLImportGenerator\<close> and the effects on the outside are the
  fields of the state that every function passes on:
  \<^item> a line of \<open>LOG_LINES\<close> is its level and its message (the time stamp of the line is left out);
  \<^item> \<open>pauses\<close> are the calls of \<open>time.sleep\<close>, in order;
  \<open>Fixed n\<close> is \<open>time.sleep(n)\<close>, \<open>Uniform lo hi\<close> is \<open>time.sleep(random.uniform(lo, hi))\<close>;
  \<^item> \<open>clock\<close> counts the requests sent so far (HTTP and FTP): the outside answers the
  \<open>n\<close>-th request as the \<open>world\<close> below says;
  \<^item> \<open>saved\<close> is the set of the names that exist in \<open>SAVE_DIR\<close>;
  \<^item> a statement of the import file is the list of the arguments of \<open>add_file\<close>
  (the SQL text rendered from them is left out).
  The writes to the local log file and to the SQL files are taken to succeed.
\<close>

datatype level = INFO | WARN | ERROR

datatype slept = Fixed nat | Uniform nat nat

record run_state =
  LOG_LINES :: "(level \<times> str) list"
  HAS_ERROR :: bool
  pauses :: "slept list"
  clock :: nat
  saved :: "str set"
  pages_processed :: nat
  items_processed :: nat
  files_downloaded :: nat
  files_uploaded :: nat
  files_failed :: nat
  statements :: "str list list"

definition PAUSE_MIN :: nat where "PAUSE_MIN = 2"
definition PAUSE_MAX :: nat where "PAUSE_MAX = 4"
definition PAUSE_ON_ERROR :: nat where "PAUSE_ON_ERROR = 30"
definition MAX_RETRIES :: nat where "MAX_RETRIES = 3"
definition PAGE_SIZE :: nat where "PAGE_SIZE = 25"

text \<open>
  \<^verbatim>\<open>
  def log(msg, level="INFO"):
      global HAS_ERROR
      line = f"[{datetime.now().strftime('%Y-%m-%d %H:%M:%S')}] [{level}] {msg}"
      LOG_LINES.append(line)
      print(line, flush=True)
      if level == "ERROR":
          HAS_ERROR = True
      if LOG_FILE:
          with open(LOG_FILE, "a", encoding="utf-8") as f:
              f.write(line + "\n")
  \<close>
\<close>

definition log :: "str \<Rightarrow> level \<Rightarrow> 'a run_state_scheme \<Rightarrow> 'a run_state_scheme" where
  "log msg lvl s =
     s\<lparr>LOG_LINES := LOG_LINES s @ [(lvl, msg)],
       HAS_ERROR := (if lvl = ERROR then True else HAS_ERROR s)\<rparr>"

definition sleep :: "nat \<Rightarrow> 'a run_state_scheme \<Rightarrow> 'a run_state_scheme" where
  "sleep seconds s = s\<lparr>pauses := pauses s @ [Fixed seconds]\<rparr>"

definition random_pause :: "nat \<Rightarrow> nat \<Rightarrow> 'a run_state_scheme \<Rightarrow> 'a run_state_scheme" where
  "random_pause min_sec max_sec s = s\<lparr>pauses := pauses s @ [Uniform min_sec max_sec]\<rparr>"

definition tick :: "'a run_state_scheme \<Rightarrow> 'a run_state_scheme" where
  "tick s = s\<lparr>clock := clock s + 1\<rparr>"

section \<open>The outside world\<close>

text \<open>
  The answer to an HTTP request is an exception of the transport (with its text) or a
  response: the status code, the value of the \<open>Content-Type\<close> header if there is one, whether
  there is a \<open>Content-Disposition\<close> header, the decoded body (\<open>response.text\<close>) and the raw
  body (\<open>response.content\<close>). A body that starts to arrive is taken to arrive completely.
\<close>

record response =
  status_code :: nat
  content_type :: "str option"
  content_disposition :: bool
  resp_text :: str
  resp_content :: str

datatype http_outcome = Http_exception str | Http_response response

text \<open>
  What the regular expressions of \<open>JMKScraper.parse_list_page\<close> find in one row:
  \<open>date_match\<close> is group 1 of
  \<^verbatim>\<open><td class="VyveseniDneTd[LS]"[^>]*>(\d{2}\.\d{2}\.\d{4})</td>\<close>,
  \<open>link_match\<close> is the groups 1 and 2 of
  \<^verbatim>\<open><td class="NazevTd[LS]"[^>]*><a[^>]+href=['"]([^'"]+)['"][^>]*>([^<]+)</a>\<close>,
  each \<open>None\<close> when the search finds nothing.
\<close>

record jmk_row =
  date_match :: "str option"
  link_match :: "(str \<times> str) option"

text \<open>
  What the regular expressions of \<open>BrnoScraper._parse_row\<close> find in one row. Of \<open>nazev_match\<close>
  group 1 (\<open>\d+\<close>) is given as the number \<open>int\<close> makes of it; \<open>zverejnit_dates\<close> are the
  matches of \<^verbatim>\<open>edeska-sloupec-zverejnit">\s*(\d{2}\.\d{2}\.\d{4})\s*</td>\<close>; \<open>dokument_match\<close>
  holds, for the document cell, the pairs (\<open>idPriloha\<close>, link text) of its download links.
\<close>

record brno_row =
  oblast_match :: "str option"
  kategorie_match :: "str option"
  nazev_match :: "(nat \<times> str) option"
  znacka_match :: "str option"
  puvodce_match :: "str option"
  zverejnit_dates :: "str list"
  dokument_match :: "(str \<times> str) list option"

text \<open>
  Everything the scripts take from outside:
  \<^item> \<open>http_get n url\<close>, \<open>http_post n url data\<close>: the answer when the request is the \<open>n\<close>-th one;
  \<^item> \<open>ftp_store n remote_path remote_filename\<close>: \<open>None\<close> when login, \<open>cwd\<close> and \<open>STOR\<close>
  succeed, the text of the exception otherwise;
  \<^item> the Unicode tables, \<open>html.unescape\<close> and the results of the regular expressions on a
  page;
  \<^item> \<open>urljoin base url\<close>: the joined address, or the \<open>ValueError\<close> that \<open>urllib.parse.urljoin\<close>
  raises on a reference it cannot split (such as one with an unclosed bracket in its host);
  \<^item> \<open>exists_error name\<close>: the exception that \<open>(SAVE_DIR / name).exists()\<close> raises, if it
  raises one (\<open>OSError\<close> for a name longer than the file system allows);
  \<^item> the configuration: the FTP settings of the environment, the date bounds, and the
  paths that appear in log messages.
\<close>

record world =
  http_get :: "nat \<Rightarrow> str \<Rightarrow> http_outcome"
  http_post :: "nat \<Rightarrow> str \<Rightarrow> (str \<times> str) list \<Rightarrow> http_outcome"
  ftp_store :: "nat \<Rightarrow> str \<Rightarrow> str \<Rightarrow> str option"
  unicode :: ucd
  upper :: "codepoint \<Rightarrow> str"
  urljoin :: "str \<Rightarrow> str \<Rightarrow> exn + str"
  exists_error :: "str \<Rightarrow> exn option"
  unescape :: "str \<Rightarrow> str"
  re_sub_tags :: "str \<Rightarrow> str"
  re_sub_spaces :: "str \<Rightarrow> str"
  re_viewstate :: "str \<Rightarrow> str option"
  re_viewstate_generator :: "str \<Rightarrow> str option"
  re_jmk_rows :: "str \<Rightarrow> jmk_row list"
  re_jmk_files :: "str \<Rightarrow> (str \<times> str) list"
  re_total_count :: "str \<Rightarrow> nat option"
  re_tbody :: "str \<Rightarrow> str option"
  re_brno_rows :: "str \<Rightarrow> brno_row list"
  FTP_HOST :: str
  FTP_USER :: str
  FTP_PASS :: str
  FTP_PATH :: str
  FTP_LOGS_PATH :: str
  FROM_DATE :: str
  TO_DATE :: str
  SAVE_DIR :: str
  SQL_IMPORT_FILE :: str
  SQL_LOGY_FILE :: str
  LOG_FILE_name :: str

text \<open>
  \<open>SAVE_DIR\<close> as a directory: \<open>exists\<close> raises where the world says so, and otherwise tells
  whether the name is among those saved.
\<close>

definition save_dir :: "world \<Rightarrow> str set \<Rightarrow> directory" where
  "save_dir w present name =
     (case exists_error w name of Some e \<Rightarrow> Inl e | None \<Rightarrow> Inr (name \<in> present))"

section \<open>Resilient fetcher\<close>

text \<open>\<open>needle in haystack\<close> for strings and for bytes.\<close>

fun contains :: "str \<Rightarrow> str \<Rightarrow> bool" where
  "contains needle [] = (needle = [])"
| "contains needle (c # cs) = (prefix needle (c # cs) \<or> contains needle cs)"

text \<open>\<open>bytes.lower()\<close>: the ASCII capitals become small letters.\<close>

definition lower_bytes :: "str \<Rightarrow> str" where
  "lower_bytes s = map (\<lambda>c. if cp CHR ''A'' \<le> c \<and> c \<le> cp CHR ''Z'' then c + 32 else c) s"

subsection \<open>\<open>JMKScraper.get_page\<close> and \<open>post_page\<close>\<close>

text \<open>
  \<^verbatim>\<open>
  def get_page(self, url, retry=0):
      try:
          response = self.session.get(url, timeout=60)
          if response.status_code == 200:
              text = response.text
              if "Service Unavailable" in text or "docasne nedostupna" in text:
                  raise Exception("Server vratil chybovou stranku (503)")
              return text
          else:
              raise Exception(f"HTTP {response.status_code}")
      except Exception as e:
          if retry < MAX_RETRIES:
              log(f"Chyba: {e}, cekam {PAUSE_ON_ERROR}s a zkousim znovu...", "WARN")
              time.sleep(PAUSE_ON_ERROR)
              return self.get_page(url, retry + 1)
          else:
              log(f"Chyba po {MAX_RETRIES} pokusech: {e}", "ERROR")
              return None
  \<close>
  The \<open>try\<close> block is \<open>jmk_page_attempt\<close>: \<open>Inl\<close> the text of the exception, \<open>Inr\<close> the
  text returned. \<open>post_page\<close> is the same with \<open>session.post(url, data=data, timeout=60)\<close>.
\<close>

definition jmk_page_attempt :: "http_outcome \<Rightarrow> str + str" where
  "jmk_page_attempt answer =
     (case answer of
        Http_exception e \<Rightarrow> Inl e
      | Http_response r \<Rightarrow>
          if status_code r = 200
          then (if contains (ascii ''Service Unavailable'') (resp_text r)
                   \<or> contains (ascii ''docasne nedostupna'') (resp_text r)
                then Inl (ascii ''Server vratil chybovou stranku (503)'')
                else Inr (resp_text r))
          else Inl (ascii ''HTTP '' @ str_nat (status_code r)))"

definition retry_message :: "str \<Rightarrow> str" where
  "retry_message e =
     ascii ''Chyba: '' @ e @ ascii '', cekam '' @ str_nat PAUSE_ON_ERROR @ ascii ''s a zkousim znovu...''"

definition failure_message :: "str \<Rightarrow> str" where
  "failure_message e = ascii ''Chyba po '' @ str_nat MAX_RETRIES @ ascii '' pokusech: '' @ e"

function jmk_get_page ::
  "world \<Rightarrow> str \<Rightarrow> nat \<Rightarrow> 'a run_state_scheme \<Rightarrow> str option \<times> 'a run_state_scheme" where
  "jmk_get_page w url retry s =
     (case jmk_page_attempt (http_get w (clock s) url) of
        Inr text \<Rightarrow> (Some text, tick s)
      | Inl e \<Rightarrow>
          if retry < MAX_RETRIES
          then jmk_get_page w url (retry + 1)
                 (sleep PAUSE_ON_ERROR (log (retry_message e) WARN (tick s)))
          else (None, log (failure_message e) ERROR (tick s)))"
  by pat_completeness auto
termination
  by (relation "measure (\<lambda>(w, url, retry, s). MAX_RETRIES - retry)") auto

function jmk_post_page ::
  "world \<Rightarrow> str \<Rightarrow> (str \<times> str) list \<Rightarrow> nat \<Rightarrow> 'a run_state_scheme
     \<Rightarrow> str option \<times> 'a run_state_scheme" where
  "jmk_post_page w url data retry s =
     (case jmk_page_attempt (http_post w (clock s) url data) of
        Inr text \<Rightarrow> (Some text, tick s)
      | Inl e \<Rightarrow>
          if retry < MAX_RETRIES
          then jmk_post_page w url data (retry + 1)
                 (sleep PAUSE_ON_ERROR (log (retry_message e) WARN (tick s)))
          else (None, log (failure_message e) ERROR (tick s)))"
  by pat_completeness auto
termination
  by (relation "measure (\<lambda>(w, url, data, retry, s). MAX_RETRIES - retry)") auto

subsection \<open>\<open>BrnoScraper.get_page\<close> and \<open>post_page\<close>\<close>

text \<open>
  \<^verbatim>\<open>
  def get_page(self, url, retry=0):
      try:
          response = self.session.get(url, timeout=60)
          if response.status_code == 200:
              return response.text
          else:
              raise Exception(f"HTTP {response.status_code}")
      except Exception as e:
          (as in JMKScraper.get_page)
  \<close>
\<close>

definition brno_page_attempt :: "http_outcome \<Rightarrow> str + str" where
  "brno_page_attempt answer =
     (case answer of
        Http_exception e \<Rightarrow> Inl e
      | Http_response r \<Rightarrow>
          if status_code r = 200 then Inr (resp_text r)
          else Inl (ascii ''HTTP '' @ str_nat (status_code r)))"

function brno_get_page ::
  "world \<Rightarrow> str \<Rightarrow> nat \<Rightarrow> 'a run_state_scheme \<Rightarrow> str option \<times> 'a run_state_scheme" where
  "brno_get_page w url retry s =
     (case brno_page_attempt (http_get w (clock s) url) of
        Inr text \<Rightarrow> (Some text, tick s)
      | Inl e \<Rightarrow>
          if retry < MAX_RETRIES
          then brno_get_page w url (retry + 1)
                 (sleep PAUSE_ON_ERROR (log (retry_message e) WARN (tick s)))
          else (None, log (failure_message e) ERROR (tick s)))"
  by pat_completeness auto
termination
  by (relation "measure (\<lambda>(w, url, retry, s). MAX_RETRIES - retry)") auto

function brno_post_page ::
  "world \<Rightarrow> str \<Rightarrow> (str \<times> str) list \<Rightarrow> nat \<Rightarrow> 'a run_state_scheme
     \<Rightarrow> str option \<times> 'a run_state_scheme" where
  "brno_post_page w url data retry s =
     (case brno_page_attempt (http_post w (clock s) url data) of
        Inr text \<Rightarrow> (Some text, tick s)
      | Inl e \<Rightarrow>
          if retry < MAX_RETRIES
          then brno_post_page w url data (retry + 1)
                 (sleep PAUSE_ON_ERROR (log (retry_message e) WARN (tick s)))
          else (None, log (failure_message e) ERROR (tick s)))"
  by pat_completeness auto
termination
  by (relation "measure (\<lambda>(w, url, data, retry, s). MAX_RETRIES - retry)") auto

subsection \<open>\<open>download_file\<close>\<close>

text \<open>
  \<^verbatim>\<open>
  def download_file(self, url, save_path, retry=0):      # JMKScraper
      try:
          response = self.session.get(url, timeout=120, stream=True)
          if response.status_code != 200:
              raise Exception(f"HTTP {response.status_code}")
          content_type = response.headers.get("Content-Type", "")
          if "text/html" in content_type and "Content-Disposition" not in response.headers:
              content = response.content
              if b"Service Unavailable" in content or b"docasne nedostupna" in content:
                  raise Exception("Server vratil chybovou stranku")
              content_lower = content.lower()
              if b"dokument" in content_lower and b"dispozici" in content_lower:
                  log(f"Dokument neni k dispozici", "WARN")
                  return False
          save_path.parent.mkdir(parents=True, exist_ok=True)
          with open(save_path, "wb") as f:
              for chunk in response.iter_content(chunk_size=8192):
                  f.write(chunk)
          return True
      except Exception as e:
          if retry < MAX_RETRIES:
              log(f"Chyba stahovani: {e}, cekam {PAUSE_ON_ERROR}s...", "WARN")
              time.sleep(PAUSE_ON_ERROR)
              return self.download_file(url, save_path, retry + 1)
          else:
              log(f"Chyba stahovani po {MAX_RETRIES} pokusech: {e}", "ERROR")
              return False
  \<close>
  The \<open>try\<close> block ends in one of three ways: an exception, the early \<open>return False\<close> of a
  document that is not available, or the file written. \<open>BrnoScraper.download_file\<close> is the
  same text without the four lines from \<open>content_lower = ...\<close> to \<open>return False\<close>.
\<close>

datatype download_attempt = Raised str | Not_available | Written

definition jmk_download_attempt :: "http_outcome \<Rightarrow> download_attempt" where
  "jmk_download_attempt answer =
     (case answer of
        Http_exception e \<Rightarrow> Raised e
      | Http_response r \<Rightarrow>
          if status_code r \<noteq> 200 then Raised (ascii ''HTTP '' @ str_nat (status_code r))
          else if contains (ascii ''text/html'') (case content_type r of None \<Rightarrow> [] | Some v \<Rightarrow> v)
                  \<and> \<not> content_disposition r
          then (if contains (ascii ''Service Unavailable'') (resp_content r)
                   \<or> contains (ascii ''docasne nedostupna'') (resp_content r)
                then Raised (ascii ''Server vratil chybovou stranku'')
                else if contains (ascii ''dokument'') (lower_bytes (resp_content r))
                        \<and> contains (ascii ''dispozici'') (lower_bytes (resp_content r))
                then Not_available
                else Written)
          else Written)"

definition brno_download_attempt :: "http_outcome \<Rightarrow> download_attempt" where
  "brno_download_attempt answer =
     (case answer of
        Http_exception e \<Rightarrow> Raised e
      | Http_response r \<Rightarrow>
          if status_code r \<noteq> 200 then Raised (ascii ''HTTP '' @ str_nat (status_code r))
          else if contains (ascii ''text/html'') (case content_type r of None \<Rightarrow> [] | Some v \<Rightarrow> v)
                  \<and> \<not> content_disposition r
          then (if contains (ascii ''Service Unavailable'') (resp_content r)
                   \<or> contains (ascii ''docasne nedostupna'') (resp_content r)
                then Raised (ascii ''Server vratil chybovou stranku'')
                else Written)
          else Written)"

definition download_retry_message :: "str \<Rightarrow> str" where
  "download_retry_message e =
     ascii ''Chyba stahovani: '' @ e @ ascii '', cekam '' @ str_nat PAUSE_ON_ERROR @ ascii ''s...''"

definition download_failure_message :: "str \<Rightarrow> str" where
  "download_failure_message e =
     ascii ''Chyba stahovani po '' @ str_nat MAX_RETRIES @ ascii '' pokusech: '' @ e"

text \<open>\<open>save_name\<close> is the name of \<open>save_path\<close> in \<open>SAVE_DIR\<close>; the file written exists from then on.\<close>

function jmk_download_file ::
  "world \<Rightarrow> str \<Rightarrow> str \<Rightarrow> nat \<Rightarrow> 'a run_state_scheme \<Rightarrow> bool \<times> 'a run_state_scheme" where
  "jmk_download_file w url save_name retry s =
     (case jmk_download_attempt (http_get w (clock s) url) of
        Written \<Rightarrow> (True, (tick s)\<lparr>saved := insert save_name (saved s)\<rparr>)
      | Not_available \<Rightarrow> (False, log (ascii ''Dokument neni k dispozici'') WARN (tick s))
      | Raised e \<Rightarrow>
          if retry < MAX_RETRIES
          then jmk_download_file w url save_name (retry + 1)
                 (sleep PAUSE_ON_ERROR (log (download_retry_message e) WARN (tick s)))
          else (False, log (download_failure_message e) ERROR (tick s)))"
  by pat_completeness auto
termination
  by (relation "measure (\<lambda>(w, url, save_name, retry, s). MAX_RETRIES - retry)") auto

function brno_download_file ::
  "world \<Rightarrow> str \<Rightarrow> str \<Rightarrow> nat \<Rightarrow> 'a run_state_scheme \<Rightarrow> bool \<times> 'a run_state_scheme" where
  "brno_download_file w url save_name retry s =
     (case brno_download_attempt (http_get w (clock s) url) of
        Written \<Rightarrow> (True, (tick s)\<lparr>saved := insert save_name (saved s)\<rparr>)
      | Not_available \<Rightarrow> (False, log (ascii ''Dokument neni k dispozici'') WARN (tick s))
      | Raised e \<Rightarrow>
          if retry < MAX_RETRIES
          then brno_download_file w url save_name (retry + 1)
                 (sleep PAUSE_ON_ERROR (log (download_retry_message e) WARN (tick s)))
          else (False, log (download_failure_message e) ERROR (tick s)))"
  by pat_completeness auto
termination
  by (relation "measure (\<lambda>(w, url, save_name, retry, s). MAX_RETRIES - retry)") auto

declare jmk_get_page.simps [simp del] jmk_post_page.simps [simp del]
  brno_get_page.simps [simp del] brno_post_page.simps [simp del]
  jmk_download_file.simps [simp del] brno_download_file.simps [simp del]

section \<open>FTP upload and the SQL files\<close>

text \<open>
  \<^verbatim>\<open>
  def upload_to_ftp(local_path, remote_path, remote_filename):
      if not all([FTP_HOST, FTP_USER, FTP_PASS, remote_path]):
          log("FTP neni nakonfigurovano, preskakuji upload", "WARN")
          return False
      try:
          ftp = ftplib.FTP(FTP_HOST)
          ftp.login(FTP_USER, FTP_PASS)
          ftp.cwd(remote_path)
          with open(local_path, 'rb') as f:
              ftp.storbinary(f'STOR {remote_filename}', f)
          ftp.quit()
          return True
      except Exception as e:
          log(f"FTP chyba: {e}", "ERROR")
          return False
  \<close>
\<close>

definition upload_to_ftp ::
  "world \<Rightarrow> str \<Rightarrow> str \<Rightarrow> 'a run_state_scheme \<Rightarrow> bool \<times> 'a run_state_scheme" where
  "upload_to_ftp w remote_path remote_filename s =
     (if FTP_HOST w = [] \<or> FTP_USER w = [] \<or> FTP_PASS w = [] \<or> remote_path = []
      then (False, log (ascii ''FTP neni nakonfigurovano, preskakuji upload'') WARN s)
      else case ftp_store w (clock s) remote_path remote_filename of
             None \<Rightarrow> (True, tick s)
           | Some e \<Rightarrow> (False, log (ascii ''FTP chyba: '' @ e) ERROR (tick s)))"

text \<open>\<open>s.rsplit(sep, n)[0]\<close>: the text before the last \<open>n\<close> separators (fewer when there are fewer).\<close>

fun rsplit_head :: "codepoint \<Rightarrow> nat \<Rightarrow> str \<Rightarrow> str" where
  "rsplit_head sep 0 s = s"
| "rsplit_head sep (Suc n) s =
     (if sep \<in> set s
      then rsplit_head sep n (rev (tl (dropWhile (\<lambda>c. c \<noteq> sep) (rev s))))
      else s)"

text \<open>
  \<^verbatim>\<open>
  def upload_file_to_ftp(local_path, remote_filename):
      return upload_to_ftp(local_path, FTP_PATH, remote_filename)

  def upload_log_to_ftp(local_path, remote_filename):
      if not FTP_LOGS_PATH:
          logs_path = FTP_PATH.rsplit('/', 2)[0] + "/logs/jihomoravsky_kraj" if FTP_PATH else ""
      else:
          logs_path = FTP_LOGS_PATH
      return upload_to_ftp(local_path, logs_path, remote_filename)

  def upload_sql_to_ftp(local_path, remote_filename):
      if FTP_PATH:
          base_path = FTP_PATH.rsplit('/', 2)[0]
      else:
          base_path = ""
      return upload_to_ftp(local_path, base_path, remote_filename)
  \<close>
  \<open>site\<close> is \<open>jihomoravsky_kraj\<close> in one script and \<open>magistrat_mesta_brna\<close> in the other.
\<close>

definition upload_file_to_ftp ::
  "world \<Rightarrow> str \<Rightarrow> 'a run_state_scheme \<Rightarrow> bool \<times> 'a run_state_scheme" where
  "upload_file_to_ftp w remote_filename s = upload_to_ftp w (FTP_PATH w) remote_filename s"

definition upload_log_to_ftp ::
  "world \<Rightarrow> str \<Rightarrow> str \<Rightarrow> 'a run_state_scheme \<Rightarrow> bool \<times> 'a run_state_scheme" where
  "upload_log_to_ftp w site remote_filename s =
     (let logs_path =
            (if FTP_LOGS_PATH w = []
             then (if FTP_PATH w \<noteq> []
                   then rsplit_head (cp CHR ''/'') 2 (FTP_PATH w) @ ascii ''/logs/'' @ site
                   else [])
             else FTP_LOGS_PATH w)
      in upload_to_ftp w logs_path remote_filename s)"

definition upload_sql_to_ftp ::
  "world \<Rightarrow> str \<Rightarrow> 'a run_state_scheme \<Rightarrow> bool \<times> 'a run_state_scheme" where
  "upload_sql_to_ftp w remote_filename s =
     (let base_path = (if FTP_PATH w \<noteq> [] then rsplit_head (cp CHR ''/'') 2 (FTP_PATH w) else [])
      in upload_to_ftp w base_path remote_filename s)"

text \<open>
  \<open>SQLImportGenerator.add_file\<close> appends a statement; \<open>save\<close> writes the file and logs
  \<^verbatim>\<open>log(f"SQL import soubor vytvoren: {self.filepath} ({len(self.statements)} zaznamu)")\<close>.
  \<open>SQLLogyGenerator.save\<close> writes the file and logs
  \<^verbatim>\<open>log(f"SQL logy soubor vytvoren: {self.filepath}")\<close>.
\<close>

definition add_file :: "str list \<Rightarrow> 'a run_state_scheme \<Rightarrow> 'a run_state_scheme" where
  "add_file arguments s = s\<lparr>statements := statements s @ [arguments]\<rparr>"

definition sql_import_save :: "world \<Rightarrow> 'a run_state_scheme \<Rightarrow> 'a run_state_scheme" where
  "sql_import_save w s =
     log (ascii ''SQL import soubor vytvoren: '' @ SQL_IMPORT_FILE w @ ascii '' ('' @
          str_nat (length (statements s)) @ ascii '' zaznamu)'') INFO s"

definition sql_logy_save :: "world \<Rightarrow> 'a run_state_scheme \<Rightarrow> 'a run_state_scheme" where
  "sql_logy_save w s = log (ascii ''SQL logy soubor vytvoren: '' @ SQL_LOGY_FILE w) INFO s"

text \<open>
  The end of \<open>main\<close>, the same in both scripts but for the names of the files:
  \<^verbatim>\<open>
  log("=== HOTOVO ===")
  log(f"Zpracovano stranek: {stats['pages_processed']}")
  log(f"Zpracovano polozek: {stats['items_processed']}")
  log(f"Stazeno souboru: {stats['files_downloaded']}")
  log(f"Nahrano na FTP: {stats['files_uploaded']}")
  log(f"Selhalo: {stats['files_failed']}")
  if sql_import.statements:
      sql_import.save()
      upload_sql_to_ftp(SQL_IMPORT_FILE, "jmk_import.sql")
  else:
      log("Zadne soubory ke stazeni, SQL import nevytvoren.")
  sql_logy.save(get_log_text(), HAS_ERROR, marker_today=True)
  upload_sql_to_ftp(SQL_LOGY_FILE, "jmk_logy.sql")
  if LOG_FILE and LOG_FILE.exists():
      upload_log_to_ftp(LOG_FILE, LOG_FILE.name)
  if HAS_ERROR:
      log("Skript skoncil s chybami.", "ERROR")
      sys.exit(1)
  else:
      log("Skript skoncil uspesne.")
      sys.exit(0)
  \<close>
  \<open>init_logging\<close> has set \<open>LOG_FILE\<close>, and \<open>log\<close> has written to it, so the file exists.
  The result is the exit status.
\<close>

definition summary :: "'a run_state_scheme \<Rightarrow> 'a run_state_scheme" where
  "summary s =
     (let s = log (ascii ''=== HOTOVO ==='') INFO s;
          s = log (ascii ''Zpracovano stranek: '' @ str_nat (pages_processed s)) INFO s;
          s = log (ascii ''Zpracovano polozek: '' @ str_nat (items_processed s)) INFO s;
          s = log (ascii ''Stazeno souboru: '' @ str_nat (files_downloaded s)) INFO s;
          s = log (ascii ''Nahrano na FTP: '' @ str_nat (files_uploaded s)) INFO s
      in log (ascii ''Selhalo: '' @ str_nat (files_failed s)) INFO s)"

definition finish_run ::
  "world \<Rightarrow> str \<Rightarrow> str \<Rightarrow> str \<Rightarrow> 'a run_state_scheme \<Rightarrow> nat \<times> 'a run_state_scheme" where
  "finish_run w site import_name logy_name s =
     (let s = summary s;
          s = (if statements s \<noteq> []
               then snd (upload_sql_to_ftp w import_name (sql_import_save w s))
               else log (ascii ''Zadne soubory ke stazeni, SQL import nevytvoren.'') INFO s);
          s = sql_logy_save w s;
          s = snd (upload_sql_to_ftp w logy_name s);
          s = snd (upload_log_to_ftp w site (LOG_FILE_name w) s)
      in if HAS_ERROR s
         then (1, log (ascii ''Skript skoncil s chybami.'') ERROR s)
         else (0, log (ascii ''Skript skoncil uspesne.'') INFO s))"

section \<open>The loops of \<open>main\<close>\<close>

text \<open>
  A \<open>for\<close> loop whose body may not return (the filename resolver inside it is a \<open>while\<close>
  loop) and may raise an exception that nothing catches: \<open>None\<close> is "does not return",
  \<open>Some (Some e, s)\<close> is "raises \<open>e\<close> in state \<open>s\<close>", \<open>Some (None, s)\<close> is "runs to its end".
  An exception ends the loop, and every loop around it.
\<close>

fun for_each ::
  "('x \<Rightarrow> 's \<Rightarrow> (exn option \<times> 's) option) \<Rightarrow> 'x list \<Rightarrow> 's \<Rightarrow> (exn option \<times> 's) option" where
  "for_each body [] s = Some (None, s)"
| "for_each body (x # xs) s =
     (case body x s of
        None \<Rightarrow> None
      | Some (Some e, s') \<Rightarrow> Some (Some e, s')
      | Some (None, s') \<Rightarrow> for_each body xs s')"

text \<open>
  The loop over the items of one page, the same in both scripts but for the names of the
  fields and for what is done with an item in range:
  \<^verbatim>\<open>
  for item in items:
      item_date = parse_date_cz(item["date"])
      # Filtr: preskocit novejsi nez to_date
      if item_date > to_date:
          continue
      # Filtr: ukoncit pokud jsme starsi nez from_date
      if item_date < from_date:
          log(f"Dosazeno data {item['date']} (starsi nez {FROM_DATE}), koncim.")
          finished = True
          break
      (the item is processed)
  \<close>
  \<open>date_of\<close> is \<open>parse_date_cz(item["date"])\<close>, \<open>boundary\<close> the \<open>log\<close> call before the \<open>break\<close>,
  \<open>process\<close> the rest of the body. The loop ends by running out of items, by the \<open>break\<close>
  (with \<open>finished = True\<close>), or by an exception that nothing catches: that of
  \<open>parse_date_cz\<close>, or one raised while the item is processed.
\<close>

datatype loop_end = Exhausted | Boundary | Uncaught exn

fun for_items ::
  "('i \<Rightarrow> exn + date) \<Rightarrow> ('i \<Rightarrow> 's \<Rightarrow> 's) \<Rightarrow> ('i \<Rightarrow> 's \<Rightarrow> (exn option \<times> 's) option)
     \<Rightarrow> date \<Rightarrow> date \<Rightarrow> 'i list \<Rightarrow> 's \<Rightarrow> (loop_end \<times> 's) option" where
  "for_items date_of boundary process from_date to_date [] s = Some (Exhausted, s)"
| "for_items date_of boundary process from_date to_date (item # items) s =
     (case date_of item of
        Inl e \<Rightarrow> Some (Uncaught e, s)
      | Inr item_date \<Rightarrow>
          if item_date > to_date
          then for_items date_of boundary process from_date to_date items s
          else if item_date < from_date
          then Some (Boundary, boundary item s)
          else (case process item s of
                  None \<Rightarrow> None
                | Some (Some e, s') \<Rightarrow> Some (Uncaught e, s')
                | Some (None, s') \<Rightarrow> for_items date_of boundary process from_date to_date items s'))"

definition boundary_message :: "world \<Rightarrow> str \<Rightarrow> str" where
  "boundary_message w item_date =
     ascii ''Dosazeno data '' @ item_date @ ascii '' (starsi nez '' @ FROM_DATE w @ ascii ''), koncim.''"

text \<open>How a run ends: \<open>sys.exit(n)\<close>, or the traceback of an exception that nothing caught.\<close>

datatype ending = Exit nat | Traceback exn

text \<open>The exit status of the process; the interpreter exits with 1 after a traceback.\<close>

fun exit_status :: "ending \<Rightarrow> nat" where
  "exit_status (Exit n) = n"
| "exit_status (Traceback e) = 1"

section \<open>\<open>edeska_jmk.py\<close>: the scraper and \<open>main\<close>\<close>

record jmk_state = run_state +
  viewstate :: str
  viewstate_generator :: str

definition JMK_BASE_URL :: str where
  "JMK_BASE_URL = ascii ''https://eud.jmk.cz/Gordic/Ginis/App/UDE01/''"

text \<open>
  \<^verbatim>\<open>
  def _extract_viewstate(self, html):
      match = re.search(r'id="__VIEWSTATE"\s+value="([^"]*)"', html)
      if match:
          self.viewstate = match.group(1)
      match = re.search(r'id="__VIEWSTATEGENERATOR"\s+value="([^"]*)"', html)
      if match:
          self.viewstate_generator = match.group(1)
  \<close>
\<close>

definition extract_viewstate :: "world \<Rightarrow> str \<Rightarrow> jmk_state \<Rightarrow> jmk_state" where
  "extract_viewstate w html s =
     (let s = (case re_viewstate w html of Some v \<Rightarrow> s\<lparr>viewstate := v\<rparr> | None \<Rightarrow> s)
      in case re_viewstate_generator w html of
           Some g \<Rightarrow> s\<lparr>viewstate_generator := g\<rparr>
         | None \<Rightarrow> s)"

text \<open>\<open>if html:\<close> for an optional string: neither \<open>None\<close> nor empty.\<close>

definition truthy :: "str option \<Rightarrow> bool" where
  "truthy html = (case html of None \<Rightarrow> False | Some h \<Rightarrow> h \<noteq> [])"

text \<open>
  \<^verbatim>\<open>
  def get_list_page(self, page=1):
      list_url = urljoin(BASE_URL, "Seznam.aspx?a=0")
      if page == 1:
          html = self.get_page(list_url)
          if html:
              self._extract_viewstate(html)
          return html
      else:
          data = {
              "__EVENTTARGET": "P",
              "__EVENTARGUMENT": str(page),
              "__VIEWSTATE": self.viewstate,
              "__VIEWSTATEGENERATOR": self.viewstate_generator,
          }
          html = self.post_page(list_url, data)
          if html:
              self._extract_viewstate(html)
          return html
  \<close>
\<close>

text \<open>The result is \<open>Inl\<close> the exception of \<open>urljoin\<close>, or \<open>Inr\<close> what the method returns.\<close>

definition jmk_get_list_page ::
  "world \<Rightarrow> nat \<Rightarrow> jmk_state \<Rightarrow> (exn + str option) \<times> jmk_state" where
  "jmk_get_list_page w page s =
     (case urljoin w JMK_BASE_URL (ascii ''Seznam.aspx?a=0'') of
        Inl e \<Rightarrow> (Inl e, s)
      | Inr list_url \<Rightarrow>
          if page = 1
          then (case jmk_get_page w list_url 0 s of
                  (html, s) \<Rightarrow> (Inr html, if truthy html then extract_viewstate w (the html) s else s))
          else (let data = [(ascii ''__EVENTTARGET'', ascii ''P''),
                            (ascii ''__EVENTARGUMENT'', str_nat page),
                            (ascii ''__VIEWSTATE'', viewstate s),
                            (ascii ''__VIEWSTATEGENERATOR'', viewstate_generator s)]
                in case jmk_post_page w list_url data 0 s of
                     (html, s) \<Rightarrow> (Inr html, if truthy html then extract_viewstate w (the html) s else s)))"

text \<open>
  \<^verbatim>\<open>
  def parse_list_page(self, html):
      items = []
      rows = re.findall(r'<tr>\s*<td class="Priloha">.*?</tr>', html, re.DOTALL)
      for row in rows:
          date_match = re.search(r'<td class="VyveseniDneTd[LS]"[^>]*>(\d{2}\.\d{2}\.\d{4})</td>', row)
          if not date_match:
              continue
          date = date_match.group(1)
          link_match = re.search(r'<td class="NazevTd[LS]"[^>]*><a[^>]+href=[\'"]([^\'"]+)[\'"][^>]*>([^<]+)</a>', row)
          if not link_match:
              continue
          detail_url = link_match.group(1)
          name = link_match.group(2).strip()
          items.append({
              "date": date,
              "date_iso": format_date_iso(date),
              "detail_url": detail_url,
              "name": name,
          })
      return items
  \<close>
  \<open>format_date_iso\<close> raises \<open>ValueError\<close> when the matched digits are no date; nothing
  catches it, here or in \<open>main\<close>.
\<close>

record jmk_item =
  item_date :: str
  item_date_iso :: str
  item_detail_url :: str
  item_name :: str

fun jmk_parse_rows :: "ucd \<Rightarrow> jmk_row list \<Rightarrow> jmk_item list \<Rightarrow> exn + jmk_item list" where
  "jmk_parse_rows db [] items = Inr items"
| "jmk_parse_rows db (row # rows) items =
     (case date_match row of
        None \<Rightarrow> jmk_parse_rows db rows items
      | Some date \<Rightarrow>
          (case link_match row of
             None \<Rightarrow> jmk_parse_rows db rows items
           | Some (detail_url, name) \<Rightarrow>
               (case format_date_iso db date of
                  Inl e \<Rightarrow> Inl e
                | Inr date_iso \<Rightarrow>
                    jmk_parse_rows db rows
                      (items @ [\<lparr>item_date = date, item_date_iso = date_iso,
                                 item_detail_url = detail_url, item_name = strip name\<rparr>]))))"

definition jmk_parse_list_page :: "world \<Rightarrow> str \<Rightarrow> exn + jmk_item list" where
  "jmk_parse_list_page w html = jmk_parse_rows (unicode w) (re_jmk_rows w html) []"

text \<open>
  \<^verbatim>\<open>
  def parse_detail_page(self, html):
      files = []
      matches = re.findall(
          r'<a[^>]+class=["\']soubor_odkaz["\'][^>]+href=["\']([^"\']+)["\'][^>]*>([^<]+)</a>',
          html, re.IGNORECASE)
      for url, filename in matches:
          files.append({"url": url, "filename": filename.strip()})
      return files
  \<close>
\<close>

definition jmk_parse_detail_page :: "world \<Rightarrow> str \<Rightarrow> (str \<times> str) list" where
  "jmk_parse_detail_page w html = map (\<lambda>(url, filename). (url, strip filename)) (re_jmk_files w html)"

text \<open>
  \<^verbatim>\<open>
  def capitalize_first(text):
      if not text:
          return text
      return text[0].upper() + text[1:]
  \<close>
\<close>

definition capitalize_first :: "world \<Rightarrow> str \<Rightarrow> str" where
  "capitalize_first w text = (case text of [] \<Rightarrow> [] | c # cs \<Rightarrow> upper w c @ cs)"

text \<open>
  The body of the loop over the files of one item:
  \<^verbatim>\<open>
  for file_info in files:
      original_name = file_info["filename"]
      sanitized_name = sanitize_filename(original_name)
      new_name = f"{item['date_iso']}_{sanitized_name}"
      final_name = get_available_filename(SAVE_DIR, new_name)
      save_path = SAVE_DIR / final_name
      random_pause()
      file_url = urljoin(BASE_URL, file_info["url"])
      if scraper.download_file(file_url, save_path):
          log(f"OK {final_name}")
          stats["files_downloaded"] += 1
          if upload_file_to_ftp(save_path, final_name):
              log(f"FTP OK")
              stats["files_uploaded"] += 1
          else:
              log(f"FTP CHYBA", "ERROR")
          datum_stazeni = f"{item['date_iso']} 00:00:00"
          sql_import.add_file(final_name, datum_stazeni, nadpis)
      else:
          log(f"CHYBA {original_name}", "ERROR")
          stats["files_failed"] += 1
  \<close>
\<close>

text \<open>
  The two branches after \<open>download_file\<close>; \<open>magistrat_mesta_brna.py\<close> has the same lines with
  two spaces in front of each message (\<open>indent\<close>).
\<close>

definition after_download ::
  "world \<Rightarrow> str \<Rightarrow> str \<Rightarrow> str \<Rightarrow> str list \<Rightarrow> bool \<times> 'a run_state_scheme
     \<Rightarrow> 'a run_state_scheme" where
  "after_download w indent original_name final_name arguments result =
     (case result of (downloaded, s) \<Rightarrow>
        if downloaded
        then (let s = log (indent @ ascii ''OK '' @ final_name) INFO s;
                  s = s\<lparr>files_downloaded := files_downloaded s + 1\<rparr>;
                  s = (case upload_file_to_ftp w final_name s of (uploaded, s) \<Rightarrow>
                         if uploaded
                         then (log (indent @ ascii ''FTP OK'') INFO s)\<lparr>files_uploaded := files_uploaded s + 1\<rparr>
                         else log (indent @ ascii ''FTP CHYBA'') ERROR s)
              in add_file arguments s)
        else (log (indent @ ascii ''CHYBA '' @ original_name) ERROR s)\<lparr>files_failed := files_failed s + 1\<rparr>)"

text \<open>
  The body for one file. \<open>get_available_filename\<close> may raise \<open>OSError\<close> and \<open>urljoin\<close> may
  raise \<open>ValueError\<close>; nothing catches either.
\<close>

definition jmk_process_file ::
  "world \<Rightarrow> jmk_item \<Rightarrow> str \<Rightarrow> str \<times> str \<Rightarrow> jmk_state \<Rightarrow> (exn option \<times> jmk_state) option" where
  "jmk_process_file w item nadpis file_info s =
     (let original_name = snd file_info;
          sanitized_name = sanitize_filename (unicode w) original_name;
          new_name = item_date_iso item @ ascii ''_'' @ sanitized_name
      in case get_available_filename (save_dir w (saved s)) new_name of
           None \<Rightarrow> None
         | Some (Inl e) \<Rightarrow> Some (Some e, s)
         | Some (Inr final_name) \<Rightarrow>
             (let s = random_pause PAUSE_MIN PAUSE_MAX s
              in case urljoin w JMK_BASE_URL (fst file_info) of
                   Inl e \<Rightarrow> Some (Some e, s)
                 | Inr file_url \<Rightarrow>
                     Some (None, after_download w [] original_name final_name
                                   [final_name, item_date_iso item @ ascii '' 00:00:00'', nadpis]
                                   (jmk_download_file w file_url final_name 0 s))))"

text \<open>
  What \<open>main\<close> does with an item in range:
  \<^verbatim>\<open>
  log(f"-> {item['name']} ({item['date']})")
  stats["items_processed"] += 1
  random_pause()
  detail_url = urljoin(BASE_URL, item["detail_url"])
  detail_html = scraper.get_page(detail_url)
  if not detail_html:
      log("Chyba nacitani detailu", "ERROR")
      continue
  files = scraper.parse_detail_page(detail_html)
  if not files:
      log("(zadne soubory)")
      continue
  nadpis = capitalize_first(item["name"])
  for file_info in files: ...
  \<close>
\<close>

definition jmk_process_item ::
  "world \<Rightarrow> jmk_item \<Rightarrow> jmk_state \<Rightarrow> (exn option \<times> jmk_state) option" where
  "jmk_process_item w item s =
     (let s = log (ascii ''-> '' @ item_name item @ ascii '' ('' @ item_date item @ ascii '')'') INFO s;
          s = s\<lparr>items_processed := items_processed s + 1\<rparr>;
          s = random_pause PAUSE_MIN PAUSE_MAX s
      in case urljoin w JMK_BASE_URL (item_detail_url item) of
           Inl e \<Rightarrow> Some (Some e, s)
         | Inr detail_url \<Rightarrow>
             (case jmk_get_page w detail_url 0 s of (detail_html, s) \<Rightarrow>
                if \<not> truthy detail_html
                then Some (None, log (ascii ''Chyba nacitani detailu'') ERROR s)
                else (let files = jmk_parse_detail_page w (the detail_html)
                      in if files = []
                         then Some (None, log (ascii ''(zadne soubory)'') INFO s)
                         else for_each (jmk_process_file w item (capitalize_first w (item_name item)))
                                files s)))"

definition jmk_for_items ::
  "world \<Rightarrow> date \<Rightarrow> date \<Rightarrow> jmk_item list \<Rightarrow> jmk_state \<Rightarrow> (loop_end \<times> jmk_state) option" where
  "jmk_for_items w from_date to_date items s =
     for_items (\<lambda>item. parse_date_cz (unicode w) (item_date item))
       (\<lambda>item. log (boundary_message w (item_date item)) INFO)
       (jmk_process_item w) from_date to_date items s"

text \<open>
  The \<open>while\<close> loop of \<open>main\<close>. It has no bound of its own (the site decides when a page is
  empty or old), so the model counts the pages it may still load: with none left the
  result is \<open>None\<close>. The loop ends normally (\<open>None\<close> as the exception) or by an exception
  that nothing catches.
  \<^verbatim>\<open>
  page = 1
  finished = False
  while not finished:
      log(f"Nacitam stranku {page}...")
      html = scraper.get_list_page(page)
      if not html:
          log("Chyba nacitani stranky, koncim.", "ERROR")
          break
      items = scraper.parse_list_page(html)
      if not items:
          log("Zadne polozky na strance, koncim.")
          break
      log(f"Nalezeno {len(items)} polozek")
      stats["pages_processed"] += 1
      for item in items: ...
      if not finished:
          page += 1
          random_pause(PAUSE_MIN, PAUSE_MAX)
  \<close>
\<close>

fun jmk_pages ::
  "world \<Rightarrow> date \<Rightarrow> date \<Rightarrow> nat \<Rightarrow> nat \<Rightarrow> jmk_state \<Rightarrow> (exn option \<times> jmk_state) option" where
  "jmk_pages w from_date to_date 0 page s = None"
| "jmk_pages w from_date to_date (Suc fuel) page s =
     (case jmk_get_list_page w page (log (ascii ''Nacitam stranku '' @ str_nat page @ ascii ''...'') INFO s) of
        (Inl e, s) \<Rightarrow> Some (Some e, s)
      | (Inr html, s) \<Rightarrow>
          if \<not> truthy html
          then Some (None, log (ascii ''Chyba nacitani stranky, koncim.'') ERROR s)
          else (case jmk_parse_list_page w (the html) of
                  Inl e \<Rightarrow> Some (Some e, s)
                | Inr items \<Rightarrow>
                    if items = []
                    then Some (None, log (ascii ''Zadne polozky na strance, koncim.'') INFO s)
                    else (case jmk_for_items w from_date to_date items
                                 ((log (ascii ''Nalezeno '' @ str_nat (length items) @ ascii '' polozek'') INFO s)
                                    \<lparr>pages_processed := pages_processed s + 1\<rparr>) of
                            None \<Rightarrow> None
                          | Some (Uncaught e, s) \<Rightarrow> Some (Some e, s)
                          | Some (Boundary, s) \<Rightarrow> Some (None, s)
                          | Some (Exhausted, s) \<Rightarrow>
                              jmk_pages w from_date to_date fuel (page + 1)
                                (random_pause PAUSE_MIN PAUSE_MAX s))))"

declare jmk_pages.simps [simp del]

text \<open>
  \<^verbatim>\<open>
  def main():
      init_logging()
      from_date = datetime.strptime(FROM_DATE, "%Y-%m-%d")
      to_date = datetime.strptime(TO_DATE, "%Y-%m-%d")
      log("=== Stahovani z uredni desky JMK ===")
      log(f"Datum: {FROM_DATE}")
      SAVE_DIR.mkdir(parents=True, exist_ok=True)
      log(f"Lokalni slozka: {SAVE_DIR}")
      ...
  \<close>
  The run starts with nothing logged, no error and the files that \<open>SAVE_DIR\<close> holds already.
\<close>

definition initial_state :: "str set \<Rightarrow> run_state" where
  "initial_state existing =
     \<lparr>LOG_LINES = [], HAS_ERROR = False, pauses = [], clock = 0, saved = existing,
      pages_processed = 0, items_processed = 0, files_downloaded = 0, files_uploaded = 0,
      files_failed = 0, statements = []\<rparr>"

definition jmk_initial_state :: "str set \<Rightarrow> jmk_state" where
  "jmk_initial_state existing =
     run_state.extend (initial_state existing) \<lparr>viewstate = [], viewstate_generator = []\<rparr>"

definition jmk_main :: "world \<Rightarrow> nat \<Rightarrow> str set \<Rightarrow> (ending \<times> jmk_state) option" where
  "jmk_main w fuel existing =
     (let s = jmk_initial_state existing
      in case strptime_Ymd (unicode w) (FROM_DATE w) of
           Inl e \<Rightarrow> Some (Traceback e, s)
         | Inr from_date \<Rightarrow>
             (case strptime_Ymd (unicode w) (TO_DATE w) of
                Inl e \<Rightarrow> Some (Traceback e, s)
              | Inr to_date \<Rightarrow>
                  (let s = log (ascii ''=== Stahovani z uredni desky JMK ==='') INFO s;
                       s = log (ascii ''Datum: '' @ FROM_DATE w) INFO s;
                       s = log (ascii ''Lokalni slozka: '' @ SAVE_DIR w) INFO s
                   in case jmk_pages w from_date to_date fuel 1 s of
                        None \<Rightarrow> None
                      | Some (Some e, s) \<Rightarrow> Some (Traceback e, s)
                      | Some (None, s) \<Rightarrow>
                          (case finish_run w (ascii ''jihomoravsky_kraj'') (ascii ''jmk_import.sql'')
                                  (ascii ''jmk_logy.sql'') s of
                             (status, s) \<Rightarrow> Some (Exit status, s)))))"

section \<open>\<open>magistrat_mesta_brna.py\<close>: the scraper and \<open>main\<close>\<close>

definition BRNO_BASE_URL :: str where
  "BRNO_BASE_URL = ascii ''https://edeska.brno.cz/eDeska/''"

definition LIST_URL :: str where
  "LIST_URL = BRNO_BASE_URL @ ascii ''eDeskaAktualni.jsp''"

definition DOWNLOAD_URL :: str where
  "DOWNLOAD_URL = BRNO_BASE_URL @ ascii ''download.jsp?idPriloha=''"

text \<open>
  \<^verbatim>\<open>
  def get_list_page(self, first=0):
      if first == 0:
          html = self.get_page(LIST_URL)
          return html
      else:
          data = {"order": "vyveseno", "desc": "true",
                  "first": str(first), "count": str(PAGE_SIZE)}
          html = self.post_page(LIST_URL, data)
          return html
  \<close>
\<close>

definition brno_get_list_page ::
  "world \<Rightarrow> nat \<Rightarrow> 'a run_state_scheme \<Rightarrow> str option \<times> 'a run_state_scheme" where
  "brno_get_list_page w first s =
     (if first = 0 then brno_get_page w LIST_URL 0 s
      else brno_post_page w LIST_URL
             [(ascii ''order'', ascii ''vyveseno''), (ascii ''desc'', ascii ''true''),
              (ascii ''first'', str_nat first), (ascii ''count'', str_nat PAGE_SIZE)] 0 s)"

text \<open>
  \<^verbatim>\<open>
  def parse_total_count(self, html):
      """Zjisti celkovy pocet zaznamu z textu '1 - 25 z 663'."""
      match = re.search(r'(\d+)\s*-\s*\d+\s+z\s+(\d+)', html)
      if match:
          return int(match.group(2))
      return 0
  \<close>
\<close>

definition parse_total_count :: "world \<Rightarrow> str \<Rightarrow> nat" where
  "parse_total_count w html = (case re_total_count w html of Some n \<Rightarrow> n | None \<Rightarrow> 0)"

text \<open>
  \<^verbatim>\<open>
  def clean_html_text(text):
      if not text:
          return ""
      text = unescape(text)
      text = re.sub(r'<[^>]+>', ' ', text)
      text = re.sub(r'\s+', ' ', text)
      return text.strip()
  \<close>
\<close>

definition clean_html_text :: "world \<Rightarrow> str \<Rightarrow> str" where
  "clean_html_text w text =
     (if text = [] then [] else strip (re_sub_spaces w (re_sub_tags w (unescape w text))))"

record brno_item =
  detail_id :: nat
  oblast :: str
  kategorie :: str
  nazev :: str
  cislo_jednaci :: str
  puvodce :: str
  zverejnit_od :: str
  zverejnit_od_iso :: str
  zverejnit_do :: str
  zverejnit_do_iso :: str
  files :: "(str \<times> str) list"

text \<open>
  \<open>_parse_row\<close>: the cells that are found are cleaned, a row without the link of the title or
  without a date of publication gives \<open>None\<close>, and the two \<open>format_date_iso\<close> calls of the
  returned dictionary raise \<open>ValueError\<close> when the digits are no date.
  \<^verbatim>\<open>
  if not nazev_match:
      return None
  detail_id = int(nazev_match.group(1))
  nazev = clean_html_text(nazev_match.group(2))
  ...
  dates = re.findall(r'edeska-sloupec-zverejnit">\s*(\d{2}\.\d{2}\.\d{4})\s*</td>', row_html)
  zverejnit_od = dates[0] if len(dates) >= 1 else ""
  zverejnit_do = dates[1] if len(dates) >= 2 else ""
  ...
  if not zverejnit_od:
      return None
  return {
      "detail_id": detail_id, ...
      "zverejnit_od": zverejnit_od,
      "zverejnit_od_iso": format_date_iso(zverejnit_od),
      "zverejnit_do": zverejnit_do,
      "zverejnit_do_iso": format_date_iso(zverejnit_do) if zverejnit_do else "",
      "files": files,
  }
  \<close>
\<close>

definition cleaned :: "world \<Rightarrow> str option \<Rightarrow> str" where
  "cleaned w m = (case m of Some g \<Rightarrow> clean_html_text w g | None \<Rightarrow> [])"

definition brno_parse_row :: "world \<Rightarrow> brno_row \<Rightarrow> exn + brno_item option" where
  "brno_parse_row w row =
     (case nazev_match row of
        None \<Rightarrow> Inr None
      | Some (ident, title) \<Rightarrow>
          (let dates = zverejnit_dates row;
               first_date = (if length dates \<ge> 1 then dates ! 0 else []);
               second_date = (if length dates \<ge> 2 then dates ! 1 else []);
               fs = (case dokument_match row of
                       None \<Rightarrow> []
                     | Some links \<Rightarrow> map (\<lambda>(priloha_id, filename). (priloha_id, clean_html_text w filename)) links)
           in if first_date = [] then Inr None
              else (case brno_format_date_iso (unicode w) first_date of
                      Inl e \<Rightarrow> Inl e
                    | Inr od_iso \<Rightarrow>
                        (case (if second_date \<noteq> [] then brno_format_date_iso (unicode w) second_date else Inr []) of
                           Inl e \<Rightarrow> Inl e
                         | Inr do_iso \<Rightarrow>
                             Inr (Some \<lparr>detail_id = ident,
                                        oblast = cleaned w (oblast_match row),
                                        kategorie = cleaned w (kategorie_match row),
                                        nazev = clean_html_text w title,
                                        cislo_jednaci = cleaned w (znacka_match row),
                                        puvodce = cleaned w (puvodce_match row),
                                        zverejnit_od = first_date, zverejnit_od_iso = od_iso,
                                        zverejnit_do = second_date, zverejnit_do_iso = do_iso,
                                        files = fs\<rparr>)))))"

text \<open>
  \<^verbatim>\<open>
  def parse_list_page(self, html):
      items = []
      tbody_match = re.search(r'<tbody>(.*?)</tbody>', html, re.DOTALL)
      if not tbody_match:
          return items
      tbody = tbody_match.group(1)
      rows = re.findall(r'<tr>(.*?)</tr>', tbody, re.DOTALL)
      for row in rows:
          item = self._parse_row(row)
          if item:
              items.append(item)
      return items
  \<close>
\<close>

fun brno_parse_rows :: "world \<Rightarrow> brno_row list \<Rightarrow> brno_item list \<Rightarrow> exn + brno_item list" where
  "brno_parse_rows w [] items = Inr items"
| "brno_parse_rows w (row # rows) items =
     (case brno_parse_row w row of
        Inl e \<Rightarrow> Inl e
      | Inr None \<Rightarrow> brno_parse_rows w rows items
      | Inr (Some item) \<Rightarrow> brno_parse_rows w rows (items @ [item]))"

definition brno_parse_list_page :: "world \<Rightarrow> str \<Rightarrow> exn + brno_item list" where
  "brno_parse_list_page w html =
     (case re_tbody w html of
        None \<Rightarrow> Inr []
      | Some tbody \<Rightarrow> brno_parse_rows w (re_brno_rows w tbody) [])"

text \<open>
  The body of the loop over the files of an item, as in \<open>edeska_jmk.py\<close> but for
  \<^verbatim>\<open>
  new_name = f"{item['zverejnit_od_iso']}_{sanitized_name}"
  file_url = DOWNLOAD_URL + file_info["priloha_id"]
  \<close>
  and the ten arguments of \<open>add_file\<close>.
\<close>

definition brno_process_file ::
  "world \<Rightarrow> brno_item \<Rightarrow> str \<times> str \<Rightarrow> run_state \<Rightarrow> (exn option \<times> run_state) option" where
  "brno_process_file w item file_info s =
     (let original_name = snd file_info;
          sanitized_name = sanitize_filename (unicode w) original_name;
          new_name = zverejnit_od_iso item @ ascii ''_'' @ sanitized_name
      in case get_available_filename (save_dir w (saved s)) new_name of
           None \<Rightarrow> None
         | Some (Inl e) \<Rightarrow> Some (Some e, s)
         | Some (Inr final_name) \<Rightarrow>
             (let s = random_pause PAUSE_MIN PAUSE_MAX s;
                  file_url = DOWNLOAD_URL @ fst file_info
              in Some (None, after_download w (ascii ''  '') original_name final_name
                               [str_nat (detail_id item), oblast item, kategorie item, nazev item,
                                cislo_jednaci item, puvodce item, zverejnit_od_iso item,
                                zverejnit_do_iso item, final_name,
                                zverejnit_od_iso item @ ascii '' 00:00:00'']
                               (brno_download_file w file_url final_name 0 s))))"

text \<open>
  \<^verbatim>\<open>
  log(f"-> [{item['detail_id']}] {item['nazev']} ({item['zverejnit_od']})")
  stats["items_processed"] += 1
  if not item["files"]:
      log("  (zadne soubory)")
      continue
  for file_info in item["files"]: ...
  \<close>
\<close>

definition brno_process_item ::
  "world \<Rightarrow> brno_item \<Rightarrow> run_state \<Rightarrow> (exn option \<times> run_state) option" where
  "brno_process_item w item s =
     (let s = log (ascii ''-> ['' @ str_nat (detail_id item) @ ascii ''] '' @ nazev item @
                   ascii '' ('' @ zverejnit_od item @ ascii '')'') INFO s;
          s = s\<lparr>items_processed := items_processed s + 1\<rparr>
      in if files item = []
         then Some (None, log (ascii ''  (zadne soubory)'') INFO s)
         else for_each (brno_process_file w item) (files item) s)"

definition brno_for_items ::
  "world \<Rightarrow> date \<Rightarrow> date \<Rightarrow> brno_item list \<Rightarrow> run_state \<Rightarrow> (loop_end \<times> run_state) option" where
  "brno_for_items w from_date to_date items s =
     for_items (\<lambda>item. brno_parse_date_cz (unicode w) (zverejnit_od item))
       (\<lambda>item. log (boundary_message w (zverejnit_od item)) INFO)
       (brno_process_item w) from_date to_date items s"

text \<open>
  The \<open>while\<close> loop of \<open>main\<close>, with the pages it may still load as in \<open>jmk_pages\<close>:
  \<^verbatim>\<open>
  first = 0
  total_count = 0
  finished = False
  while not finished:
      log(f"Nacitam stranku (offset {first})...")
      html = scraper.get_list_page(first)
      if not html:
          log("Chyba nacitani stranky, koncim.", "ERROR")
          break
      # Zjisti celkovy pocet pri prvnim nacteni
      if first == 0:
          total_count = scraper.parse_total_count(html)
          log(f"Celkovy pocet zaznamu na desce: {total_count}")
      items = scraper.parse_list_page(html)
      if not items:
          log("Zadne polozky na strance, koncim.")
          break
      log(f"Nalezeno {len(items)} polozek na strance")
      stats["pages_processed"] += 1
      for item in items: ...
      if not finished:
          first += PAGE_SIZE
          if first >= total_count:
              log("Dosazeno konce seznamu.")
              break
          random_pause(PAUSE_MIN, PAUSE_MAX)
  \<close>
\<close>

fun brno_pages ::
  "world \<Rightarrow> date \<Rightarrow> date \<Rightarrow> nat \<Rightarrow> nat \<Rightarrow> nat \<Rightarrow> run_state \<Rightarrow> (exn option \<times> run_state) option" where
  "brno_pages w from_date to_date 0 first total_count s = None"
| "brno_pages w from_date to_date (Suc fuel) first total_count s =
     (case brno_get_list_page w first
             (log (ascii ''Nacitam stranku (offset '' @ str_nat first @ ascii '')...'') INFO s) of
        (html, s) \<Rightarrow>
          if \<not> truthy html
          then Some (None, log (ascii ''Chyba nacitani stranky, koncim.'') ERROR s)
          else (let total_count = (if first = 0 then parse_total_count w (the html) else total_count);
                    s = (if first = 0
                         then log (ascii ''Celkovy pocet zaznamu na desce: '' @ str_nat total_count) INFO s
                         else s)
                in case brno_parse_list_page w (the html) of
                     Inl e \<Rightarrow> Some (Some e, s)
                   | Inr items \<Rightarrow>
                       if items = []
                       then Some (None, log (ascii ''Zadne polozky na strance, koncim.'') INFO s)
                       else (case brno_for_items w from_date to_date items
                                    ((log (ascii ''Nalezeno '' @ str_nat (length items) @
                                           ascii '' polozek na strance'') INFO s)
                                       \<lparr>pages_processed := pages_processed s + 1\<rparr>) of
                               None \<Rightarrow> None
                             | Some (Uncaught e, s) \<Rightarrow> Some (Some e, s)
                             | Some (Boundary, s) \<Rightarrow> Some (None, s)
                             | Some (Exhausted, s) \<Rightarrow>
                                 if first + PAGE_SIZE \<ge> total_count
                                 then Some (None, log (ascii ''Dosazeno konce seznamu.'') INFO s)
                                 else brno_pages w from_date to_date fuel (first + PAGE_SIZE) total_count
                                        (random_pause PAUSE_MIN PAUSE_MAX s))))"

declare brno_pages.simps [simp del]

text \<open>
  \<^verbatim>\<open>
  def main():
      init_logging()
      from_date = datetime.strptime(FROM_DATE, "%Y-%m-%d")
      to_date = datetime.strptime(TO_DATE, "%Y-%m-%d")
      log("=== Stahovani z uredni desky Magistratu mesta Brna ===")
      log(f"Datum od: {FROM_DATE}, do: {TO_DATE}")
      SAVE_DIR.mkdir(parents=True, exist_ok=True)
      log(f"Lokalni slozka: {SAVE_DIR}")
      ...
  \<close>
\<close>

definition brno_main :: "world \<Rightarrow> nat \<Rightarrow> str set \<Rightarrow> (ending \<times> run_state) option" where
  "brno_main w fuel existing =
     (let s = initial_state existing
      in case strptime_Ymd (unicode w) (FROM_DATE w) of
           Inl e \<Rightarrow> Some (Traceback e, s)
         | Inr from_date \<Rightarrow>
             (case strptime_Ymd (unicode w) (TO_DATE w) of
                Inl e \<Rightarrow> Some (Traceback e, s)
              | Inr to_date \<Rightarrow>
                  (let s = log (ascii ''=== Stahovani z uredni desky Magistratu mesta Brna ==='') INFO s;
                       s = log (ascii ''Datum od: '' @ FROM_DATE w @ ascii '', do: '' @ TO_DATE w) INFO s;
                       s = log (ascii ''Lokalni slozka: '' @ SAVE_DIR w) INFO s
                   in case brno_pages w from_date to_date fuel 0 0 s of
                        None \<Rightarrow> None
                      | Some (Some e, s) \<Rightarrow> Some (Traceback e, s)
                      | Some (None, s) \<Rightarrow>
                          (case finish_run w (ascii ''magistrat_mesta_brna'')
                                  (ascii ''soubory_z_magistratu_mesta_brna.sql'')
                                  (ascii ''soubory_z_magistratu_mesta_brna_logy.sql'') s of
                             (status, s) \<Rightarrow> Some (Exit status, s)))))"

section \<open>The publication date of a notice\<close>

text \<open>
  For the statements about the traversal: the date that \<open>main\<close> reads from an item of a
  parsed page, \<open>parse_date_cz(item["date"])\<close> in \<open>edeska_jmk.py\<close> and
  \<open>parse_date_cz(item["zverejnit_od"])\<close> in \<open>magistrat_mesta_brna.py\<close>. The items that
  \<open>parse_list_page\<close> returns have such a date (lemmas \<open>jmk_parsed_dates\<close> and
  \<open>brno_parsed_dates\<close>).
\<close>

definition jmk_date :: "world \<Rightarrow> jmk_item \<Rightarrow> date" where
  "jmk_date w item = (case parse_date_cz (unicode w) (item_date item) of Inr d \<Rightarrow> d | Inl e \<Rightarrow> (0, 0, 0))"

definition brno_date :: "world \<Rightarrow> brno_item \<Rightarrow> date" where
  "brno_date w item =
     (case brno_parse_date_cz (unicode w) (zverejnit_od item) of Inr d \<Rightarrow> d | Inl e \<Rightarrow> (0, 0, 0))"

section \<open>Concrete worlds\<close>

text \<open>
  Worlds on which the functions are evaluated below. In \<open>offline_world\<close> every request
  fails, the regular expressions find nothing, FTP is not configured, \<open>urljoin\<close> appends the
  reference to the base (as it does for the relative references used below) and \<open>exists\<close>
  raises for a name with a component of more than \<open>NAME_MAX\<close> bytes; the others change
  what they name.
\<close>

definition offline_world :: world where
  "offline_world =
     \<lparr> http_get = (\<lambda>n url. Http_exception (ascii ''connection refused'')),
       http_post = (\<lambda>n url data. Http_exception (ascii ''connection refused'')),
       ftp_store = (\<lambda>n remote_path remote_filename. Some (ascii ''connection refused'')),
       unicode = ucd_excerpt,
       upper = (\<lambda>c. [if cp CHR ''a'' \<le> c \<and> c \<le> cp CHR ''z'' then c - 32 else c]),
       urljoin = (\<lambda>base url. Inr (base @ url)),
       exists_error = (\<lambda>name. if name_too_long name then Some OSError else None),
       unescape = (\<lambda>t. t),
       re_sub_tags = (\<lambda>t. t),
       re_sub_spaces = (\<lambda>t. t),
       re_viewstate = (\<lambda>html. None),
       re_viewstate_generator = (\<lambda>html. None),
       re_jmk_rows = (\<lambda>html. []),
       re_jmk_files = (\<lambda>html. []),
       re_total_count = (\<lambda>html. None),
       re_tbody = (\<lambda>html. None),
       re_brno_rows = (\<lambda>tbody. []),
       FTP_HOST = [], FTP_USER = [], FTP_PASS = [], FTP_PATH = [], FTP_LOGS_PATH = [],
       FROM_DATE = ascii ''2024-05-02'', TO_DATE = ascii ''2024-05-02'',
       SAVE_DIR = ascii ''stazene_soubory'',
       SQL_IMPORT_FILE = ascii ''import.sql'',
       SQL_LOGY_FILE = ascii ''logy.sql'',
       LOG_FILE_name = ascii ''edeska.log'' \<rparr>"

definition html_response :: "str \<Rightarrow> http_outcome" where
  "html_response body =
     Http_response \<lparr> status_code = 200, content_type = Some (ascii ''text/html; charset=utf-8''),
                     content_disposition = False, resp_text = body, resp_content = body \<rparr>"

text \<open>A server that answers every request with status 200 and a maintenance page.\<close>

definition maintenance_world :: world where
  "maintenance_world =
     offline_world \<lparr> http_get := (\<lambda>n url. html_response (ascii ''<h1>Service Unavailable</h1>'')) \<rparr>"

text \<open>A server that answers every download with status 200 and the page of a withdrawn document.\<close>

definition withdrawn_world :: world where
  "withdrawn_world =
     offline_world \<lparr> http_get := (\<lambda>n url. html_response (ascii ''<p>Dokument neni k dispozici</p>'')) \<rparr>"

text \<open>
  A list page of two rows; the digits of the first row's date are no date of the calendar.
\<close>

definition february_rows :: "jmk_row list" where
  "february_rows =
     [\<lparr> date_match = Some (ascii ''31.02.2024''),
         link_match = Some (ascii ''DetailyUredniDeska.aspx?id=1'', ascii ''Vyhlaska'') \<rparr>,
      \<lparr> date_match = Some (ascii ''02.05.2024''),
         link_match = Some (ascii ''DetailyUredniDeska.aspx?id=2'', ascii ''Oznameni'') \<rparr>]"

definition february_world :: world where
  "february_world =
     offline_world \<lparr> http_get := (\<lambda>n url. html_response (ascii ''<table>seznam</table>'')),
                     re_jmk_rows := (\<lambda>html. february_rows) \<rparr>"

text \<open>
  The scenario of three notices dated 2024-05-03, 2024-05-02 and 2024-05-01 on one page, with
  \<open>FROM_DATE = TO_DATE = 2024-05-02\<close> (the bounds of \<open>offline_world\<close>); no notice has a file.
  The server answers every GET with the same page.
\<close>

definition may_page :: str where
  "may_page = ascii ''<html>uredni deska</html>''"

definition may_rows :: "jmk_row list" where
  "may_rows =
     [\<lparr> date_match = Some (ascii ''03.05.2024''),
         link_match = Some (ascii ''DetailyUredniDeska.aspx?id=3'', ascii ''Vyhlaska'') \<rparr>,
      \<lparr> date_match = Some (ascii ''02.05.2024''),
         link_match = Some (ascii ''DetailyUredniDeska.aspx?id=2'', ascii ''Oznameni'') \<rparr>,
      \<lparr> date_match = Some (ascii ''01.05.2024''),
         link_match = Some (ascii ''DetailyUredniDeska.aspx?id=1'', ascii ''Rozhodnuti'') \<rparr>]"

definition newer_item :: jmk_item where
  "newer_item =
     \<lparr> item_date = ascii ''03.05.2024'', item_date_iso = ascii ''2024-05-03'',
       item_detail_url = ascii ''DetailyUredniDeska.aspx?id=3'', item_name = ascii ''Vyhlaska'' \<rparr>"

definition inside_item :: jmk_item where
  "inside_item =
     \<lparr> item_date = ascii ''02.05.2024'', item_date_iso = ascii ''2024-05-02'',
       item_detail_url = ascii ''DetailyUredniDeska.aspx?id=2'', item_name = ascii ''Oznameni'' \<rparr>"

definition older_item :: jmk_item where
  "older_item =
     \<lparr> item_date = ascii ''01.05.2024'', item_date_iso = ascii ''2024-05-01'',
       item_detail_url = ascii ''DetailyUredniDeska.aspx?id=1'', item_name = ascii ''Rozhodnuti'' \<rparr>"

definition may_items :: "jmk_item list" where
  "may_items = [newer_item, inside_item, older_item]"

definition may_world :: world where
  "may_world =
     offline_world \<lparr> http_get := (\<lambda>n url. html_response may_page),
                     re_jmk_rows := (\<lambda>html. may_rows) \<rparr>"

definition brno_row_of :: "nat \<Rightarrow> string \<Rightarrow> brno_row" where
  "brno_row_of n day =
     \<lparr> oblast_match = None, kategorie_match = None,
       nazev_match = Some (n, ascii ''Vyhlaska''),
       znacka_match = None, puvodce_match = None,
       zverejnit_dates = [ascii day], dokument_match = None \<rparr>"

definition brno_item_of :: "nat \<Rightarrow> string \<Rightarrow> string \<Rightarrow> brno_item" where
  "brno_item_of n day day_iso =
     \<lparr> detail_id = n, oblast = [], kategorie = [], nazev = ascii ''Vyhlaska'',
       cislo_jednaci = [], puvodce = [],
       zverejnit_od = ascii day, zverejnit_od_iso = ascii day_iso,
       zverejnit_do = [], zverejnit_do_iso = [], files = [] \<rparr>"

definition brno_may_world :: world where
  "brno_may_world =
     offline_world \<lparr> http_get := (\<lambda>n url. html_response may_page),
                     re_total_count := (\<lambda>html. Some 3),
                     re_tbody := (\<lambda>html. Some html),
                     re_brno_rows := (\<lambda>tbody. [brno_row_of 103 ''03.05.2024'',
                                                 brno_row_of 102 ''02.05.2024'',
                                                 brno_row_of 101 ''01.05.2024'']) \<rparr>"

definition brno_may_items :: "brno_item list" where
  "brno_may_items =
     [brno_item_of 103 ''03.05.2024'' ''2024-05-03'', brno_item_of 102 ''02.05.2024'' ''2024-05-02'',
      brno_item_of 101 ''01.05.2024'' ''2024-05-01'']"

text \<open>A row in which the search for the date of publication finds nothing.\<close>

definition undated_row :: jmk_row where
  "undated_row =
     \<lparr> date_match = None,
       link_match = Some (ascii ''DetailyUredniDeska.aspx?id=7'', ascii ''Bez data'') \<rparr>"

text \<open>
  A board of 26 notices, all published on 2024-05-02 and none with a file: the first page
  (the GET) shows 25 of them, the page at offset 25 (the POST with \<open>first=25\<close>) shows the
  last one, every other page is empty. In \<open>uncounted_world\<close> the text \<open>1 - 25 z 26\<close> is not
  found on the first page; in \<open>counted_world\<close> it is. Nothing else differs.
\<close>

definition first_page :: str where
  "first_page = ascii ''<tbody>strana 1</tbody>''"

definition second_page :: str where
  "second_page = ascii ''<tbody>strana 2</tbody>''"

definition empty_page :: str where
  "empty_page = ascii ''<tbody></tbody>''"

definition uncounted_world :: world where
  "uncounted_world =
     offline_world
       \<lparr> http_get := (\<lambda>n url. html_response first_page),
         http_post := (\<lambda>n url data.
                         if (ascii ''first'', ascii ''25'') \<in> set data
                         then html_response second_page else html_response empty_page),
         re_total_count := (\<lambda>html. None),
         re_tbody := (\<lambda>html. Some html),
         re_brno_rows := (\<lambda>tbody.
                            if tbody = first_page then replicate 25 (brno_row_of 102 ''02.05.2024'')
                            else if tbody = second_page then [brno_row_of 102 ''02.05.2024'']
                            else []) \<rparr>"

definition counted_world :: world where
  "counted_world = uncounted_world \<lparr> re_total_count := (\<lambda>html. Some 26) \<rparr>"

text \<open>
  A board whose first page holds 25 notices published on 2024-05-03, after the bounds, and
  whose page at offset 25 holds one notice published on 2024-05-02, within them. In
  \<open>newer_first_world\<close> the text \<open>1 - 25 z 26\<close> is not found on the first page; in
  \<open>newer_first_counted_world\<close> it is. Nothing else differs.
\<close>

definition newer_first_world :: world where
  "newer_first_world =
     uncounted_world
       \<lparr> re_brno_rows := (\<lambda>tbody.
                            if tbody = first_page then replicate 25 (brno_row_of 103 ''03.05.2024'')
                            else if tbody = second_page then [brno_row_of 102 ''02.05.2024'']
                            else []) \<rparr>"

definition newer_first_counted_world :: world where
  "newer_first_counted_world = newer_first_world \<lparr> re_total_count := (\<lambda>html. Some 26) \<rparr>"

text \<open>
  A board with one notice, published on 2024-05-02, whose attachment is named with 241
  letters \<open>a\<close> and \<open>.pdf\<close>.
\<close>

definition long_name :: str where
  "long_name = replicate 241 (cp CHR ''a'') @ ascii ''.pdf''"

definition long_name_world :: world where
  "long_name_world =
     uncounted_world
       \<lparr> re_brno_rows := (\<lambda>tbody.
                            if tbody = first_page
                            then [(brno_row_of 102 ''02.05.2024'')
                                    \<lparr> dokument_match := Some [(ascii ''7'', long_name)] \<rparr>]
                            else []) \<rparr>"

definition long_item :: brno_item where
  "long_item =
     (brno_item_of 102 ''02.05.2024'' ''2024-05-02'')\<lparr> files := [(ascii ''7'', long_name)] \<rparr>"

section \<open>ERROR lines\<close>

text \<open>
  An ERROR-level line occurred during the run: one of the lines that \<open>log\<close> has appended to
  \<open>LOG_LINES\<close> has the level \<open>ERROR\<close>. The flag \<open>HAS_ERROR\<close> is in step with the log when it
  is set exactly in that case.
\<close>

definition error_logged :: "'a run_state_scheme \<Rightarrow> bool" where
  "error_logged s = (ERROR \<in> set (map fst (LOG_LINES s)))"

definition flag_in_step :: "'a run_state_scheme \<Rightarrow> bool" where
  "flag_in_step s = (HAS_ERROR s = error_logged s)"

chapter \<open>Properties\<close>

section \<open>Decimal numerals are injective\<close>

lemma str_nat_nonempty: "str_nat n \<noteq> []"
  by (subst str_nat.simps) simp

lemma str_nat_inj: "str_nat m = str_nat n \<Longrightarrow> m = n"
proof (induction m arbitrary: n rule: str_nat.induct)
  case (1 m)
  show ?case
  proof (cases "m < 10")
    case small_m: True
    show ?thesis
    proof (cases "n < 10")
      case True
      with small_m "1.prems" show ?thesis
        by (simp add: str_nat.simps [of m] str_nat.simps [of n])
    next
      case False
      with small_m "1.prems" str_nat_nonempty [of "n div 10"] show ?thesis
        by (simp add: str_nat.simps [of m] str_nat.simps [of n] Cons_eq_append_conv)
    qed
  next
    case big_m: False
    show ?thesis
    proof (cases "n < 10")
      case True
      with big_m "1.prems" str_nat_nonempty [of "m div 10"] show ?thesis
        by (simp add: str_nat.simps [of m] str_nat.simps [of n] append_eq_Cons_conv)
    next
      case False
      with big_m "1.prems" have "str_nat (m div 10) = str_nat (n div 10)" and "m mod 10 = n mod 10"
        by (simp_all add: str_nat.simps [of m] str_nat.simps [of n])
      with "1.IH" big_m have "m div 10 = n div 10" by simp
      with \<open>m mod 10 = n mod 10\<close> show ?thesis
        by (metis div_mult_mod_eq)
    qed
  qed
qed

lemma numbered_inj: "inj (numbered base ext)"
  by (rule injI) (simp add: numbered_def str_nat_inj)

section \<open>The filename resolver\<close>

text \<open>
  The loop stops at the first candidate for which \<open>exists\<close> does not return \<open>True\<close>: it
  returns the candidate when \<open>exists\<close> returns \<open>False\<close>, and it raises what \<open>exists\<close> raises.
\<close>

lemma available_loop_stop:
  "directory new_name \<noteq> Inr True
   \<Longrightarrow> available_loop directory base ext new_name c
         = Some (case directory new_name of Inl e \<Rightarrow> Inl e | Inr found \<Rightarrow> Inr new_name)"
  by (subst available_loop.simps) (auto split: sum.splits)

lemma available_loop_found:
  assumes "directory new_name = Inr True" and "c \<le> k"
    and "\<forall>j. c \<le> j \<and> j < k \<longrightarrow> directory (numbered base ext j) = Inr True"
    and "directory (numbered base ext k) \<noteq> Inr True"
  shows "available_loop directory base ext new_name c
           = Some (case directory (numbered base ext k) of
                     Inl e \<Rightarrow> Inl e | Inr found \<Rightarrow> Inr (numbered base ext k))"
  using assms
proof (induction "k - c" arbitrary: c new_name)
  case 0
  then have "c = k" by simp
  with 0 show ?case
    by (subst available_loop.simps) (simp add: available_loop_stop)
next
  case (Suc d)
  then have "directory (numbered base ext c) = Inr True" and "Suc c \<le> k" and "d = k - Suc c"
    by auto
  moreover from Suc.prems
  have "\<forall>j. Suc c \<le> j \<and> j < k \<longrightarrow> directory (numbered base ext j) = Inr True" by simp
  ultimately have "available_loop directory base ext (numbered base ext c) (Suc c)
                     = Some (case directory (numbered base ext k) of
                               Inl e \<Rightarrow> Inl e | Inr found \<Rightarrow> Inr (numbered base ext k))"
    using Suc.hyps(1) Suc.prems(4) by blast
  with Suc.prems(1) show ?case
    by (subst available_loop.simps) simp
qed

lemma get_available_filename_stop:
  "directory f \<noteq> Inr True
   \<Longrightarrow> get_available_filename directory f
         = Some (case directory f of Inl e \<Rightarrow> Inl e | Inr found \<Rightarrow> Inr f)"
  by (simp add: get_available_filename_def split_beta available_loop_stop)

lemma get_available_filename_found:
  assumes "directory f = Inr True" and "1 \<le> k"
    and "\<forall>j. 1 \<le> j \<and> j < k
           \<longrightarrow> directory (numbered (fst (split_ext f)) (snd (split_ext f)) j) = Inr True"
    and "directory (numbered (fst (split_ext f)) (snd (split_ext f)) k) \<noteq> Inr True"
  shows "get_available_filename directory f
           = Some (case directory (numbered (fst (split_ext f)) (snd (split_ext f)) k) of
                     Inl e \<Rightarrow> Inl e
                   | Inr found \<Rightarrow> Inr (numbered (fst (split_ext f)) (snd (split_ext f)) k))"
  using available_loop_found [OF assms]
  by (simp add: get_available_filename_def split_beta)

text \<open>
  When finitely many names exist, the loop ends: the resolver returns a name or raises.
\<close>

lemma other_counter_exists:
  assumes "finite {n. directory n = Inr True}"
  shows "\<exists>k\<ge>c. directory (numbered base ext k) \<noteq> Inr True"
proof (rule ccontr)
  assume "\<not> ?thesis"
  then have "numbered base ext ` {c..} \<subseteq> {n. directory n = Inr True}" by auto
  with assms have "finite (numbered base ext ` {c..})" by (rule rev_finite_subset)
  then have "finite {c..}"
    by (rule finite_imageD) (rule inj_on_subset [OF numbered_inj], simp)
  then show False by (simp add: infinite_Ici)
qed

lemma get_available_filename_ends:
  assumes "finite {n. directory n = Inr True}"
  shows "\<exists>r. get_available_filename directory f = Some r"
proof (cases "directory f = Inr True")
  case False
  then show ?thesis by (simp add: get_available_filename_stop)
next
  case True
  let ?b = "fst (split_ext f)" and ?e = "snd (split_ext f)"
  let ?P = "\<lambda>k. 1 \<le> k \<and> directory (numbered ?b ?e k) \<noteq> Inr True"
  from other_counter_exists [OF assms, of 1 ?b ?e] obtain k0 where "?P k0" by blast
  then have least: "?P (LEAST k. ?P k)" by (rule LeastI)
  have below: "\<forall>j. 1 \<le> j \<and> j < (LEAST k. ?P k) \<longrightarrow> directory (numbered ?b ?e j) = Inr True"
    using not_less_Least [of _ ?P] by blast
  from get_available_filename_found [OF True _ below] least show ?thesis by simp
qed

lemma available_loop_returns:
  assumes "available_loop directory base ext new_name c = Some y"
  shows "\<forall>name. y = Inr name \<longrightarrow> directory name = Inr False"
  by (rule available_loop.raw_induct
        [where P = "\<lambda>d b e n c y. \<forall>name. y = Inr name \<longrightarrow> d name = Inr False", OF _ assms])
     (auto split: sum.splits if_splits)

lemma get_available_filename_returns:
  assumes "get_available_filename directory f = Some (Inr name)"
  shows "directory name = Inr False"
  using assms available_loop_returns [of directory "fst (split_ext f)" "snd (split_ext f)" f 1 "Inr name"]
  by (simp add: get_available_filename_def split_beta)

lemma split_ext_dot:
  assumes "cp CHR ''.'' \<notin> set e"
  shows "split_ext (b @ cp CHR ''.'' # e) = (b, cp CHR ''.'' # e)"
proof -
  from assms have all: "\<forall>x \<in> set (rev e). x \<noteq> cp CHR ''.''" by auto
  have "takeWhile (\<lambda>c. c \<noteq> cp CHR ''.'') (rev e @ cp CHR ''.'' # rev b) = rev e"
    using all by (subst takeWhile_append2) auto
  moreover have "dropWhile (\<lambda>c. c \<noteq> cp CHR ''.'') (rev e @ cp CHR ''.'' # rev b) = cp CHR ''.'' # rev b"
    using all by (subst dropWhile_append2) auto
  ultimately show ?thesis by (simp add: split_ext_def rsplit_dot_def)
qed

lemma split_ext_nodot:
  "cp CHR ''.'' \<notin> set f \<Longrightarrow> split_ext f = (f, [])"
  by (simp add: split_ext_def)

lemma resolver_example:
  "get_available_filename (listing {ascii ''2024-05-01_doc.pdf''}) (ascii ''2024-05-01_doc.pdf'')
     = Some (Inr (ascii ''2024-05-01_doc_1.pdf''))"
  by code_simp

lemma split_on_plain: "sep \<notin> set name \<Longrightarrow> split_on sep name = [name]"
  by (induction name) simp_all

lemma listing_plain:
  "cp CHR ''/'' \<notin> set name
   \<Longrightarrow> listing present name = (if NAME_MAX < utf8_length name then Inl OSError else Inr (name \<in> present))"
  by (simp add: listing_def name_too_long_def split_on_plain)

lemma utf8_length_simps:
  "utf8_length [] = 0"
  "utf8_length (xs @ ys) = utf8_length xs + utf8_length ys"
  "c < 128 \<Longrightarrow> utf8_length (c # xs) = Suc (utf8_length xs)"
  "c < 128 \<Longrightarrow> utf8_length (replicate n c) = n"
  by (simp_all add: utf8_length_def sum_list_replicate)

lemma long_name_length:
  "utf8_length (ascii ''2024-05-02_'' @ replicate n (cp CHR ''a'') @ ascii ''.pdf'') = n + 15"
  by (simp add: utf8_length_simps ascii_def cp_def)

lemma long_name_plain:
  "cp CHR ''/'' \<notin> set (ascii ''2024-05-02_'' @ replicate n (cp CHR ''a'') @ ascii ''.pdf'')"
  by (simp add: ascii_def cp_def)

lemma long_name_split:
  "split_ext (ascii ''2024-05-02_'' @ replicate n (cp CHR ''a'') @ ascii ''.pdf'')
     = (ascii ''2024-05-02_'' @ replicate n (cp CHR ''a''), ascii ''.pdf'')"
proof -
  have "cp CHR ''.'' \<notin> set (ascii ''pdf'')" by (simp add: ascii_def cp_def)
  from split_ext_dot [OF this, of "ascii ''2024-05-02_'' @ replicate n (cp CHR ''a'')"]
  show ?thesis by (simp add: ascii_def)
qed

text \<open>
  A desired name of 256 bytes in an empty directory, and one of 254 bytes that exists:
  the resolver raises \<open>OSError\<close>.
\<close>

lemma long_name_raises:
  "utf8_length (ascii ''2024-05-02_'' @ replicate 241 (cp CHR ''a'') @ ascii ''.pdf'') = 256 \<and>
   get_available_filename (listing {})
       (ascii ''2024-05-02_'' @ replicate 241 (cp CHR ''a'') @ ascii ''.pdf'')
     = Some (Inl OSError) \<and>
   utf8_length (ascii ''2024-05-02_'' @ replicate 239 (cp CHR ''a'') @ ascii ''.pdf'') = 254 \<and>
   get_available_filename
       (listing {ascii ''2024-05-02_'' @ replicate 239 (cp CHR ''a'') @ ascii ''.pdf''})
       (ascii ''2024-05-02_'' @ replicate 239 (cp CHR ''a'') @ ascii ''.pdf'')
     = Some (Inl OSError)"
proof (intro conjI)
  let ?long = "ascii ''2024-05-02_'' @ replicate 241 (cp CHR ''a'') @ ascii ''.pdf''"
  let ?name = "ascii ''2024-05-02_'' @ replicate 239 (cp CHR ''a'') @ ascii ''.pdf''"
  show "utf8_length ?long = 256" and "utf8_length ?name = 254"
    by (simp_all add: long_name_length)
  have "listing {} ?long = Inl OSError"
    by (simp add: listing_plain [OF long_name_plain] NAME_MAX_def long_name_length)
  then show "get_available_filename (listing {}) ?long = Some (Inl OSError)"
    by (simp add: get_available_filename_stop)
  have present: "listing {?name} ?name = Inr True"
    by (simp add: listing_plain [OF long_name_plain] NAME_MAX_def long_name_length)
  have "utf8_length (numbered (ascii ''2024-05-02_'' @ replicate 239 (cp CHR ''a'')) (ascii ''.pdf'') 1)
          = 256"
    by (simp add: numbered_def str_nat.simps utf8_length_simps ascii_def cp_def)
  moreover have "cp CHR ''/'' \<notin> set (numbered (ascii ''2024-05-02_'' @ replicate 239 (cp CHR ''a''))
                                        (ascii ''.pdf'') 1)"
    by (simp add: numbered_def str_nat.simps ascii_def cp_def)
  ultimately have first: "listing {?name}
                      (numbered (ascii ''2024-05-02_'' @ replicate 239 (cp CHR ''a'')) (ascii ''.pdf'') 1)
                    = Inl OSError"
    by (simp add: listing_plain NAME_MAX_def)
  from get_available_filename_found [where directory = "listing {?name}" and f = ?name and k = 1]
    present first
  show "get_available_filename (listing {?name}) ?name = Some (Inl OSError)"
    by (simp add: long_name_split)
qed

text \<open>
  Claim C10. Only the text after the last dot is the extension. Let the desired name exist
  in the directory, and let \<open>k \<ge> 1\<close> be the first counter whose candidate does not exist,
  \<open>exists\<close> raising for no candidate up to it. When the desired name has the form \<open>b.e\<close>
  with no dot in \<open>e\<close>, the candidates are \<open>b_j.e\<close> and the result is \<open>b_k.e\<close>; when the
  desired name has no dot, the candidates are the name followed by \<open>_j\<close> and the result is
  the name followed by \<open>_k\<close>. A colliding \<open>a.tar.gz\<close> resolves to \<open>a.tar_1.gz\<close> (and not to
  \<open>a_1.tar.gz\<close>), a colliding \<open>README\<close> to \<open>README_1\<close>.
\<close>

theorem get_available_filename_last_dot:
  assumes "directory f = Inr True" and "1 \<le> k"
  shows "(cp CHR ''.'' \<notin> set e \<and> f = b @ cp CHR ''.'' # e \<and>
          (\<forall>j. 1 \<le> j \<and> j < k
             \<longrightarrow> directory (b @ ascii ''_'' @ str_nat j @ cp CHR ''.'' # e) = Inr True) \<and>
          directory (b @ ascii ''_'' @ str_nat k @ cp CHR ''.'' # e) = Inr False
          \<longrightarrow> get_available_filename directory f
                = Some (Inr (b @ ascii ''_'' @ str_nat k @ cp CHR ''.'' # e))) \<and>
         (cp CHR ''.'' \<notin> set f \<and>
          (\<forall>j. 1 \<le> j \<and> j < k \<longrightarrow> directory (f @ ascii ''_'' @ str_nat j) = Inr True) \<and>
          directory (f @ ascii ''_'' @ str_nat k) = Inr False
          \<longrightarrow> get_available_filename directory f = Some (Inr (f @ ascii ''_'' @ str_nat k))) \<and>
         get_available_filename (listing {ascii ''a.tar.gz''}) (ascii ''a.tar.gz'')
           = Some (Inr (ascii ''a.tar_1.gz'')) \<and>
         ascii ''a.tar_1.gz'' \<noteq> ascii ''a_1.tar.gz'' \<and>
         get_available_filename (listing {ascii ''README''}) (ascii ''README'')
           = Some (Inr (ascii ''README_1''))"
proof -
  have ex1: "get_available_filename (listing {ascii ''a.tar.gz''}) (ascii ''a.tar.gz'')
               = Some (Inr (ascii ''a.tar_1.gz''))"
    by code_simp
  have ex2: "ascii ''a.tar_1.gz'' \<noteq> ascii ''a_1.tar.gz''"
    by (simp add: ascii_def cp_def)
  have ex3: "get_available_filename (listing {ascii ''README''}) (ascii ''README'')
               = Some (Inr (ascii ''README_1''))"
    by code_simp
  have dotted: "get_available_filename directory f
                  = Some (Inr (b @ ascii ''_'' @ str_nat k @ cp CHR ''.'' # e))"
    if nd: "cp CHR ''.'' \<notin> set e" and f: "f = b @ cp CHR ''.'' # e"
      and taken: "\<forall>j. 1 \<le> j \<and> j < k
                    \<longrightarrow> directory (b @ ascii ''_'' @ str_nat j @ cp CHR ''.'' # e) = Inr True"
      and free: "directory (b @ ascii ''_'' @ str_nat k @ cp CHR ''.'' # e) = Inr False"
  proof -
    from split_ext_dot [OF nd, of b] f have split: "split_ext f = (b, cp CHR ''.'' # e)" by simp
    from get_available_filename_found [where directory = directory and f = f and k = k]
      assms taken free
    show ?thesis by (simp add: split numbered_def)
  qed
  have plain: "get_available_filename directory f = Some (Inr (f @ ascii ''_'' @ str_nat k))"
    if nd: "cp CHR ''.'' \<notin> set f"
      and taken: "\<forall>j. 1 \<le> j \<and> j < k \<longrightarrow> directory (f @ ascii ''_'' @ str_nat j) = Inr True"
      and free: "directory (f @ ascii ''_'' @ str_nat k) = Inr False"
  proof -
    from split_ext_nodot [OF nd] have split: "split_ext f = (f, [])" .
    from get_available_filename_found [where directory = directory and f = f and k = k]
      assms taken free
    show ?thesis by (simp add: split numbered_def)
  qed
  from dotted plain ex1 ex2 ex3 show ?thesis by blast
qed

theorem get_available_filename_last_dot_witness:
  "listing {ascii ''a.tar.gz'', ascii ''a.tar_1.gz'', ascii ''notes''} (ascii ''a.tar.gz'') = Inr True \<and>
   listing {ascii ''a.tar.gz'', ascii ''a.tar_1.gz'', ascii ''notes''} (ascii ''notes'') = Inr True \<and>
   get_available_filename (listing {ascii ''a.tar.gz'', ascii ''a.tar_1.gz'', ascii ''notes''})
       (ascii ''a.tar.gz'') = Some (Inr (ascii ''a.tar_2.gz'')) \<and>
   get_available_filename (listing {ascii ''a.tar.gz'', ascii ''a.tar_1.gz'', ascii ''notes''})
       (ascii ''notes'') = Some (Inr (ascii ''notes_1''))"
proof -
  let ?D = "listing {ascii ''a.tar.gz'', ascii ''a.tar_1.gz'', ascii ''notes''}"
  have in1: "?D (ascii ''a.tar.gz'') = Inr True" and in2: "?D (ascii ''notes'') = Inr True"
    by (simp_all add: listing_plain NAME_MAX_def utf8_length_def ascii_def cp_def)
  have nd1: "cp CHR ''.'' \<notin> set (ascii ''gz'')" and nd2: "cp CHR ''.'' \<notin> set (ascii ''notes'')"
    by (simp_all add: ascii_def cp_def)
  have shape: "ascii ''a.tar.gz'' = ascii ''a.tar'' @ cp CHR ''.'' # ascii ''gz''"
    by (simp add: ascii_def)
  have taken: "\<forall>j. 1 \<le> j \<and> j < 2
                 \<longrightarrow> ?D (ascii ''a.tar'' @ ascii ''_'' @ str_nat j @ cp CHR ''.'' # ascii ''gz'') = Inr True"
  proof (intro allI impI)
    fix j :: nat
    assume "1 \<le> j \<and> j < 2"
    then have "j = 1" by simp
    then show "?D (ascii ''a.tar'' @ ascii ''_'' @ str_nat j @ cp CHR ''.'' # ascii ''gz'') = Inr True"
      by (simp add: listing_plain NAME_MAX_def utf8_length_def str_nat.simps ascii_def cp_def)
  qed
  have free: "?D (ascii ''a.tar'' @ ascii ''_'' @ str_nat 2 @ cp CHR ''.'' # ascii ''gz'') = Inr False"
    by (simp add: listing_plain NAME_MAX_def utf8_length_def str_nat.simps ascii_def cp_def)
  have free': "?D (ascii ''notes'' @ ascii ''_'' @ str_nat 1) = Inr False"
    by (simp add: listing_plain NAME_MAX_def utf8_length_def str_nat.simps ascii_def cp_def)
  have two: "(1::nat) \<le> 2" and one: "(1::nat) \<le> 1" by simp_all
  from get_available_filename_last_dot
         [where directory = ?D and f = "ascii ''a.tar.gz''" and k = 2 and e = "ascii ''gz''"
            and b = "ascii ''a.tar''"]
    in1 two nd1 shape taken free
  have r1: "get_available_filename ?D (ascii ''a.tar.gz'')
              = Some (Inr (ascii ''a.tar'' @ ascii ''_'' @ str_nat 2 @ cp CHR ''.'' # ascii ''gz''))"
    by blast
  from get_available_filename_last_dot [where directory = ?D and f = "ascii ''notes''" and k = 1]
    in2 one nd2 free'
  have r2: "get_available_filename ?D (ascii ''notes'')
              = Some (Inr (ascii ''notes'' @ ascii ''_'' @ str_nat 1))"
    by auto
  have glue: "ascii ''a.tar'' @ ascii ''_'' @ str_nat 2 @ cp CHR ''.'' # ascii ''gz'' = ascii ''a.tar_2.gz''"
    "ascii ''notes'' @ ascii ''_'' @ str_nat 1 = ascii ''notes_1''"
    by (simp_all add: str_nat.simps ascii_def cp_def)
  from in1 in2 r1 r2 show ?thesis unfolding glue by simp
qed

section \<open>\<open>sanitize_filename\<close>\<close>

lemmas sanitize_eval =
  sanitize_filename_def split_ext_def rsplit_dot_def remove_diacritics_def normalize_NFD_def
  ucd_excerpt_def czech_decompositions_def replace_char_def remove_char_def name_char_def
  ascii_def cp_def

text \<open>
  What holds of every result: the part that comes from the name is made of characters of
  \<open>[a-zA-Z0-9_-]\<close>, and the extension is passed through \<open>remove_diacritics\<close> only.
\<close>

lemma sanitize_filename_shape:
  assumes "filename \<noteq> []"
  shows "\<exists>name. sanitize_filename db filename =
            name @ remove_diacritics db (snd (split_ext filename)) \<and> list_all name_char name"
  using assms
  by (auto simp: sanitize_filename_def Let_def split_beta list_all_iff)

text \<open>
  Claim C2 (the code departs from it). The attachment name \<open>P\<^bold>\<open>r\<close>\<^bold>\<open>i\<close>loha \<^bold>\<open>c\<close>. 1\<close>, written with the
  Czech letters U+0159, U+00ED and U+010D, is split at its dot into the name \<open>P..loha .\<close> and
  the extension \<open>. 1\<close>. The name loses its diacritics and its space becomes an underscore; the
  extension keeps its space: the result is \<open>Priloha_c. 1\<close>, which has a character outside
  \<open>[A-Za-z0-9_.-]\<close>.
\<close>

theorem sanitize_filename_extension_keeps_space:
  "sanitize_filename ucd_excerpt
     [0x50, 0x159, 0xED, 0x6C, 0x6F, 0x68, 0x61, 0x20, 0x10D, 0x2E, 0x20, 0x31]
     = ascii ''Priloha_c. 1'' \<and>
   \<not> list_all allowed_char (ascii ''Priloha_c. 1'')"
proof
  show "sanitize_filename ucd_excerpt
          [0x50, 0x159, 0xED, 0x6C, 0x6F, 0x68, 0x61, 0x20, 0x10D, 0x2E, 0x20, 0x31]
          = ascii ''Priloha_c. 1''"
    by (simp add: sanitize_eval)
  show "\<not> list_all allowed_char (ascii ''Priloha_c. 1'')"
    by (simp add: allowed_char_def name_char_def ascii_def cp_def)
qed

text \<open>
  Claim C9 (the code departs from it). In the name \<open>a.\<close> followed by U+1D16D, U+034F, U+1D165 the
  extension holds two marks of category Mc with combining classes 226 and 216, kept apart
  by the combining grapheme joiner (category Mn, class 0). The first call removes the
  joiner from the extension and filters nothing else there; the second call then finds the
  two marks next to each other and puts them into canonical order. The two results differ.
\<close>

theorem sanitize_filename_twice_differs:
  "sanitize_filename ucd_excerpt (ascii ''a.'' @ [0x1D16D, 0x34F, 0x1D165])
     = ascii ''a.'' @ [0x1D16D, 0x1D165] \<and>
   sanitize_filename ucd_excerpt
     (sanitize_filename ucd_excerpt (ascii ''a.'' @ [0x1D16D, 0x34F, 0x1D165]))
     = ascii ''a.'' @ [0x1D165, 0x1D16D] \<and>
   sanitize_filename ucd_excerpt
     (sanitize_filename ucd_excerpt (ascii ''a.'' @ [0x1D16D, 0x34F, 0x1D165]))
     \<noteq> sanitize_filename ucd_excerpt (ascii ''a.'' @ [0x1D16D, 0x34F, 0x1D165])"
proof -
  have once: "sanitize_filename ucd_excerpt (ascii ''a.'' @ [0x1D16D, 0x34F, 0x1D165])
                = ascii ''a.'' @ [0x1D16D, 0x1D165]"
    by (simp add: sanitize_eval)
  have twice: "sanitize_filename ucd_excerpt (ascii ''a.'' @ [0x1D16D, 0x1D165])
                 = ascii ''a.'' @ [0x1D165, 0x1D16D]"
    by (simp add: sanitize_eval)
  show ?thesis
    unfolding once twice by (simp add: ascii_def)
qed

section \<open>The resilient fetcher\<close>

lemmas state_eval =
  log_def sleep_def tick_def random_pause_def initial_state_def
  MAX_RETRIES_def PAUSE_ON_ERROR_def PAUSE_MIN_def PAUSE_MAX_def PAGE_SIZE_def

lemmas world_eval =
  offline_world_def maintenance_world_def withdrawn_world_def html_response_def

text \<open>
  \<open>JMKScraper.get_page\<close>: when the four answers from the current request on are transient
  failures (an exception of the transport, a status other than 200, or status 200 with a
  maintenance marker in the body), the result is \<open>None\<close> after three WARN lines, each
  followed by a pause of 30 seconds, and one ERROR line.
\<close>

lemma jmk_page_attempt_transient:
  "status_code r \<noteq> 200 \<or> contains (ascii ''Service Unavailable'') (resp_text r)
     \<or> contains (ascii ''docasne nedostupna'') (resp_text r)
   \<Longrightarrow> \<exists>e. jmk_page_attempt (Http_response r) = Inl e"
  by (auto simp: jmk_page_attempt_def)

lemma clock_after_retry [simp]:
  "clock (sleep n (log m l (tick s))) = clock s + 1"
  by (simp add: sleep_def log_def tick_def)

lemma jmk_get_page_budget:
  assumes "\<forall>j<4. \<exists>e. jmk_page_attempt (http_get w (clock s + j) url) = Inl e"
  shows "fst (jmk_get_page w url 0 s) = None \<and>
         map fst (LOG_LINES (snd (jmk_get_page w url 0 s)))
           = map fst (LOG_LINES s) @ [WARN, WARN, WARN, ERROR] \<and>
         pauses (snd (jmk_get_page w url 0 s)) = pauses s @ [Fixed 30, Fixed 30, Fixed 30]"
proof -
  from assms [THEN spec, of 0] obtain e0
    where e0: "jmk_page_attempt (http_get w (clock s) url) = Inl e0" by auto
  from assms [THEN spec, of 1] obtain e1
    where e1: "jmk_page_attempt (http_get w (Suc (clock s)) url) = Inl e1" by auto
  from assms [THEN spec, of 2] obtain e2
    where e2: "jmk_page_attempt (http_get w (Suc (Suc (clock s))) url) = Inl e2" by auto
  from assms [THEN spec, of 3] obtain e3
    where e3: "jmk_page_attempt (http_get w (Suc (Suc (Suc (clock s)))) url) = Inl e3"
    by (auto simp: numeral_3_eq_3)
  show ?thesis
    by (simp add: jmk_get_page.simps e0 e1 e2 e3 MAX_RETRIES_def PAUSE_ON_ERROR_def
        log_def sleep_def tick_def)
qed

text \<open>
  Claim C4 (the code of \<open>magistrat_mesta_brna.py\<close> departs from it). A server answers with
  status 200 and a page that holds the marker \<open>Service Unavailable\<close>. \<open>BrnoScraper.get_page\<close>
  returns the page at once as if it were the list: nothing is logged, there is no pause
  and no retry. \<open>JMKScraper.get_page\<close> on the same answers logs WARN and pauses 30 seconds
  three times, then logs ERROR and returns \<open>None\<close>.
\<close>

theorem brno_get_page_returns_maintenance_page:
  "brno_get_page maintenance_world LIST_URL 0 (initial_state {})
     = (Some (ascii ''<h1>Service Unavailable</h1>''), tick (initial_state {})) \<and>
   LOG_LINES (tick (initial_state {})) = [] \<and>
   pauses (tick (initial_state {})) = [] \<and>
   fst (jmk_get_page maintenance_world LIST_URL 0 (initial_state {})) = None \<and>
   map fst (LOG_LINES (snd (jmk_get_page maintenance_world LIST_URL 0 (initial_state {}))))
     = [WARN, WARN, WARN, ERROR] \<and>
   pauses (snd (jmk_get_page maintenance_world LIST_URL 0 (initial_state {})))
     = [Fixed 30, Fixed 30, Fixed 30]"
proof -
  have marker: "contains (ascii ''Service Unavailable'') (ascii ''<h1>Service Unavailable</h1>'')"
    by (simp add: ascii_def cp_def)
  have jmk: "\<And>n. jmk_page_attempt (http_get maintenance_world n LIST_URL)
                 = Inl (ascii ''Server vratil chybovou stranku (503)'')"
    by (simp add: jmk_page_attempt_def world_eval marker)
  have brno: "\<And>n. brno_page_attempt (http_get maintenance_world n LIST_URL)
                 = Inr (ascii ''<h1>Service Unavailable</h1>'')"
    by (simp add: brno_page_attempt_def world_eval)
  have "brno_get_page maintenance_world LIST_URL 0 (initial_state {})
          = (Some (ascii ''<h1>Service Unavailable</h1>''), tick (initial_state {}))"
    by (simp add: brno_get_page.simps brno)
  moreover have "LOG_LINES (tick (initial_state {})) = []" "pauses (tick (initial_state {})) = []"
    by (simp_all add: state_eval)
  moreover have "fst (jmk_get_page maintenance_world LIST_URL 0 (initial_state {})) = None"
    by (simp add: jmk_get_page.simps jmk MAX_RETRIES_def)
  moreover have "map fst (LOG_LINES (snd (jmk_get_page maintenance_world LIST_URL 0 (initial_state {}))))
                   = [WARN, WARN, WARN, ERROR]"
    by (simp add: jmk_get_page.simps jmk state_eval)
  moreover have "pauses (snd (jmk_get_page maintenance_world LIST_URL 0 (initial_state {})))
                   = [Fixed 30, Fixed 30, Fixed 30]"
    by (simp add: jmk_get_page.simps jmk state_eval)
  ultimately show ?thesis by blast
qed

text \<open>
  \<open>JMKScraper.download_file\<close>: an answer with status 200, a content type that contains
  \<open>text/html\<close>, no \<open>Content-Disposition\<close> header and a body without maintenance marker that
  contains \<open>dokument\<close> and \<open>dispozici\<close> (in any capitalisation) ends the download at once:
  one WARN line, no pause, no further request, \<open>False\<close>.
\<close>

lemma jmk_download_file_not_available:
  assumes "http_get w (clock s) url = Http_response r"
    and "status_code r = 200"
    and "content_type r = Some ct" and "contains (ascii ''text/html'') ct"
    and "\<not> content_disposition r"
    and "\<not> contains (ascii ''Service Unavailable'') (resp_content r)"
    and "\<not> contains (ascii ''docasne nedostupna'') (resp_content r)"
    and "contains (ascii ''dokument'') (lower_bytes (resp_content r))"
    and "contains (ascii ''dispozici'') (lower_bytes (resp_content r))"
  shows "jmk_download_file w url save_name retry s
           = (False, log (ascii ''Dokument neni k dispozici'') WARN (tick s))"
  using assms by (simp add: jmk_download_file.simps jmk_download_attempt_def)

text \<open>
  Claim C6 (the code of \<open>magistrat_mesta_brna.py\<close> departs from it). A server answers a
  download with status 200, content type \<open>text/html\<close>, no \<open>Content-Disposition\<close> header and
  the page \<open>Dokument neni k dispozici\<close>. \<open>BrnoScraper.download_file\<close> writes the page to the
  file and returns \<open>True\<close>, with nothing logged. \<open>JMKScraper.download_file\<close> on the same
  answer logs one WARN line and returns \<open>False\<close> without pause or retry.
\<close>

theorem brno_download_file_saves_withdrawn_page:
  "brno_download_file withdrawn_world DOWNLOAD_URL (ascii ''2024-05-02_doc.pdf'') 0 (initial_state {})
     = (True, (tick (initial_state {}))\<lparr>saved := {ascii ''2024-05-02_doc.pdf''}\<rparr>) \<and>
   LOG_LINES ((tick (initial_state {}))\<lparr>saved := {ascii ''2024-05-02_doc.pdf''}\<rparr>) = [] \<and>
   jmk_download_file withdrawn_world DOWNLOAD_URL (ascii ''2024-05-02_doc.pdf'') 0 (initial_state {})
     = (False, log (ascii ''Dokument neni k dispozici'') WARN (tick (initial_state {}))) \<and>
   pauses (log (ascii ''Dokument neni k dispozici'') WARN (tick (initial_state {}))) = [] \<and>
   clock (log (ascii ''Dokument neni k dispozici'') WARN (tick (initial_state {}))) = 1"
proof -
  have ct: "contains (ascii ''text/html'') (ascii ''text/html; charset=utf-8'')"
    by (simp add: ascii_def cp_def)
  have no1: "\<not> contains (ascii ''Service Unavailable'') (ascii ''<p>Dokument neni k dispozici</p>'')"
    by (simp add: ascii_def cp_def)
  have no2: "\<not> contains (ascii ''docasne nedostupna'') (ascii ''<p>Dokument neni k dispozici</p>'')"
    by (simp add: ascii_def cp_def)
  have low: "lower_bytes (ascii ''<p>Dokument neni k dispozici</p>'') = ascii ''<p>dokument neni k dispozici</p>''"
    by (simp add: lower_bytes_def ascii_def cp_def)
  have yes1: "contains (ascii ''dokument'') (ascii ''<p>dokument neni k dispozici</p>'')"
    by (simp add: ascii_def cp_def)
  have yes2: "contains (ascii ''dispozici'') (ascii ''<p>dokument neni k dispozici</p>'')"
    by (simp add: ascii_def cp_def)
  have brno: "\<And>n. brno_download_attempt (http_get withdrawn_world n DOWNLOAD_URL) = Written"
    by (simp add: brno_download_attempt_def world_eval ct no1 no2)
  have jmk: "\<And>n. jmk_download_attempt (http_get withdrawn_world n DOWNLOAD_URL) = Not_available"
    by (simp add: jmk_download_attempt_def world_eval ct no1 no2 low yes1 yes2)
  have "brno_download_file withdrawn_world DOWNLOAD_URL (ascii ''2024-05-02_doc.pdf'') 0 (initial_state {})
          = (True, (tick (initial_state {}))\<lparr>saved := {ascii ''2024-05-02_doc.pdf''}\<rparr>)"
    by (simp add: brno_download_file.simps brno state_eval)
  moreover have "LOG_LINES ((tick (initial_state {}))\<lparr>saved := {ascii ''2024-05-02_doc.pdf''}\<rparr>) = []"
    by (simp add: state_eval)
  moreover have "jmk_download_file withdrawn_world DOWNLOAD_URL (ascii ''2024-05-02_doc.pdf'') 0 (initial_state {})
          = (False, log (ascii ''Dokument neni k dispozici'') WARN (tick (initial_state {})))"
    by (simp add: jmk_download_file.simps jmk)
  moreover have "pauses (log (ascii ''Dokument neni k dispozici'') WARN (tick (initial_state {}))) = []"
    "clock (log (ascii ''Dokument neni k dispozici'') WARN (tick (initial_state {}))) = 1"
    by (simp_all add: state_eval)
  ultimately show ?thesis by blast
qed

section \<open>The date-bounded traversal\<close>

text \<open>
  The loop over the items of a page, for items whose dates parse: the items before the
  first one older than \<open>from_date\<close> are processed unless they are newer than \<open>to_date\<close>,
  in order; at the first older item the loop ends with \<open>finished = True\<close>. The bounds must
  be in order: an item is tested against \<open>to_date\<close> first.
\<close>

lemma for_items_takeWhile:
  fixes d :: "'i \<Rightarrow> date"
  assumes "from_date \<le> to_date" and "\<forall>i\<in>set items. date_of i = Inr (d i)"
  shows "for_items date_of boundary process from_date to_date items s =
     (case for_each process (filter (\<lambda>i. d i \<le> to_date) (takeWhile (\<lambda>i. from_date \<le> d i) items)) s of
        None \<Rightarrow> None
      | Some (Some e, s') \<Rightarrow> Some (Uncaught e, s')
      | Some (None, s') \<Rightarrow> Some (case dropWhile (\<lambda>i. from_date \<le> d i) items of
                                  [] \<Rightarrow> (Exhausted, s') | i # rest \<Rightarrow> (Boundary, boundary i s')))"
  using assms(2)
proof (induction items arbitrary: s)
  case Nil
  show ?case by simp
next
  case (Cons item items)
  then have item: "date_of item = Inr (d item)"
    and rest: "\<forall>i\<in>set items. date_of i = Inr (d i)" by simp_all
  note IH = Cons.IH [OF rest]
  consider (newer) "to_date < d item" | (older) "d item < from_date"
    | (inside) "from_date \<le> d item" "d item \<le> to_date"
    by (meson not_le)
  then show ?case
  proof cases
    case newer
    with assms(1) have "from_date \<le> d item" "\<not> d item \<le> to_date" by auto
    with newer item IH show ?thesis by (simp cong: option.case_cong)
  next
    case older
    with assms(1) have "\<not> to_date < d item" "\<not> from_date \<le> d item" by auto
    with older item show ?thesis by (simp cong: option.case_cong)
  next
    case inside
    then have "\<not> to_date < d item" "\<not> d item < from_date" by auto
    with inside item IH show ?thesis
      by (simp split: option.splits prod.splits cong: option.case_cong)
  qed
qed

lemma takeWhile_filter_descending:
  fixes d :: "'i \<Rightarrow> date"
  assumes "sorted_wrt (\<lambda>a b. d b \<le> d a) items"
  shows "takeWhile (\<lambda>i. from_date \<le> d i) items = filter (\<lambda>i. from_date \<le> d i) items"
  using assms
proof (induction items)
  case Nil
  show ?case by simp
next
  case (Cons x xs)
  show ?case
  proof (cases "from_date \<le> d x")
    case True
    with Cons show ?thesis by simp
  next
    case False
    with Cons.prems have "\<forall>b\<in>set xs. \<not> from_date \<le> d b" by auto
    then have "filter (\<lambda>i. from_date \<le> d i) xs = []" by (simp add: filter_empty_conv)
    with False show ?thesis by simp
  qed
qed

lemma dropWhile_find:
  "(case dropWhile P xs of [] \<Rightarrow> a | x # rest \<Rightarrow> f x) = (case find (\<lambda>x. \<not> P x) xs of None \<Rightarrow> a | Some x \<Rightarrow> f x)"
  by (induction xs) simp_all

lemma for_items_descending:
  fixes d :: "'i \<Rightarrow> date"
  assumes "from_date \<le> to_date" and "\<forall>i\<in>set items. date_of i = Inr (d i)"
    and "sorted_wrt (\<lambda>a b. d b \<le> d a) items"
  shows "for_items date_of boundary process from_date to_date items s =
     (case for_each process (filter (\<lambda>i. from_date \<le> d i \<and> d i \<le> to_date) items) s of
        None \<Rightarrow> None
      | Some (Some e, s') \<Rightarrow> Some (Uncaught e, s')
      | Some (None, s') \<Rightarrow> Some (case find (\<lambda>i. d i < from_date) items of
                                  None \<Rightarrow> (Exhausted, s') | Some i \<Rightarrow> (Boundary, boundary i s')))"
proof -
  have "filter (\<lambda>i. d i \<le> to_date) (takeWhile (\<lambda>i. from_date \<le> d i) items)
          = filter (\<lambda>i. from_date \<le> d i \<and> d i \<le> to_date) items"
    by (simp add: takeWhile_filter_descending [OF assms(3)] conj_commute)
  moreover have "\<And>s'. (case dropWhile (\<lambda>i. from_date \<le> d i) items of
                  [] \<Rightarrow> (Exhausted, s') | i # rest \<Rightarrow> (Boundary, boundary i s'))
          = (case find (\<lambda>i. d i < from_date) items of
                  None \<Rightarrow> (Exhausted, s') | Some i \<Rightarrow> (Boundary, boundary i s'))"
    by (simp add: dropWhile_find not_le)
  ultimately show ?thesis
    by (simp add: for_items_takeWhile [OF assms(1,2)] cong: option.case_cong prod.case_cong)
qed

lemma format_date_iso_parses:
  "format_date_iso db date = Inr x \<Longrightarrow> \<exists>d. parse_date_cz db date = Inr d"
  by (auto simp: format_date_iso_def split: sum.splits)

lemma jmk_parse_rows_dates:
  assumes "jmk_parse_rows db rows acc = Inr items"
    and "\<forall>i\<in>set acc. \<exists>d. parse_date_cz db (item_date i) = Inr d"
  shows "\<forall>i\<in>set items. \<exists>d. parse_date_cz db (item_date i) = Inr d"
  using assms
proof (induction rows arbitrary: acc)
  case Nil
  then show ?case by simp
next
  case (Cons row rows)
  show ?case
  proof (cases "date_match row")
    case None
    with Cons show ?thesis by simp
  next
    case (Some date)
    show ?thesis
    proof (cases "link_match row")
      case None
      with Some Cons show ?thesis by simp
    next
      case link: (Some l)
      obtain detail_url name where l: "l = (detail_url, name)" by (cases l)
      show ?thesis
      proof (cases "format_date_iso db date")
        case (Inl e)
        with Some link l Cons.prems(1) show ?thesis by simp
      next
        case (Inr rendered)
        from format_date_iso_parses [OF Inr] obtain dd where "parse_date_cz db date = Inr dd" ..
        with Cons.prems(2)
        have "\<forall>i\<in>set (acc @ [\<lparr>item_date = date, item_date_iso = rendered,
                                 item_detail_url = detail_url, item_name = strip name\<rparr>]).
                \<exists>d. parse_date_cz db (item_date i) = Inr d"
          by (auto simp del: split_paired_Ex)
        moreover from Some link l Inr Cons.prems(1)
        have "jmk_parse_rows db rows (acc @ [\<lparr>item_date = date, item_date_iso = rendered,
                                 item_detail_url = detail_url, item_name = strip name\<rparr>]) = Inr items"
          by simp
        ultimately show ?thesis by (rule Cons.IH [rotated])
      qed
    qed
  qed
qed

lemma jmk_parsed_dates:
  assumes "jmk_parse_list_page w html = Inr items"
  shows "\<forall>i\<in>set items. parse_date_cz (unicode w) (item_date i) = Inr (jmk_date w i)"
proof
  fix i assume "i \<in> set items"
  with jmk_parse_rows_dates [of "unicode w" "re_jmk_rows w html" "[]" items] assms
  obtain d where "parse_date_cz (unicode w) (item_date i) = Inr d"
    by (auto simp: jmk_parse_list_page_def)
  then show "parse_date_cz (unicode w) (item_date i) = Inr (jmk_date w i)"
    by (simp add: jmk_date_def)
qed


lemma jmk_pages_step:
  assumes bounds: "from_date \<le> to_date"
    and load: "jmk_get_list_page w page
                 (log (ascii ''Nacitam stranku '' @ str_nat page @ ascii ''...'') INFO s)
                 = (Inr (Some html), s0)"
    and html: "html \<noteq> []"
    and parse: "jmk_parse_list_page w html = Inr items" and items: "items \<noteq> []"
    and order: "sorted_wrt (\<lambda>a b. jmk_date w b \<le> jmk_date w a) items"
  shows "jmk_pages w from_date to_date (Suc fuel) page s =
     (case for_each (jmk_process_item w)
             (filter (\<lambda>i. from_date \<le> jmk_date w i \<and> jmk_date w i \<le> to_date) items)
             ((log (ascii ''Nalezeno '' @ str_nat (length items) @ ascii '' polozek'') INFO s0)
                \<lparr>pages_processed := pages_processed s0 + 1\<rparr>) of
        None \<Rightarrow> None
      | Some (Some e, s') \<Rightarrow> Some (Some e, s')
      | Some (None, s') \<Rightarrow>
          (case find (\<lambda>i. jmk_date w i < from_date) items of
             Some i \<Rightarrow> Some (None, log (boundary_message w (item_date i)) INFO s')
           | None \<Rightarrow> jmk_pages w from_date to_date fuel (page + 1)
                       (random_pause PAUSE_MIN PAUSE_MAX s')))"
proof -
  note loop = for_items_descending [OF bounds jmk_parsed_dates [OF parse] order]
  show ?thesis
    by (simp add: jmk_pages.simps load html parse items truthy_def jmk_for_items_def loop
          split: option.splits prod.splits)
qed

lemma brno_format_date_iso_parses:
  "brno_format_date_iso db date = Inr x \<Longrightarrow> \<exists>d. brno_parse_date_cz db date = Inr d"
  by (auto simp: brno_format_date_iso_def split: sum.splits)

lemma brno_parse_row_date:
  assumes "brno_parse_row w row = Inr (Some item)"
  shows "\<exists>d. brno_parse_date_cz (unicode w) (zverejnit_od item) = Inr d"
proof -
  from assms obtain x where "brno_format_date_iso (unicode w) (zverejnit_od item) = Inr x"
    by (auto simp: brno_parse_row_def Let_def split: option.splits sum.splits if_splits)
  then show ?thesis by (rule brno_format_date_iso_parses)
qed

lemma brno_parse_rows_dates:
  assumes "brno_parse_rows w rows acc = Inr items"
    and "\<forall>i\<in>set acc. \<exists>d. brno_parse_date_cz (unicode w) (zverejnit_od i) = Inr d"
  shows "\<forall>i\<in>set items. \<exists>d. brno_parse_date_cz (unicode w) (zverejnit_od i) = Inr d"
  using assms
proof (induction rows arbitrary: acc)
  case Nil
  then show ?case by simp
next
  case (Cons row rows)
  show ?case
  proof (cases "brno_parse_row w row")
    case (Inl e)
    with Cons.prems(1) show ?thesis by simp
  next
    case (Inr found)
    show ?thesis
    proof (cases found)
      case None
      with Inr Cons show ?thesis by simp
    next
      case (Some item)
      with Inr brno_parse_row_date have "\<exists>d. brno_parse_date_cz (unicode w) (zverejnit_od item) = Inr d"
        by blast
      with Cons.prems(2)
      have "\<forall>i\<in>set (acc @ [item]). \<exists>d. brno_parse_date_cz (unicode w) (zverejnit_od i) = Inr d"
        by (auto simp del: split_paired_Ex)
      moreover from Some Inr Cons.prems(1) have "brno_parse_rows w rows (acc @ [item]) = Inr items"
        by simp
      ultimately show ?thesis by (rule Cons.IH [rotated])
    qed
  qed
qed

lemma brno_parsed_dates:
  assumes "brno_parse_list_page w html = Inr items"
  shows "\<forall>i\<in>set items. brno_parse_date_cz (unicode w) (zverejnit_od i) = Inr (brno_date w i)"
proof
  fix i assume i: "i \<in> set items"
  from assms have "\<exists>d. brno_parse_date_cz (unicode w) (zverejnit_od i) = Inr d"
  proof (cases "re_tbody w html")
    case None
    with assms i show ?thesis by (simp add: brno_parse_list_page_def)
  next
    case (Some tbody)
    with assms have "brno_parse_rows w (re_brno_rows w tbody) [] = Inr items"
      by (simp add: brno_parse_list_page_def)
    from brno_parse_rows_dates [OF this] i show ?thesis by simp
  qed
  then show "brno_parse_date_cz (unicode w) (zverejnit_od i) = Inr (brno_date w i)"
    by (auto simp: brno_date_def simp del: split_paired_Ex)
qed

lemma brno_pages_step:
  assumes bounds: "from_date \<le> to_date"
    and load: "brno_get_list_page w first
                 (log (ascii ''Nacitam stranku (offset '' @ str_nat first @ ascii '')...'') INFO s)
                 = (Some html, s0)"
    and html: "html \<noteq> []"
    and parse: "brno_parse_list_page w html = Inr items" and items: "items \<noteq> []"
    and order: "sorted_wrt (\<lambda>a b. brno_date w b \<le> brno_date w a) items"
  shows "brno_pages w from_date to_date (Suc fuel) first total_count s =
     (let total = (if first = 0 then parse_total_count w html else total_count);
          s1 = (if first = 0
                then log (ascii ''Celkovy pocet zaznamu na desce: '' @ str_nat total) INFO s0
                else s0)
      in case for_each (brno_process_item w)
                (filter (\<lambda>i. from_date \<le> brno_date w i \<and> brno_date w i \<le> to_date) items)
                ((log (ascii ''Nalezeno '' @ str_nat (length items) @ ascii '' polozek na strance'') INFO s1)
                   \<lparr>pages_processed := pages_processed s1 + 1\<rparr>) of
           None \<Rightarrow> None
         | Some (Some e, s') \<Rightarrow> Some (Some e, s')
         | Some (None, s') \<Rightarrow>
             (case find (\<lambda>i. brno_date w i < from_date) items of
                Some i \<Rightarrow> Some (None, log (boundary_message w (zverejnit_od i)) INFO s')
              | None \<Rightarrow>
                  if first + PAGE_SIZE \<ge> total
                  then Some (None, log (ascii ''Dosazeno konce seznamu.'') INFO s')
                  else brno_pages w from_date to_date fuel (first + PAGE_SIZE) total
                         (random_pause PAUSE_MIN PAUSE_MAX s')))"
proof -
  note loop = for_items_descending [OF bounds brno_parsed_dates [OF parse] order]
  show ?thesis
    by (simp add: brno_pages.simps load html parse items truthy_def brno_for_items_def loop
          Let_def split: option.splits prod.splits)
qed

lemmas date_eval =
  parse_date_cz_def strptime_dmY_def strptime_Ymd_def finish_strptime_def valid_date_def
  days_in_month_def leap_year_def in_range_def ascii_digit_def List.bind_def

lemma may_fields:
  "http_get may_world n url = html_response may_page"
  "re_jmk_rows may_world html = may_rows"
  "re_jmk_files may_world html = []"
  "unicode may_world = ucd_excerpt"
  "urljoin may_world b u = Inr (b @ u)"
  "re_viewstate may_world html = None"
  "re_viewstate_generator may_world html = None"
  "FROM_DATE may_world = ascii ''2024-05-02''"
  by (simp_all add: may_world_def offline_world_def)

lemma may_page_attempt: "jmk_page_attempt (html_response may_page) = Inr may_page"
  by (simp add: jmk_page_attempt_def html_response_def may_page_def ascii_def cp_def)

lemma may_page_nonempty: "may_page \<noteq> []"
  by (simp add: may_page_def ascii_def)

lemma strip_plain: "strip (ascii ''Vyhlaska'') = ascii ''Vyhlaska''" "strip (ascii ''Oznameni'') = ascii ''Oznameni''"
  "strip (ascii ''Rozhodnuti'') = ascii ''Rozhodnuti''"
  by (simp_all add: strip_def isspace_def ascii_def cp_def)

lemma may_dates:
  "parse_date_cz ucd_excerpt (ascii ''03.05.2024'') = Inr (2024, 5, 3)"
  "parse_date_cz ucd_excerpt (ascii ''02.05.2024'') = Inr (2024, 5, 2)"
  "parse_date_cz ucd_excerpt (ascii ''01.05.2024'') = Inr (2024, 5, 1)"
  by (simp_all add: date_eval ucd_excerpt_def ascii_def cp_def)

lemma may_iso:
  "strftime_Ymd (2024, 5, 3) = ascii ''2024-05-03''"
  "strftime_Ymd (2024, 5, 2) = ascii ''2024-05-02''"
  "strftime_Ymd (2024, 5, Suc 0) = ascii ''2024-05-01''"
  by (simp_all add: strftime_Ymd_def pad2_def str_nat.simps ascii_def cp_def)

lemma may_parse: "jmk_parse_list_page may_world may_page = Inr may_items"
  by (simp add: jmk_parse_list_page_def may_fields may_rows_def may_items_def newer_item_def
        inside_item_def older_item_def format_date_iso_def may_dates may_iso strip_plain)

lemma may_load:
  "jmk_get_list_page may_world 1 s = (Inr (Some may_page), tick s)"
  by (simp add: jmk_get_list_page_def jmk_get_page.simps may_fields may_page_attempt truthy_def
        may_page_nonempty extract_viewstate_def)

lemma may_jmk_dates:
  "jmk_date may_world newer_item = (2024, 5, 3)"
  "jmk_date may_world inside_item = (2024, 5, 2)"
  "jmk_date may_world older_item = (2024, 5, 1)"
  by (simp_all add: jmk_date_def newer_item_def inside_item_def older_item_def may_fields may_dates)

lemma may_sorted: "sorted_wrt (\<lambda>a b. jmk_date may_world b \<le> jmk_date may_world a) may_items"
  by (simp add: may_items_def may_jmk_dates)

lemma may_filter:
  "filter (\<lambda>i. (2024, 5, 2) \<le> jmk_date may_world i \<and> jmk_date may_world i \<le> (2024, 5, 2)) may_items
     = [inside_item]"
  by (simp add: may_items_def may_jmk_dates)

lemma may_find: "find (\<lambda>i. jmk_date may_world i < (2024, 5, 2)) may_items = Some older_item"
  by (simp add: may_items_def may_jmk_dates)

lemma may_bounds: "((2024, 5, 2) :: date) \<le> (2024, 5, 2)" by simp

lemma brno_may_fields:
  "http_get brno_may_world n url = html_response may_page"
  "re_total_count brno_may_world html = Some 3"
  "re_tbody brno_may_world html = Some html"
  "re_brno_rows brno_may_world tbody =
     [brno_row_of 103 ''03.05.2024'', brno_row_of 102 ''02.05.2024'', brno_row_of 101 ''01.05.2024'']"
  "unicode brno_may_world = ucd_excerpt"
  "unescape brno_may_world x = x"
  "re_sub_tags brno_may_world x = x"
  "re_sub_spaces brno_may_world x = x"
  "FROM_DATE brno_may_world = ascii ''2024-05-02''"
  by (simp_all add: brno_may_world_def offline_world_def)

lemma strip_dates:
  "strip (ascii ''03.05.2024'') = ascii ''03.05.2024''"
  "strip (ascii ''02.05.2024'') = ascii ''02.05.2024''"
  "strip (ascii ''01.05.2024'') = ascii ''01.05.2024''"
  by (simp_all add: strip_def isspace_def ascii_def cp_def)

lemma brno_may_parse_dates:
  "brno_parse_date_cz ucd_excerpt (ascii ''03.05.2024'') = Inr (2024, 5, 3)"
  "brno_parse_date_cz ucd_excerpt (ascii ''02.05.2024'') = Inr (2024, 5, 2)"
  "brno_parse_date_cz ucd_excerpt (ascii ''01.05.2024'') = Inr (2024, 5, 1)"
  using may_dates by (simp_all add: brno_parse_date_cz_def strip_dates parse_date_cz_def)

lemma dates_nonempty:
  "ascii ''03.05.2024'' \<noteq> []" "ascii ''02.05.2024'' \<noteq> []" "ascii ''01.05.2024'' \<noteq> []"
  by (simp_all add: ascii_def)

lemma brno_may_parse: "brno_parse_list_page brno_may_world may_page = Inr brno_may_items"
  by (simp add: dates_nonempty brno_parse_list_page_def brno_may_fields brno_parse_row_def brno_row_of_def
        brno_item_of_def brno_may_items_def brno_format_date_iso_def brno_may_parse_dates may_iso
        clean_html_text_def cleaned_def strip_plain Let_def)

lemma brno_page_attempt_may: "brno_page_attempt (html_response may_page) = Inr may_page"
  by (simp add: brno_page_attempt_def html_response_def)

lemma brno_may_load: "brno_get_list_page brno_may_world 0 s = (Some may_page, tick s)"
  by (simp add: brno_get_list_page_def brno_get_page.simps brno_may_fields brno_page_attempt_may)

lemma brno_may_dates:
  "brno_date brno_may_world (brno_item_of 103 ''03.05.2024'' ''2024-05-03'') = (2024, 5, 3)"
  "brno_date brno_may_world (brno_item_of 102 ''02.05.2024'' ''2024-05-02'') = (2024, 5, 2)"
  "brno_date brno_may_world (brno_item_of 101 ''01.05.2024'' ''2024-05-01'') = (2024, 5, 1)"
  by (simp_all add: brno_date_def brno_item_of_def brno_may_fields brno_may_parse_dates)

lemma brno_may_sorted:
  "sorted_wrt (\<lambda>a b. brno_date brno_may_world b \<le> brno_date brno_may_world a) brno_may_items"
  by (simp add: brno_may_items_def brno_may_dates)

lemma brno_may_filter:
  "filter (\<lambda>i. (2024, 5, 2) \<le> brno_date brno_may_world i \<and> brno_date brno_may_world i \<le> (2024, 5, 2))
     brno_may_items = [brno_item_of 102 ''02.05.2024'' ''2024-05-02'']"
  by (simp add: brno_may_items_def brno_may_dates)

lemma brno_may_find:
  "find (\<lambda>i. brno_date brno_may_world i < (2024, 5, 2)) brno_may_items
     = Some (brno_item_of 101 ''01.05.2024'' ''2024-05-01'')"
  by (simp add: brno_may_items_def brno_may_dates)

text \<open>
  The page of \<open>may_world\<close> holds a notice newer than the bounds, one in range and one older.
  One round of either loop passes over the first, processes the second and ends the
  traversal at the third: one item on one page, with one request for the list (and, in
  \<open>edeska_jmk.py\<close>, one for the detail of the item).
\<close>

lemma may_rounds:
  "map_option (\<lambda>(e, s). (e, items_processed s, pages_processed s, clock s))
     (jmk_pages may_world (2024, 5, 2) (2024, 5, 2) (Suc 0) 1 (jmk_initial_state {}))
     = Some (None, 1, 1, 2)"
  "map_option (\<lambda>(e, s). (e, items_processed s, pages_processed s, clock s))
     (brno_pages brno_may_world (2024, 5, 2) (2024, 5, 2) (Suc 0) 0 0 (initial_state {}))
     = Some (None, 1, 1, 1)"
proof -
  have nonempty: "may_items \<noteq> []" by (simp add: may_items_def)
  note step = jmk_pages_step [OF may_bounds may_load may_page_nonempty may_parse nonempty may_sorted]
  show "map_option (\<lambda>(e, s). (e, items_processed s, pages_processed s, clock s))
          (jmk_pages may_world (2024, 5, 2) (2024, 5, 2) (Suc 0) 1 (jmk_initial_state {}))
          = Some (None, 1, 1, 2)"
    unfolding step may_filter may_find
    by (simp add: jmk_process_item_def inside_item_def jmk_get_page.simps may_fields may_page_attempt
         truthy_def may_page_nonempty jmk_parse_detail_page_def Let_def state_eval
         jmk_initial_state_def run_state.extend_def)
  have brno_nonempty: "brno_may_items \<noteq> []" by (simp add: brno_may_items_def)
  note brno_step = brno_pages_step [OF may_bounds brno_may_load may_page_nonempty brno_may_parse
      brno_nonempty brno_may_sorted]
  show "map_option (\<lambda>(e, s). (e, items_processed s, pages_processed s, clock s))
          (brno_pages brno_may_world (2024, 5, 2) (2024, 5, 2) (Suc 0) 0 0 (initial_state {}))
          = Some (None, 1, 1, 1)"
    unfolding brno_step Let_def brno_may_filter brno_may_find
    by (simp add: brno_process_item_def brno_item_of_def state_eval)
qed

section \<open>Rows of a list page\<close>

lemma jmk_parse_rows_drop:
  "date_match row = None \<Longrightarrow>
   jmk_parse_rows db (before @ row # after) items = jmk_parse_rows db (before @ after) items"
  by (induction before arbitrary: items) (auto split: option.splits sum.splits)

lemma parse_date_cz_format:
  "parse_date_cz db date = Inr d \<Longrightarrow> format_date_iso db date = Inr (strftime_Ymd d)"
  by (simp add: format_date_iso_def)

lemma jmk_parse_rows_total:
  assumes "\<forall>r\<in>set rows. \<forall>date. date_match r = Some date \<longrightarrow> (\<exists>d. parse_date_cz db date = Inr d)"
  shows "\<exists>result. jmk_parse_rows db rows items = Inr result"
  using assms
proof (induction rows arbitrary: items)
  case Nil
  show ?case by simp
next
  case (Cons row rows)
  then have rest: "\<And>items. \<exists>result. jmk_parse_rows db rows items = Inr result" by simp
  show ?case
  proof (cases "date_match row")
    case None
    with rest show ?thesis by simp
  next
    case (Some date)
    with Cons.prems obtain d where "parse_date_cz db date = Inr d" by auto
    then have "format_date_iso db date = Inr (strftime_Ymd d)" by (rule parse_date_cz_format)
    with Some rest show ?thesis by (cases "link_match row") auto
  qed
qed

lemma february_fields:
  "http_get february_world n url = html_response (ascii ''<table>seznam</table>'')"
  "re_jmk_rows february_world html = february_rows"
  "unicode february_world = ucd_excerpt"
  "FROM_DATE february_world = ascii ''2024-05-02''"
  "TO_DATE february_world = ascii ''2024-05-02''"
  "SAVE_DIR february_world = ascii ''stazene_soubory''"
  "urljoin february_world b u = Inr (b @ u)"
  "re_viewstate february_world html = None"
  "re_viewstate_generator february_world html = None"
  by (simp_all add: february_world_def offline_world_def)

lemma february_date: "format_date_iso ucd_excerpt (ascii ''31.02.2024'') = Inl ValueError"
  by (simp add: format_date_iso_def date_eval ucd_excerpt_def ascii_def cp_def)

lemma february_parse: "jmk_parse_list_page february_world html = Inl ValueError"
  by (simp add: jmk_parse_list_page_def february_fields february_rows_def february_date)

lemma bounds_parse: "strptime_Ymd ucd_excerpt (ascii ''2024-05-02'') = Inr (2024, 5, 2)"
  by (simp add: date_eval ucd_excerpt_def ascii_def cp_def)

lemma february_page:
  "jmk_page_attempt (html_response (ascii ''<table>seznam</table>''))
     = Inr (ascii ''<table>seznam</table>'')"
  by (simp add: jmk_page_attempt_def html_response_def ascii_def cp_def)

lemma february_page_nonempty: "ascii ''<table>seznam</table>'' \<noteq> []"
  by (simp add: ascii_def)

lemmas february_run =
  jmk_main_def jmk_pages.simps february_fields bounds_parse jmk_get_list_page_def
  jmk_get_page.simps february_page truthy_def february_page_nonempty february_parse split_beta
  Let_def

text \<open>
  A row in which the pattern of the date (two digits, dot, two digits, dot, four digits) is
  not found is dropped, and only that row: the page parses as it would without the row.
  And when the digits of every row that matches are a date of the calendar, the page parses
  without exception.
\<close>

lemma row_without_date_is_dropped:
  "(date_match row = None \<longrightarrow>
      jmk_parse_rows db (before @ row # after) items = jmk_parse_rows db (before @ after) items) \<and>
   ((\<forall>r\<in>set rows. \<forall>date. date_match r = Some date \<longrightarrow> (\<exists>d. parse_date_cz db date = Inr d))
      \<longrightarrow> (\<exists>result. jmk_parse_rows db rows items = Inr result))"
  using jmk_parse_rows_drop [of row db before after items] jmk_parse_rows_total [of rows db items]
  by blast

lemma undated_row_is_dropped:
  "jmk_parse_rows ucd_excerpt ([may_rows ! 1] @ undated_row # [may_rows ! 2]) []
     = Inr [inside_item, older_item]"
proof -
  have "date_match undated_row = None" by (simp add: undated_row_def)
  moreover have "jmk_parse_rows ucd_excerpt ([may_rows ! 1] @ [may_rows ! 2]) []
                   = Inr [inside_item, older_item]"
    by (simp add: may_rows_def inside_item_def older_item_def format_date_iso_def may_dates may_iso
          strip_plain)
  ultimately show ?thesis
    using jmk_parse_rows_drop [of undated_row ucd_excerpt "[may_rows ! 1]" "[may_rows ! 2]" "[]"]
    by simp
qed

text \<open>
  Claim C7 (the code of \<open>edeska_jmk.py\<close> departs from it). The first row of the list page
  has a link and the date \<open>31.02.2024\<close>: the digits match the pattern and are no date of the
  calendar. \<open>format_date_iso\<close> raises \<open>ValueError\<close> in \<open>parse_list_page\<close>, which has no
  \<open>try\<close> around it, and neither has \<open>main\<close>: the row is not dropped, the page yields no
  items, the second row (in range) is never processed, and the run ends with the
  traceback before a single item.
\<close>

theorem row_with_impossible_date_is_fatal:
  "jmk_parse_list_page february_world (ascii ''<table>seznam</table>'') = Inl ValueError \<and>
   map_option (\<lambda>(e, s). (e, pages_processed s, items_processed s))
     (jmk_main february_world (Suc 0) {}) = Some (Traceback ValueError, 0, 0)"
proof
  show "jmk_parse_list_page february_world (ascii ''<table>seznam</table>'') = Inl ValueError"
    by (rule february_parse)
  show "map_option (\<lambda>(e, s). (e, pages_processed s, items_processed s))
          (jmk_main february_world (Suc 0) {}) = Some (Traceback ValueError, 0, 0)"
    by (simp add: february_run extract_viewstate_def log_def tick_def
          jmk_initial_state_def initial_state_def run_state.extend_def)
qed

section \<open>The total count of \<open>magistrat_mesta_brna.py\<close>\<close>

lemma uncounted_fields:
  "http_get uncounted_world n url = html_response first_page"
  "http_post uncounted_world n url data =
     (if (ascii ''first'', ascii ''25'') \<in> set data
      then html_response second_page else html_response empty_page)"
  "re_total_count uncounted_world html = None"
  "re_tbody uncounted_world html = Some html"
  "re_brno_rows uncounted_world tbody =
     (if tbody = first_page then replicate 25 (brno_row_of 102 ''02.05.2024'')
      else if tbody = second_page then [brno_row_of 102 ''02.05.2024'']
      else [])"
  "unicode uncounted_world = ucd_excerpt"
  "unescape uncounted_world x = x"
  "re_sub_tags uncounted_world x = x"
  "re_sub_spaces uncounted_world x = x"
  "FROM_DATE uncounted_world = ascii ''2024-05-02''"
  "TO_DATE uncounted_world = ascii ''2024-05-02''"
  by (simp_all add: uncounted_world_def offline_world_def)

lemma counted_fields:
  "http_get counted_world n url = html_response first_page"
  "http_post counted_world n url data =
     (if (ascii ''first'', ascii ''25'') \<in> set data
      then html_response second_page else html_response empty_page)"
  "re_total_count counted_world html = Some 26"
  "re_tbody counted_world html = Some html"
  "re_brno_rows counted_world tbody =
     (if tbody = first_page then replicate 25 (brno_row_of 102 ''02.05.2024'')
      else if tbody = second_page then [brno_row_of 102 ''02.05.2024'']
      else [])"
  "unicode counted_world = ucd_excerpt"
  "unescape counted_world x = x"
  "re_sub_tags counted_world x = x"
  "re_sub_spaces counted_world x = x"
  "FROM_DATE counted_world = ascii ''2024-05-02''"
  "TO_DATE counted_world = ascii ''2024-05-02''"
  by (simp_all add: counted_world_def uncounted_world_def offline_world_def)

lemma pages_distinct: "first_page \<noteq> []" "second_page \<noteq> []" "second_page \<noteq> first_page"
  by (simp_all add: first_page_def second_page_def ascii_def cp_def)

lemma brno_page_attempt_html: "brno_page_attempt (html_response body) = Inr body"
  by (simp add: brno_page_attempt_def html_response_def)

text \<open>The notice of the board, as a row and as an item.\<close>

lemma board_row:
  assumes "unicode w = ucd_excerpt" and "unescape w = (\<lambda>x. x)" and "re_sub_tags w = (\<lambda>x. x)"
    and "re_sub_spaces w = (\<lambda>x. x)"
  shows "brno_parse_row w (brno_row_of 102 ''02.05.2024'')
           = Inr (Some (brno_item_of 102 ''02.05.2024'' ''2024-05-02''))"
  by (simp add: assms brno_parse_row_def brno_row_of_def brno_item_of_def brno_format_date_iso_def
        brno_may_parse_dates may_iso clean_html_text_def cleaned_def strip_plain dates_nonempty
        Let_def)

lemma board_item_date:
  assumes "unicode w = ucd_excerpt"
  shows "brno_date w (brno_item_of 102 ''02.05.2024'' ''2024-05-02'') = (2024, 5, 2)"
  by (simp add: assms brno_date_def brno_item_of_def brno_may_parse_dates)

lemma brno_parse_rows_replicate:
  assumes "brno_parse_row w row = Inr (Some item)"
  shows "brno_parse_rows w (replicate n row) acc = Inr (acc @ replicate n item)"
  by (induction n arbitrary: acc) (simp_all add: assms replicate_app_Cons_same)

text \<open>Items without files: each adds one to \<open>items_processed\<close> and loads nothing.\<close>

lemma brno_process_item_plain:
  assumes "files item = []"
  shows "\<exists>s'. brno_process_item w item s = Some (None, s') \<and>
              items_processed s' = items_processed s + 1 \<and> pages_processed s' = pages_processed s"
  by (simp add: assms brno_process_item_def log_def Let_def)

lemma for_each_plain:
  assumes "files item = []"
  shows "\<exists>s'. for_each (brno_process_item w) (replicate n item) s = Some (None, s') \<and>
              items_processed s' = items_processed s + n \<and> pages_processed s' = pages_processed s"
proof (induction n arbitrary: s)
  case 0
  show ?case by simp
next
  case (Suc n)
  from brno_process_item_plain [OF assms, of w s] obtain s1
    where s1: "brno_process_item w item s = Some (None, s1)" "items_processed s1 = items_processed s + 1"
      "pages_processed s1 = pages_processed s" by blast
  from Suc [of s1] obtain s2
    where "for_each (brno_process_item w) (replicate n item) s1 = Some (None, s2)"
      "items_processed s2 = items_processed s1 + n" "pages_processed s2 = pages_processed s1" by blast
  with s1 show ?case by simp
qed

lemma sorted_wrt_replicate:
  fixes d :: "'i \<Rightarrow> date"
  shows "sorted_wrt (\<lambda>a b. d b \<le> d a) (replicate n x)"
  by (induction n) simp_all


lemma str_nat_25: "str_nat 25 = ascii ''25''"
  by (simp add: str_nat.simps ascii_def cp_def)

lemma board_load:
  assumes "w = uncounted_world \<or> w = counted_world"
  shows "brno_get_list_page w 0 s = (Some first_page, tick s)"
    and "brno_get_list_page w 25 s = (Some second_page, tick s)"
  using assms
  by (auto simp: brno_get_list_page_def brno_get_page.simps brno_post_page.simps uncounted_fields
        counted_fields brno_page_attempt_html str_nat_25)

lemma board_parse:
  assumes "w = uncounted_world \<or> w = counted_world"
  shows "brno_parse_list_page w first_page
           = Inr (replicate 25 (brno_item_of 102 ''02.05.2024'' ''2024-05-02''))"
    and "brno_parse_list_page w second_page = Inr [brno_item_of 102 ''02.05.2024'' ''2024-05-02'']"
proof -
  from assms have row: "brno_parse_row w (brno_row_of 102 ''02.05.2024'')
                          = Inr (Some (brno_item_of 102 ''02.05.2024'' ''2024-05-02''))"
    by (intro board_row) (auto simp: uncounted_fields counted_fields)
  from assms have rows: "re_tbody w first_page = Some first_page"
    "re_tbody w second_page = Some second_page"
    "re_brno_rows w first_page = replicate 25 (brno_row_of 102 ''02.05.2024'')"
    "re_brno_rows w second_page = [brno_row_of 102 ''02.05.2024'']"
    by (auto simp: uncounted_fields counted_fields pages_distinct)
  show "brno_parse_list_page w first_page
           = Inr (replicate 25 (brno_item_of 102 ''02.05.2024'' ''2024-05-02''))"
    by (simp add: brno_parse_list_page_def rows brno_parse_rows_replicate [OF row])
  show "brno_parse_list_page w second_page = Inr [brno_item_of 102 ''02.05.2024'' ''2024-05-02'']"
    by (simp add: brno_parse_list_page_def rows row)
qed

lemma board_date:
  assumes "w = uncounted_world \<or> w = counted_world"
  shows "brno_date w (brno_item_of 102 ''02.05.2024'' ''2024-05-02'') = (2024, 5, 2)"
  using assms by (intro board_item_date) (auto simp: uncounted_fields counted_fields)

lemma board_item_plain: "files (brno_item_of 102 ''02.05.2024'' ''2024-05-02'') = []"
  by (simp add: brno_item_of_def)

text \<open>One round of the loop on a page of \<open>n\<close> copies of the notice.\<close>

lemma board_round:
  assumes w: "w = uncounted_world \<or> w = counted_world"
    and load: "\<And>s' :: run_state. brno_get_list_page w first s' = (Some page, tick s')"
    and page: "page \<noteq> []"
    and parse: "brno_parse_list_page w page
                  = Inr (replicate (Suc n) (brno_item_of 102 ''02.05.2024'' ''2024-05-02''))"
  shows "\<exists>t. items_processed t = items_processed s + Suc n \<and>
             pages_processed t = pages_processed s + 1 \<and>
             brno_pages w (2024, 5, 2) (2024, 5, 2) (Suc fuel) first total_count s =
               (if first + PAGE_SIZE \<ge> (if first = 0 then parse_total_count w page else total_count)
                then Some (None, log (ascii ''Dosazeno konce seznamu.'') INFO t)
                else brno_pages w (2024, 5, 2) (2024, 5, 2) fuel (first + PAGE_SIZE)
                       (if first = 0 then parse_total_count w page else total_count)
                       (random_pause PAUSE_MIN PAUSE_MAX t))"
proof -
  let ?item = "brno_item_of 102 ''02.05.2024'' ''2024-05-02''"
  let ?items = "replicate (Suc n) ?item"
  let ?total = "if first = 0 then parse_total_count w page else total_count"
  let ?s0 = "tick (log (ascii ''Nacitam stranku (offset '' @ str_nat first @ ascii '')...'') INFO s)"
  let ?t1 = "if first = 0
             then log (ascii ''Celkovy pocet zaznamu na desce: '' @ str_nat ?total) INFO ?s0 else ?s0"
  let ?start = "(log (ascii ''Nalezeno '' @ str_nat (length ?items) @ ascii '' polozek na strance'') INFO ?t1)
                  \<lparr>pages_processed := pages_processed ?t1 + 1\<rparr>"
  have inside: "filter (\<lambda>i. (2024, 5, 2) \<le> brno_date w i \<and> brno_date w i \<le> (2024, 5, 2)) ?items = ?items"
    by (simp add: board_date [OF w] del: replicate_Suc)
  have none: "find (\<lambda>i. brno_date w i < (2024, 5, 2)) ?items = None"
    by (simp add: find_None_iff board_date [OF w] del: replicate_Suc)
  from for_each_plain [OF board_item_plain, of w "Suc n" ?start] obtain t
    where t: "for_each (brno_process_item w) ?items ?start = Some (None, t)"
      "items_processed t = items_processed ?start + Suc n"
      "pages_processed t = pages_processed ?start" by blast
  have nonempty: "?items \<noteq> []" by simp
  note step = brno_pages_step [OF may_bounds load page parse nonempty sorted_wrt_replicate,
      of fuel total_count]
  have "brno_pages w (2024, 5, 2) (2024, 5, 2) (Suc fuel) first total_count s =
          (if first + PAGE_SIZE \<ge> ?total
           then Some (None, log (ascii ''Dosazeno konce seznamu.'') INFO t)
           else brno_pages w (2024, 5, 2) (2024, 5, 2) fuel (first + PAGE_SIZE) ?total
                  (random_pause PAUSE_MIN PAUSE_MAX t))"
    unfolding step Let_def inside none t(1) by simp
  moreover from t(2,3) have "items_processed t = items_processed s + Suc n"
    "pages_processed t = pages_processed s + 1"
    by (simp_all add: log_def tick_def)
  ultimately show ?thesis by blast
qed

lemma tick_counters [simp]:
  "items_processed (tick s) = items_processed s" "pages_processed (tick s) = pages_processed s"
  by (simp_all add: tick_def)

lemma log_counters [simp]:
  "items_processed (log m l s) = items_processed s" "pages_processed (log m l s) = pages_processed s"
  by (simp_all add: log_def)

lemma random_pause_counters [simp]:
  "items_processed (random_pause a b s) = items_processed s"
  "pages_processed (random_pause a b s) = pages_processed s"
  by (simp_all add: random_pause_def)

lemma uncounted_pages:
  "\<exists>t. brno_pages uncounted_world (2024, 5, 2) (2024, 5, 2) (Suc fuel) 0 0 s = Some (None, t) \<and>
       items_processed t = items_processed s + 25 \<and> pages_processed t = pages_processed s + 1"
proof -
  have w: "uncounted_world = uncounted_world \<or> uncounted_world = counted_world" by simp
  have "\<exists>t. items_processed t = items_processed s + Suc 24 \<and>
             pages_processed t = pages_processed s + 1 \<and>
             brno_pages uncounted_world (2024, 5, 2) (2024, 5, 2) (Suc fuel) 0 0 s =
               (if 0 + PAGE_SIZE \<ge> (if (0::nat) = 0 then parse_total_count uncounted_world first_page else 0)
                then Some (None, log (ascii ''Dosazeno konce seznamu.'') INFO t)
                else brno_pages uncounted_world (2024, 5, 2) (2024, 5, 2) fuel (0 + PAGE_SIZE)
                       (if (0::nat) = 0 then parse_total_count uncounted_world first_page else 0)
                       (random_pause PAUSE_MIN PAUSE_MAX t))"
    by (rule board_round [OF w]) (simp_all add: board_load [OF w] pages_distinct board_parse [OF w])
  then obtain t where "items_processed t = items_processed s + Suc 24"
    "pages_processed t = pages_processed s + 1"
    "brno_pages uncounted_world (2024, 5, 2) (2024, 5, 2) (Suc fuel) 0 0 s
       = Some (None, log (ascii ''Dosazeno konce seznamu.'') INFO t)"
    by (auto simp: parse_total_count_def uncounted_fields PAGE_SIZE_def)
  then show ?thesis by simp
qed

lemma counted_pages:
  "\<exists>t. brno_pages counted_world (2024, 5, 2) (2024, 5, 2) (Suc (Suc fuel)) 0 0 s = Some (None, t) \<and>
       items_processed t = items_processed s + 26 \<and> pages_processed t = pages_processed s + 2"
proof -
  have w: "counted_world = uncounted_world \<or> counted_world = counted_world" by simp
  have "\<exists>t. items_processed t = items_processed s + Suc 24 \<and>
             pages_processed t = pages_processed s + 1 \<and>
             brno_pages counted_world (2024, 5, 2) (2024, 5, 2) (Suc (Suc fuel)) 0 0 s =
               (if 0 + PAGE_SIZE \<ge> (if (0::nat) = 0 then parse_total_count counted_world first_page else 0)
                then Some (None, log (ascii ''Dosazeno konce seznamu.'') INFO t)
                else brno_pages counted_world (2024, 5, 2) (2024, 5, 2) (Suc fuel) (0 + PAGE_SIZE)
                       (if (0::nat) = 0 then parse_total_count counted_world first_page else 0)
                       (random_pause PAUSE_MIN PAUSE_MAX t))"
    by (rule board_round [OF w]) (simp_all add: board_load [OF w] pages_distinct board_parse [OF w])
  then obtain t where t: "items_processed t = items_processed s + Suc 24"
    "pages_processed t = pages_processed s + 1"
    "brno_pages counted_world (2024, 5, 2) (2024, 5, 2) (Suc (Suc fuel)) 0 0 s
       = brno_pages counted_world (2024, 5, 2) (2024, 5, 2) (Suc fuel) 25 26
           (random_pause PAUSE_MIN PAUSE_MAX t)"
    by (auto simp: parse_total_count_def counted_fields PAGE_SIZE_def)
  have "\<exists>u. items_processed u = items_processed (random_pause PAUSE_MIN PAUSE_MAX t) + Suc 0 \<and>
             pages_processed u = pages_processed (random_pause PAUSE_MIN PAUSE_MAX t) + 1 \<and>
             brno_pages counted_world (2024, 5, 2) (2024, 5, 2) (Suc fuel) 25 26
                 (random_pause PAUSE_MIN PAUSE_MAX t) =
               (if 25 + PAGE_SIZE \<ge> (if (25::nat) = 0 then parse_total_count counted_world second_page else 26)
                then Some (None, log (ascii ''Dosazeno konce seznamu.'') INFO u)
                else brno_pages counted_world (2024, 5, 2) (2024, 5, 2) fuel (25 + PAGE_SIZE)
                       (if (25::nat) = 0 then parse_total_count counted_world second_page else 26)
                       (random_pause PAUSE_MIN PAUSE_MAX u))"
    by (rule board_round [OF w]) (simp_all add: board_load [OF w] pages_distinct board_parse [OF w])
  then obtain u where "items_processed u = items_processed (random_pause PAUSE_MIN PAUSE_MAX t) + Suc 0"
    "pages_processed u = pages_processed (random_pause PAUSE_MIN PAUSE_MAX t) + 1"
    "brno_pages counted_world (2024, 5, 2) (2024, 5, 2) (Suc fuel) 25 26
        (random_pause PAUSE_MIN PAUSE_MAX t)
       = Some (None, log (ascii ''Dosazeno konce seznamu.'') INFO u)"
    by (auto simp: PAGE_SIZE_def)
  with t show ?thesis by simp
qed

lemma upload_to_ftp_counters [simp]:
  "items_processed (snd (upload_to_ftp w p f s)) = items_processed s"
  "pages_processed (snd (upload_to_ftp w p f s)) = pages_processed s"
  by (simp_all add: upload_to_ftp_def split: option.splits)

lemma finish_run_counters:
  "items_processed (snd (finish_run w site a b s)) = items_processed s"
  "pages_processed (snd (finish_run w site a b s)) = pages_processed s"
  by (simp_all add: finish_run_def summary_def sql_import_save_def sql_logy_save_def
        upload_sql_to_ftp_def upload_log_to_ftp_def Let_def)

text \<open>
  Claim C5 (the code of \<open>magistrat_mesta_brna.py\<close> departs from it). The board holds 26
  notices, all published on 2 May 2024, 25 on the first page and one at offset 25, and the
  run is bounded by that day. When the first page lacks the text \<open>1 - 25 z 26\<close>,
  \<open>parse_total_count\<close> returns 0, the test \<open>first >= total_count\<close> holds after the first
  page and the run ends with 25 items on one page. When the text is there, the same board
  gives 26 items on two pages.
\<close>

theorem missing_count_ends_after_first_page:
  "map_option (\<lambda>(e, s). (items_processed s, pages_processed s))
     (brno_main uncounted_world (Suc (Suc (Suc 0))) {}) = Some (25, 1) \<and>
   map_option (\<lambda>(e, s). (items_processed s, pages_processed s))
     (brno_main counted_world (Suc (Suc (Suc 0))) {}) = Some (26, 2)"
proof
  let ?start = "\<lambda>w. log (ascii ''Lokalni slozka: '' @ SAVE_DIR w) INFO
      (log (ascii ''Datum od: '' @ FROM_DATE w @ ascii '', do: '' @ TO_DATE w) INFO
         (log (ascii ''=== Stahovani z uredni desky Magistratu mesta Brna ==='') INFO (initial_state {})))"
  from uncounted_pages [of "Suc (Suc 0)" "?start uncounted_world"] obtain t
    where "brno_pages uncounted_world (2024, 5, 2) (2024, 5, 2) (Suc (Suc (Suc 0))) 0 0
             (?start uncounted_world) = Some (None, t)"
      "items_processed t = 25" "pages_processed t = 1"
    by (auto simp: initial_state_def)
  then show "map_option (\<lambda>(e, s). (items_processed s, pages_processed s))
     (brno_main uncounted_world (Suc (Suc (Suc 0))) {}) = Some (25, 1)"
    by (simp add: brno_main_def uncounted_fields bounds_parse Let_def split_beta finish_run_counters)
  from counted_pages [of "Suc 0" "?start counted_world"] obtain u
    where "brno_pages counted_world (2024, 5, 2) (2024, 5, 2) (Suc (Suc (Suc 0))) 0 0
             (?start counted_world) = Some (None, u)"
      "items_processed u = 26" "pages_processed u = 2"
    by (auto simp: initial_state_def)
  then show "map_option (\<lambda>(e, s). (items_processed s, pages_processed s))
     (brno_main counted_world (Suc (Suc (Suc 0))) {}) = Some (26, 2)"
    by (simp add: brno_main_def counted_fields bounds_parse Let_def split_beta finish_run_counters)
qed

section \<open>Traversal across pages\<close>

lemma newer_first_fields:
  assumes "w = newer_first_world \<or> w = newer_first_counted_world"
  shows "http_get w n url = html_response first_page"
    and "http_post w n url data =
           (if (ascii ''first'', ascii ''25'') \<in> set data
            then html_response second_page else html_response empty_page)"
    and "re_tbody w html = Some html"
    and "re_brno_rows w tbody =
           (if tbody = first_page then replicate 25 (brno_row_of 103 ''03.05.2024'')
            else if tbody = second_page then [brno_row_of 102 ''02.05.2024'']
            else [])"
    and "unicode w = ucd_excerpt"
    and "unescape w = (\<lambda>x. x)"
    and "re_sub_tags w = (\<lambda>x. x)"
    and "re_sub_spaces w = (\<lambda>x. x)"
    and "FROM_DATE w = ascii ''2024-05-02''"
    and "TO_DATE w = ascii ''2024-05-02''"
    and "FTP_HOST w = []"
    and "FTP_PATH w = []"
    and "FTP_LOGS_PATH w = []"
  using assms
  by (auto simp: newer_first_counted_world_def newer_first_world_def uncounted_world_def
        offline_world_def)

lemma newer_first_count:
  "re_total_count newer_first_world html = None"
  "re_total_count newer_first_counted_world html = Some 26"
  by (simp_all add: newer_first_counted_world_def newer_first_world_def uncounted_world_def)

lemma newer_row:
  assumes "unicode w = ucd_excerpt" and "unescape w = (\<lambda>x. x)" and "re_sub_tags w = (\<lambda>x. x)"
    and "re_sub_spaces w = (\<lambda>x. x)"
  shows "brno_parse_row w (brno_row_of 103 ''03.05.2024'')
           = Inr (Some (brno_item_of 103 ''03.05.2024'' ''2024-05-03''))"
  by (simp add: assms brno_parse_row_def brno_row_of_def brno_item_of_def brno_format_date_iso_def
        brno_may_parse_dates may_iso clean_html_text_def cleaned_def strip_plain dates_nonempty
        Let_def)

lemma newer_item_date:
  assumes "unicode w = ucd_excerpt"
  shows "brno_date w (brno_item_of 103 ''03.05.2024'' ''2024-05-03'') = (2024, 5, 3)"
  by (simp add: assms brno_date_def brno_item_of_def brno_may_parse_dates)

lemma newer_first_load:
  assumes "w = newer_first_world \<or> w = newer_first_counted_world"
  shows "brno_get_list_page w 0 s = (Some first_page, tick s)"
    and "brno_get_list_page w 25 s = (Some second_page, tick s)"
  by (simp_all add: brno_get_list_page_def brno_get_page.simps brno_post_page.simps
        newer_first_fields [OF assms] brno_page_attempt_html str_nat_25)

lemma newer_first_parse:
  assumes "w = newer_first_world \<or> w = newer_first_counted_world"
  shows "brno_parse_list_page w first_page
           = Inr (replicate 25 (brno_item_of 103 ''03.05.2024'' ''2024-05-03''))"
    and "brno_parse_list_page w second_page = Inr [brno_item_of 102 ''02.05.2024'' ''2024-05-02'']"
proof -
  note fields = newer_first_fields [OF assms]
  have newer: "brno_parse_row w (brno_row_of 103 ''03.05.2024'')
                 = Inr (Some (brno_item_of 103 ''03.05.2024'' ''2024-05-03''))"
    by (rule newer_row) (simp_all add: fields)
  have inside: "brno_parse_row w (brno_row_of 102 ''02.05.2024'')
                  = Inr (Some (brno_item_of 102 ''02.05.2024'' ''2024-05-02''))"
    by (rule board_row) (simp_all add: fields)
  show "brno_parse_list_page w first_page
           = Inr (replicate 25 (brno_item_of 103 ''03.05.2024'' ''2024-05-03''))"
    by (simp add: brno_parse_list_page_def fields brno_parse_rows_replicate [OF newer])
  show "brno_parse_list_page w second_page = Inr [brno_item_of 102 ''02.05.2024'' ''2024-05-02'']"
    by (simp add: brno_parse_list_page_def fields pages_distinct inside)
qed

text \<open>
  The round on the first page: every notice is newer than \<open>to_date\<close>, none is processed,
  and the loop goes on to the test of the total count.
\<close>

lemma newer_first_round:
  assumes w: "w = newer_first_world \<or> w = newer_first_counted_world"
  shows "brno_pages w (2024, 5, 2) (2024, 5, 2) (Suc fuel) 0 0 s =
           (let total = parse_total_count w first_page;
                t = (log (ascii ''Nalezeno 25 polozek na strance'') INFO
                       (log (ascii ''Celkovy pocet zaznamu na desce: '' @ str_nat total) INFO
                          (tick (log (ascii ''Nacitam stranku (offset 0)...'') INFO s))))
                      \<lparr>pages_processed := pages_processed s + 1\<rparr>
            in if 25 \<ge> total
               then Some (None, log (ascii ''Dosazeno konce seznamu.'') INFO t)
               else brno_pages w (2024, 5, 2) (2024, 5, 2) fuel 25 total
                      (random_pause PAUSE_MIN PAUSE_MAX t))"
proof -
  let ?items = "replicate 25 (brno_item_of 103 ''03.05.2024'' ''2024-05-03'')"
  have date: "brno_date w (brno_item_of 103 ''03.05.2024'' ''2024-05-03'') = (2024, 5, 3)"
    by (rule newer_item_date) (rule newer_first_fields(5) [OF w])
  have none_inside: "filter (\<lambda>i. (2024, 5, 2) \<le> brno_date w i \<and> brno_date w i \<le> (2024, 5, 2)) ?items = []"
    by (simp add: date)
  have none_older: "find (\<lambda>i. brno_date w i < (2024, 5, 2)) ?items = None"
    by (simp add: find_None_iff date)
  have nonempty: "?items \<noteq> []" by simp
  note step = brno_pages_step [OF may_bounds newer_first_load(1) [OF w] pages_distinct(1)
      newer_first_parse(1) [OF w] nonempty sorted_wrt_replicate, of fuel 0 s]
  show ?thesis
    unfolding step Let_def none_inside none_older
    by (simp add: str_nat_25 str_nat.simps [of 0] PAGE_SIZE_def ascii_def cp_def)
qed

lemma inside_round:
  assumes w: "w = newer_first_world \<or> w = newer_first_counted_world"
  shows "map_option (\<lambda>(e, s). (e, HAS_ERROR s, pages_processed s, items_processed s, statements s))
           (brno_pages w (2024, 5, 2) (2024, 5, 2) (Suc fuel) 25 26 s)
         = Some (None, HAS_ERROR s, pages_processed s + 1, items_processed s + 1, statements s)"
proof -
  let ?items = "[brno_item_of 102 ''02.05.2024'' ''2024-05-02'']"
  have date: "brno_date w (brno_item_of 102 ''02.05.2024'' ''2024-05-02'') = (2024, 5, 2)"
    by (rule board_item_date) (rule newer_first_fields(5) [OF w])
  have inside: "filter (\<lambda>i. (2024, 5, 2) \<le> brno_date w i \<and> brno_date w i \<le> (2024, 5, 2)) ?items = ?items"
    by (simp add: date)
  have none_older: "find (\<lambda>i. brno_date w i < (2024, 5, 2)) ?items = None"
    by (simp add: date)
  have nonempty: "?items \<noteq> []" by simp
  have sorted: "sorted_wrt (\<lambda>a b. brno_date w b \<le> brno_date w a) ?items" by simp
  note step = brno_pages_step [OF may_bounds newer_first_load(2) [OF w] pages_distinct(2)
      newer_first_parse(2) [OF w] nonempty sorted, of fuel 26 s]
  show ?thesis
    unfolding step Let_def inside none_older
    by (simp add: brno_process_item_def brno_item_of_def Let_def PAGE_SIZE_def log_def tick_def)
qed

lemma finish_run_quiet:
  assumes "FTP_HOST w = []" and "\<not> HAS_ERROR s" and "statements s = []"
  shows "fst (finish_run w site a b s) = 0"
  using assms
  by (simp add: finish_run_def summary_def sql_logy_save_def upload_sql_to_ftp_def
        upload_log_to_ftp_def upload_to_ftp_def Let_def log_def)

text \<open>
  Claim C1 (the code of \<open>magistrat_mesta_brna.py\<close> departs from it). The run is bounded by
  2 May 2024. The first page of the board holds 25 notices published on 3 May 2024, the
  page at offset 25 holds a notice published on 2 May 2024, and the text \<open>1 - 25 z 26\<close> is
  not found. The 25 notices are passed over, as they should be; then \<open>first >= total_count\<close>
  holds with \<open>total_count = 0\<close>, and the traversal ends there with status 0: the notice in
  range is never loaded and no item is processed. With the text found the same board gives
  two pages and the one item.
\<close>

theorem newer_notices_end_uncounted_traversal:
  "strptime_Ymd (unicode newer_first_world) (FROM_DATE newer_first_world) = Inr (2024, 5, 2) \<and>
   strptime_Ymd (unicode newer_first_world) (TO_DATE newer_first_world) = Inr (2024, 5, 2) \<and>
   fst (brno_get_list_page newer_first_world 25 (initial_state {})) = Some second_page \<and>
   brno_parse_list_page newer_first_world second_page
     = Inr [brno_item_of 102 ''02.05.2024'' ''2024-05-02''] \<and>
   brno_date newer_first_world (brno_item_of 102 ''02.05.2024'' ''2024-05-02'') = (2024, 5, 2) \<and>
   map_option (\<lambda>(e, s). (e, pages_processed s, items_processed s))
     (brno_main newer_first_world (Suc (Suc (Suc 0))) {}) = Some (Exit 0, 1, 0) \<and>
   map_option (\<lambda>(e, s). (e, pages_processed s, items_processed s))
     (brno_main newer_first_counted_world (Suc (Suc (Suc 0))) {}) = Some (Exit 0, 2, 1)"
proof (intro conjI)
  have w: "newer_first_world = newer_first_world \<or> newer_first_world = newer_first_counted_world"
    and v: "newer_first_counted_world = newer_first_world
            \<or> newer_first_counted_world = newer_first_counted_world" by simp_all
  note fields = newer_first_fields [OF w]
  note counted = newer_first_fields [OF v]
  show "strptime_Ymd (unicode newer_first_world) (FROM_DATE newer_first_world) = Inr (2024, 5, 2)"
    and "strptime_Ymd (unicode newer_first_world) (TO_DATE newer_first_world) = Inr (2024, 5, 2)"
    by (simp_all add: fields bounds_parse)
  show "fst (brno_get_list_page newer_first_world 25 (initial_state {})) = Some second_page"
    by (simp add: newer_first_load(2) [OF w])
  show "brno_parse_list_page newer_first_world second_page
          = Inr [brno_item_of 102 ''02.05.2024'' ''2024-05-02'']"
    by (rule newer_first_parse(2) [OF w])
  show "brno_date newer_first_world (brno_item_of 102 ''02.05.2024'' ''2024-05-02'') = (2024, 5, 2)"
    by (rule board_item_date) (rule fields)
  show "map_option (\<lambda>(e, s). (e, pages_processed s, items_processed s))
          (brno_main newer_first_world (Suc (Suc (Suc 0))) {}) = Some (Exit 0, 1, 0)"
    by (simp add: brno_main_def fields bounds_parse newer_first_round [OF w] Let_def
          parse_total_count_def newer_first_count split_beta finish_run_counters
          finish_run_quiet initial_state_def log_def tick_def)
  define start where "start =
      log (ascii ''Lokalni slozka: '' @ SAVE_DIR newer_first_counted_world) INFO
        (log (ascii ''Datum od: '' @ FROM_DATE newer_first_counted_world @ ascii '', do: ''
              @ TO_DATE newer_first_counted_world) INFO
           (log (ascii ''=== Stahovani z uredni desky Magistratu mesta Brna ==='') INFO
              (initial_state {})))"
  have start: "\<not> HAS_ERROR start" "pages_processed start = 0" "items_processed start = 0"
    "statements start = []"
    by (simp_all add: start_def log_def initial_state_def)
  have main: "brno_main newer_first_counted_world (Suc (Suc (Suc 0))) {} =
      (case brno_pages newer_first_counted_world (2024, 5, 2) (2024, 5, 2) (Suc (Suc (Suc 0))) 0 0 start of
         None \<Rightarrow> None
       | Some (Some e, s) \<Rightarrow> Some (Traceback e, s)
       | Some (None, s) \<Rightarrow>
           (case finish_run newer_first_counted_world (ascii ''magistrat_mesta_brna'')
                   (ascii ''soubory_z_magistratu_mesta_brna.sql'')
                   (ascii ''soubory_z_magistratu_mesta_brna_logy.sql'') s of
              (status, s) \<Rightarrow> Some (Exit status, s)))"
    unfolding start_def
    by (simp add: brno_main_def counted(5) bounds_parse [unfolded counted(9) [symmetric]]
          bounds_parse [unfolded counted(10) [symmetric]] Let_def)
  let ?t = "(log (ascii ''Nalezeno 25 polozek na strance'') INFO
              (log (ascii ''Celkovy pocet zaznamu na desce: '' @ str_nat 26) INFO
                 (tick (log (ascii ''Nacitam stranku (offset 0)...'') INFO start))))
             \<lparr>pages_processed := pages_processed start + 1\<rparr>"
  have first: "brno_pages newer_first_counted_world (2024, 5, 2) (2024, 5, 2) (Suc (Suc (Suc 0))) 0 0 start
                 = brno_pages newer_first_counted_world (2024, 5, 2) (2024, 5, 2) (Suc (Suc 0)) 25 26
                     (random_pause PAUSE_MIN PAUSE_MAX ?t)"
    by (simp add: newer_first_round [OF v] Let_def parse_total_count_def newer_first_count)
  from inside_round [OF v, of "Suc 0" "random_pause PAUSE_MIN PAUSE_MAX ?t"] start
  obtain u where second: "brno_pages newer_first_counted_world (2024, 5, 2) (2024, 5, 2) (Suc (Suc 0)) 25 26
                   (random_pause PAUSE_MIN PAUSE_MAX ?t) = Some (None, u)"
    and u: "\<not> HAS_ERROR u" "pages_processed u = 2" "items_processed u = 1" "statements u = []"
    by (auto simp: log_def tick_def random_pause_def)
  show "map_option (\<lambda>(e, s). (e, pages_processed s, items_processed s))
          (brno_main newer_first_counted_world (Suc (Suc (Suc 0))) {}) = Some (Exit 0, 2, 1)"
    unfolding main first second using u
    by (simp add: split_beta finish_run_counters finish_run_quiet counted)
qed

section \<open>An attachment with a long name\<close>

lemma strip_unspaced:
  assumes "s \<noteq> []" and "\<not> isspace (hd s)" and "\<not> isspace (last s)"
  shows "strip s = s"
proof -
  from assms have "dropWhile isspace s = s" by (simp add: dropWhile_eq_self_iff)
  moreover from assms have "dropWhile isspace (rev s) = rev s"
    by (simp add: dropWhile_eq_self_iff hd_rev)
  ultimately show ?thesis by (simp add: strip_def)
qed

lemma canonical_order_starters:
  "\<forall>c\<in>set letters. ccc c = 0 \<Longrightarrow> canonical_order ccc [] letters = letters"
  by (induction letters) simp_all

lemma remove_diacritics_plain:
  assumes "\<forall>c\<in>set letters. decomposition db c = [c] \<and> combining db c = 0 \<and> \<not> category_Mn db c"
  shows "remove_diacritics db letters = letters"
proof -
  from assms have "concat (map (decomposition db) letters) = letters"
    by (induction letters) simp_all
  moreover from assms have "canonical_order (combining db) [] letters = letters"
    by (intro canonical_order_starters) simp
  moreover from assms have "filter (\<lambda>c. \<not> category_Mn db c) letters = letters"
    by (simp add: filter_id_conv)
  ultimately show ?thesis by (simp add: remove_diacritics_def normalize_NFD_def)
qed

lemma plain_letters:
  "\<forall>c\<in>{cp CHR ''a'', cp CHR ''.'', cp CHR ''p'', cp CHR ''d'', cp CHR ''f''}.
     decomposition ucd_excerpt c = [c] \<and> combining ucd_excerpt c = 0 \<and> \<not> category_Mn ucd_excerpt c"
  by (simp add: ucd_excerpt_def czech_decompositions_def cp_def)

lemma sanitize_long_name: "sanitize_filename ucd_excerpt long_name = long_name"
proof -
  have "cp CHR ''.'' \<notin> set (ascii ''pdf'')" by (simp add: ascii_def cp_def)
  from split_ext_dot [OF this, of "replicate 241 (cp CHR ''a'')"]
  have split: "split_ext long_name = (replicate 241 (cp CHR ''a''), ascii ''.pdf'')"
    by (simp add: long_name_def ascii_def)
  have name: "remove_diacritics ucd_excerpt (replicate 241 (cp CHR ''a'')) = replicate 241 (cp CHR ''a'')"
    using plain_letters by (intro remove_diacritics_plain) simp
  have ext: "remove_diacritics ucd_excerpt (ascii ''.pdf'') = ascii ''.pdf''"
    using plain_letters by (intro remove_diacritics_plain) (simp add: ascii_def)
  have "long_name \<noteq> []" by (simp add: long_name_def)
  then have "sanitize_filename ucd_excerpt long_name =
      filter name_char (remove_char 39 (replace_char (cp CHR '' '') (cp CHR ''_'')
        (replicate 241 (cp CHR ''a'')))) @ ascii ''.pdf''"
    by (simp add: sanitize_filename_def split name ext)
  then show ?thesis
    by (simp add: replace_char_def remove_char_def name_char_def cp_def long_name_def)
qed

lemma long_name_fields:
  "http_get long_name_world n url = html_response first_page"
  "re_total_count long_name_world html = None"
  "re_tbody long_name_world html = Some html"
  "re_brno_rows long_name_world first_page
     = [(brno_row_of 102 ''02.05.2024'')\<lparr> dokument_match := Some [(ascii ''7'', long_name)] \<rparr>]"
  "unicode long_name_world = ucd_excerpt"
  "unescape long_name_world x = x"
  "re_sub_tags long_name_world x = x"
  "re_sub_spaces long_name_world x = x"
  "FROM_DATE long_name_world = ascii ''2024-05-02''"
  "TO_DATE long_name_world = ascii ''2024-05-02''"
  "exists_error long_name_world name = (if name_too_long name then Some OSError else None)"
  by (simp_all add: long_name_world_def uncounted_world_def offline_world_def)

lemma strip_long_name: "strip long_name = long_name"
  by (rule strip_unspaced) (simp_all add: long_name_def isspace_def ascii_def cp_def)

lemma long_row:
  "brno_parse_row long_name_world
     ((brno_row_of 102 ''02.05.2024'')\<lparr> dokument_match := Some [(ascii ''7'', long_name)] \<rparr>)
   = Inr (Some long_item)"
proof -
  have "long_name \<noteq> []" by (simp add: long_name_def)
  then show ?thesis
    by (simp add: long_name_fields brno_parse_row_def brno_row_of_def brno_item_of_def long_item_def
        brno_format_date_iso_def brno_may_parse_dates may_iso clean_html_text_def cleaned_def
        strip_plain strip_long_name dates_nonempty Let_def)
qed

lemma long_parse: "brno_parse_list_page long_name_world first_page = Inr [long_item]"
  by (simp add: brno_parse_list_page_def long_name_fields long_row)

lemma long_load: "brno_get_list_page long_name_world 0 s = (Some first_page, tick s)"
  by (simp add: brno_get_list_page_def brno_get_page.simps long_name_fields brno_page_attempt_html)

lemma long_date: "brno_date long_name_world long_item = (2024, 5, 2)"
  by (simp add: brno_date_def long_item_def brno_item_of_def long_name_fields brno_may_parse_dates)

text \<open>The desired name has 256 bytes, and \<open>exists\<close> raises for it whatever has been saved.\<close>

lemma long_desired_name:
  "save_dir long_name_world present (ascii ''2024-05-02'' @ ascii ''_'' @ long_name) = Inl OSError"
proof -
  have plain: "cp CHR ''/'' \<notin> set (ascii ''2024-05-02'' @ ascii ''_'' @ long_name)"
    by (simp add: long_name_def ascii_def cp_def)
  have "utf8_length (ascii ''2024-05-02'' @ ascii ''_'' @ long_name) = 256"
    by (simp add: long_name_def utf8_length_simps ascii_def cp_def)
  then show ?thesis
    by (simp add: save_dir_def long_name_fields name_too_long_def split_on_plain [OF plain]
          NAME_MAX_def)
qed

lemma long_process_file:
  "brno_process_file long_name_world long_item (ascii ''7'', long_name) s = Some (Some OSError, s)"
  by (simp add: brno_process_file_def Let_def long_name_fields sanitize_long_name
        long_item_def brno_item_of_def get_available_filename_stop long_desired_name)

lemma long_process_item:
  "brno_process_item long_name_world long_item s =
     Some (Some OSError,
           (log (ascii ''-> ['' @ str_nat (detail_id long_item) @ ascii ''] '' @ nazev long_item @
                 ascii '' ('' @ zverejnit_od long_item @ ascii '')'') INFO s)
             \<lparr>items_processed := items_processed s + 1\<rparr>)"
proof -
  have files: "files long_item = [(ascii ''7'', long_name)]" by (simp add: long_item_def)
  show ?thesis
    by (simp add: brno_process_item_def Let_def files long_process_file log_def)
qed

text \<open>
  The run on that board: the one item is in range, the resolver raises for the name of
  its attachment, and \<open>main\<close> ends with the traceback of \<open>OSError\<close>; nothing is downloaded
  and no ERROR line is logged.
\<close>

lemma long_name_ends_run:
  "map_option (\<lambda>(e, s). (e, items_processed s, files_downloaded s, HAS_ERROR s))
     (brno_main long_name_world (Suc 0) {}) = Some (Traceback OSError, 1, 0, False)"
proof -
  define start where "start =
      log (ascii ''Lokalni slozka: '' @ SAVE_DIR long_name_world) INFO
        (log (ascii ''Datum od: '' @ FROM_DATE long_name_world @ ascii '', do: ''
              @ TO_DATE long_name_world) INFO
           (log (ascii ''=== Stahovani z uredni desky Magistratu mesta Brna ==='') INFO
              (initial_state {})))"
  have start: "\<not> HAS_ERROR start" "items_processed start = 0" "files_downloaded start = 0"
    by (simp_all add: start_def log_def initial_state_def)
  have main: "brno_main long_name_world (Suc 0) {} =
      (case brno_pages long_name_world (2024, 5, 2) (2024, 5, 2) (Suc 0) 0 0 start of
         None \<Rightarrow> None
       | Some (Some e, s) \<Rightarrow> Some (Traceback e, s)
       | Some (None, s) \<Rightarrow>
           (case finish_run long_name_world (ascii ''magistrat_mesta_brna'')
                   (ascii ''soubory_z_magistratu_mesta_brna.sql'')
                   (ascii ''soubory_z_magistratu_mesta_brna_logy.sql'') s of
              (status, s) \<Rightarrow> Some (Exit status, s)))"
    unfolding start_def
    by (simp add: brno_main_def long_name_fields(5)
          bounds_parse [unfolded long_name_fields(9) [symmetric]]
          bounds_parse [unfolded long_name_fields(10) [symmetric]] Let_def)
  have inside: "filter (\<lambda>i. (2024, 5, 2) \<le> brno_date long_name_world i
                         \<and> brno_date long_name_world i \<le> (2024, 5, 2)) [long_item] = [long_item]"
    by (simp add: long_date)
  have nonempty: "[long_item] \<noteq> []" by simp
  have sorted: "sorted_wrt (\<lambda>a b. brno_date long_name_world b \<le> brno_date long_name_world a) [long_item]"
    by simp
  note step = brno_pages_step [OF may_bounds long_load pages_distinct(1) long_parse nonempty sorted,
      of 0 0 start]
  have pages: "map_option (\<lambda>(e, s). (e, items_processed s, files_downloaded s, HAS_ERROR s))
                 (brno_pages long_name_world (2024, 5, 2) (2024, 5, 2) (Suc 0) 0 0 start)
               = Some (Some OSError, 1, 0, False)"
    unfolding step Let_def inside using start
    by (simp add: long_process_item log_def tick_def)
  then obtain t where "brno_pages long_name_world (2024, 5, 2) (2024, 5, 2) (Suc 0) 0 0 start
                         = Some (Some OSError, t)"
    and "items_processed t = 1" "files_downloaded t = 0" "\<not> HAS_ERROR t"
    by auto
  then show ?thesis
    unfolding main by simp
qed

text \<open>
  Claim C3 (the code departs from it). The attachment of a notice of 2 May 2024 is named
  with 241 letters \<open>a\<close> and \<open>.pdf\<close>: with the date in front the desired name has 256 bytes.
  \<open>Path.exists\<close> raises \<open>OSError\<close> for it, nothing catches that, and
  \<open>get_available_filename\<close> returns no name, with the directory empty. The same happens
  when the desired name has 254 bytes and exists: the first candidate, with \<open>_1\<close> before
  the extension, has 256 bytes. In \<open>main\<close> of \<open>magistrat_mesta_brna.py\<close> the run on a board
  with that attachment ends with the traceback of \<open>OSError\<close> at its first item.
\<close>

theorem get_available_filename_raises_on_long_name:
  "utf8_length (ascii ''2024-05-02_'' @ replicate 241 (cp CHR ''a'') @ ascii ''.pdf'') = 256 \<and>
   get_available_filename (listing {})
       (ascii ''2024-05-02_'' @ replicate 241 (cp CHR ''a'') @ ascii ''.pdf'')
     = Some (Inl OSError) \<and>
   utf8_length (ascii ''2024-05-02_'' @ replicate 239 (cp CHR ''a'') @ ascii ''.pdf'') = 254 \<and>
   get_available_filename
       (listing {ascii ''2024-05-02_'' @ replicate 239 (cp CHR ''a'') @ ascii ''.pdf''})
       (ascii ''2024-05-02_'' @ replicate 239 (cp CHR ''a'') @ ascii ''.pdf'')
     = Some (Inl OSError) \<and>
   map_option (\<lambda>(e, s). (e, items_processed s, files_downloaded s, HAS_ERROR s))
     (brno_main long_name_world (Suc 0) {}) = Some (Traceback OSError, 1, 0, False)"
  using long_name_raises long_name_ends_run by simp

section \<open>The exit status\<close>

text \<open>Every step of a run keeps \<open>HAS_ERROR\<close> in step with the log.\<close>

lemma flag_log: "flag_in_step s \<Longrightarrow> flag_in_step (log msg lvl s)"
  by (auto simp: flag_in_step_def error_logged_def log_def)

lemma flag_sleep: "flag_in_step (sleep n s) = flag_in_step s"
  by (simp add: flag_in_step_def error_logged_def sleep_def)

lemma flag_random_pause: "flag_in_step (random_pause a b s) = flag_in_step s"
  by (simp add: flag_in_step_def error_logged_def random_pause_def)

lemma flag_tick: "flag_in_step (tick s) = flag_in_step s"
  by (simp add: flag_in_step_def error_logged_def tick_def)

lemma flag_fields:
  "flag_in_step (s\<lparr>saved := a\<rparr>) = flag_in_step s"
  "flag_in_step (s\<lparr>pages_processed := n\<rparr>) = flag_in_step s"
  "flag_in_step (s\<lparr>items_processed := n\<rparr>) = flag_in_step s"
  "flag_in_step (s\<lparr>files_downloaded := n\<rparr>) = flag_in_step s"
  "flag_in_step (s\<lparr>files_uploaded := n\<rparr>) = flag_in_step s"
  "flag_in_step (s\<lparr>files_failed := n\<rparr>) = flag_in_step s"
  "flag_in_step (s\<lparr>statements := b\<rparr>) = flag_in_step s"
  by (simp_all add: flag_in_step_def error_logged_def)

lemma flag_viewstate:
  "flag_in_step (t\<lparr>viewstate := v\<rparr>) = flag_in_step t"
  "flag_in_step (t\<lparr>viewstate_generator := v\<rparr>) = flag_in_step t"
  by (simp_all add: flag_in_step_def error_logged_def)

lemmas flag_steps =
  flag_log flag_sleep flag_random_pause flag_tick flag_fields flag_viewstate

lemma flag_jmk_get_page:
  "flag_in_step s \<Longrightarrow> flag_in_step (snd (jmk_get_page w url retry s))"
proof (induction w url retry s rule: jmk_get_page.induct)
  case (1 w url retry s)
  then show ?case
    by (subst jmk_get_page.simps) (auto simp: flag_steps split: sum.splits)
qed

lemma flag_jmk_post_page:
  "flag_in_step s \<Longrightarrow> flag_in_step (snd (jmk_post_page w url data retry s))"
proof (induction w url data retry s rule: jmk_post_page.induct)
  case (1 w url data retry s)
  then show ?case
    by (subst jmk_post_page.simps) (auto simp: flag_steps split: sum.splits)
qed

lemma flag_brno_get_page:
  "flag_in_step s \<Longrightarrow> flag_in_step (snd (brno_get_page w url retry s))"
proof (induction w url retry s rule: brno_get_page.induct)
  case (1 w url retry s)
  then show ?case
    by (subst brno_get_page.simps) (auto simp: flag_steps split: sum.splits)
qed

lemma flag_brno_post_page:
  "flag_in_step s \<Longrightarrow> flag_in_step (snd (brno_post_page w url data retry s))"
proof (induction w url data retry s rule: brno_post_page.induct)
  case (1 w url data retry s)
  then show ?case
    by (subst brno_post_page.simps) (auto simp: flag_steps split: sum.splits)
qed

lemma flag_jmk_download_file:
  "flag_in_step s \<Longrightarrow> flag_in_step (snd (jmk_download_file w url save_name retry s))"
proof (induction w url save_name retry s rule: jmk_download_file.induct)
  case (1 w url save_name retry s)
  then show ?case
    by (subst jmk_download_file.simps) (auto simp: flag_steps split: download_attempt.splits)
qed

lemma flag_brno_download_file:
  "flag_in_step s \<Longrightarrow> flag_in_step (snd (brno_download_file w url save_name retry s))"
proof (induction w url save_name retry s rule: brno_download_file.induct)
  case (1 w url save_name retry s)
  then show ?case
    by (subst brno_download_file.simps) (auto simp: flag_steps split: download_attempt.splits)
qed

lemma flag_upload_to_ftp:
  "flag_in_step s \<Longrightarrow> flag_in_step (snd (upload_to_ftp w remote_path remote_filename s))"
  by (auto simp: upload_to_ftp_def flag_steps split: option.splits)

lemma flag_upload_file_to_ftp:
  "upload_file_to_ftp w remote_filename s = (uploaded, t) \<Longrightarrow> flag_in_step s \<Longrightarrow> flag_in_step t"
  using flag_upload_to_ftp [of s w "FTP_PATH w" remote_filename]
  by (simp add: upload_file_to_ftp_def)

lemma flag_after_download:
  "flag_in_step (snd result)
   \<Longrightarrow> flag_in_step (after_download w indent original_name final_name arguments result)"
  by (auto simp: after_download_def Let_def add_file_def flag_steps split: prod.splits
        dest!: flag_upload_file_to_ftp)

lemma flag_for_each:
  assumes body: "\<And>x s r s'. flag_in_step s \<Longrightarrow> body x s = Some (r, s') \<Longrightarrow> flag_in_step s'"
  shows "flag_in_step s \<Longrightarrow> for_each body xs s = Some (r, s') \<Longrightarrow> flag_in_step s'"
proof (induction xs arbitrary: s)
  case Nil
  then show ?case by simp
next
  case (Cons x xs)
  then show ?case by (auto split: option.splits prod.splits dest: body)
qed

lemma flag_for_items:
  assumes boundary: "\<And>i s. flag_in_step s \<Longrightarrow> flag_in_step (boundary i s)"
    and process: "\<And>i s r s'. flag_in_step s \<Longrightarrow> process i s = Some (r, s') \<Longrightarrow> flag_in_step s'"
  shows "flag_in_step s
         \<Longrightarrow> for_items date_of boundary process from_date to_date items s = Some (r, s')
         \<Longrightarrow> flag_in_step s'"
proof (induction items arbitrary: s)
  case Nil
  then show ?case by simp
next
  case (Cons i items)
  then show ?case
    by (auto split: sum.splits if_splits option.splits prod.splits dest: boundary process)
qed

lemma flag_extract_viewstate: "flag_in_step (extract_viewstate w html s) = flag_in_step s"
  by (simp add: extract_viewstate_def Let_def flag_viewstate split: option.splits)

lemma flag_jmk_get_list_page:
  assumes "flag_in_step s" and "jmk_get_list_page w page s = (html, s')"
  shows "flag_in_step s'"
proof (cases "urljoin w JMK_BASE_URL (ascii ''Seznam.aspx?a=0'')")
  case (Inl e)
  with assms show ?thesis by (simp add: jmk_get_list_page_def)
next
  case (Inr list_url)
  with assms flag_jmk_get_page [of s w list_url 0]
    flag_jmk_post_page [of s w list_url
      "[(ascii ''__EVENTTARGET'', ascii ''P''), (ascii ''__EVENTARGUMENT'', str_nat page),
        (ascii ''__VIEWSTATE'', viewstate s),
        (ascii ''__VIEWSTATEGENERATOR'', viewstate_generator s)]" 0]
  show ?thesis
    by (auto simp: jmk_get_list_page_def Let_def flag_extract_viewstate
          split: if_splits prod.splits)
qed

lemma flag_brno_get_list_page:
  "flag_in_step s \<Longrightarrow> brno_get_list_page w first s = (html, s') \<Longrightarrow> flag_in_step s'"
  using flag_brno_get_page [of s w LIST_URL 0]
    flag_brno_post_page [of s w LIST_URL
      "[(ascii ''order'', ascii ''vyveseno''), (ascii ''desc'', ascii ''true''),
        (ascii ''first'', str_nat first), (ascii ''count'', str_nat PAGE_SIZE)]" 0]
  by (auto simp: brno_get_list_page_def split: if_splits)

lemma flag_jmk_process_file:
  "flag_in_step s \<Longrightarrow> jmk_process_file w item nadpis file_info s = Some (r, s')
   \<Longrightarrow> flag_in_step s'"
  by (auto simp: jmk_process_file_def Let_def flag_steps split: option.splits sum.splits
        intro!: flag_after_download flag_jmk_download_file)

lemma flag_brno_process_file:
  "flag_in_step s \<Longrightarrow> brno_process_file w item file_info s = Some (r, s') \<Longrightarrow> flag_in_step s'"
  by (auto simp: brno_process_file_def Let_def flag_steps split: option.splits sum.splits
        intro!: flag_after_download flag_brno_download_file)

lemma flag_jmk_process_item:
  assumes "flag_in_step s" and "jmk_process_item w item s = Some (r, s')"
  shows "flag_in_step s'"
proof -
  let ?start = "random_pause PAUSE_MIN PAUSE_MAX
      ((log (ascii ''-> '' @ item_name item @ ascii '' ('' @ item_date item @ ascii '')'') INFO s)
         \<lparr>items_processed :=
            items_processed (log (ascii ''-> '' @ item_name item @ ascii '' ('' @ item_date item @ ascii '')'') INFO s) + 1\<rparr>)"
  from assms(1) have start: "flag_in_step ?start" by (simp add: flag_steps)
  show ?thesis
  proof (cases "urljoin w JMK_BASE_URL (item_detail_url item)")
    case (Inl e)
    with assms(2) have "s' = ?start" by (simp add: jmk_process_item_def Let_def)
    with start show ?thesis by simp
  next
    case (Inr detail_url)
    let ?got = "jmk_get_page w detail_url 0 ?start"
    from start have got: "flag_in_step (snd ?got)" by (rule flag_jmk_get_page)
    from assms(2) Inr have
      "Some (r, s') = Some (None, log (ascii ''Chyba nacitani detailu'') ERROR (snd ?got)) \<or>
       Some (r, s') = Some (None, log (ascii ''(zadne soubory)'') INFO (snd ?got)) \<or>
       for_each (jmk_process_file w item (capitalize_first w (item_name item)))
         (jmk_parse_detail_page w (the (fst ?got))) (snd ?got) = Some (r, s')"
      by (simp add: jmk_process_item_def Let_def split_beta split: if_splits)
    with got show ?thesis
      by (auto simp: flag_steps elim: flag_for_each [rotated 2] flag_jmk_process_file [rotated])
  qed
qed

lemma flag_brno_process_item:
  assumes "flag_in_step s" and "brno_process_item w item s = Some (r, s')"
  shows "flag_in_step s'"
proof -
  let ?start = "(log (ascii ''-> ['' @ str_nat (detail_id item) @ ascii ''] '' @ nazev item @
                   ascii '' ('' @ zverejnit_od item @ ascii '')'') INFO s)
         \<lparr>items_processed :=
            items_processed (log (ascii ''-> ['' @ str_nat (detail_id item) @ ascii ''] '' @ nazev item @
                   ascii '' ('' @ zverejnit_od item @ ascii '')'') INFO s) + 1\<rparr>"
  from assms(1) have start: "flag_in_step ?start" by (simp add: flag_steps)
  from assms(2) have
    "Some (r, s') = Some (None, log (ascii ''  (zadne soubory)'') INFO ?start) \<or>
     for_each (brno_process_file w item) (files item) ?start = Some (r, s')"
    by (simp add: brno_process_item_def Let_def split: if_splits)
  with start show ?thesis
    by (auto simp: flag_steps elim: flag_for_each [rotated 2] flag_brno_process_file [rotated])
qed

lemma flag_jmk_for_items:
  assumes "flag_in_step s" and "jmk_for_items w from_date to_date items s = Some (r, s')"
  shows "flag_in_step s'"
proof (rule flag_for_items [OF _ _ assms(1) assms(2) [unfolded jmk_for_items_def]])
  fix i and t :: jmk_state
  assume "flag_in_step t"
  then show "flag_in_step (log (boundary_message w (item_date i)) INFO t)" by (rule flag_log)
next
  fix i r and t t' :: jmk_state
  assume "flag_in_step t" and "jmk_process_item w i t = Some (r, t')"
  then show "flag_in_step t'" by (rule flag_jmk_process_item)
qed

lemma flag_brno_for_items:
  assumes "flag_in_step s" and "brno_for_items w from_date to_date items s = Some (r, s')"
  shows "flag_in_step s'"
proof (rule flag_for_items [OF _ _ assms(1) assms(2) [unfolded brno_for_items_def]])
  fix i and t :: run_state
  assume "flag_in_step t"
  then show "flag_in_step (log (boundary_message w (zverejnit_od i)) INFO t)" by (rule flag_log)
next
  fix i r and t t' :: run_state
  assume "flag_in_step t" and "brno_process_item w i t = Some (r, t')"
  then show "flag_in_step t'" by (rule flag_brno_process_item)
qed

lemma flag_jmk_pages:
  "flag_in_step s \<Longrightarrow> jmk_pages w from_date to_date fuel page s = Some (r, s') \<Longrightarrow> flag_in_step s'"
proof (induction fuel arbitrary: page s)
  case 0
  then show ?case by (simp add: jmk_pages.simps)
next
  case (Suc fuel)
  let ?began = "log (ascii ''Nacitam stranku '' @ str_nat page @ ascii ''...'') INFO s"
  obtain loaded t where load: "jmk_get_list_page w page ?began = (loaded, t)"
    by (cases "jmk_get_list_page w page ?began")
  from Suc.prems(1) have "flag_in_step ?began" by (rule flag_log)
  then have t: "flag_in_step t" using load by (rule flag_jmk_get_list_page)
  show ?case
  proof (cases loaded)
    case (Inl e)
    with Suc.prems(2) load t show ?thesis by (auto simp: jmk_pages.simps)
  next
    case (Inr html)
    note load = load [unfolded Inr]
    show ?thesis
  proof (cases "truthy html")
    case False
    with Suc.prems(2) load t show ?thesis by (auto simp: jmk_pages.simps flag_steps)
  next
    case True
    show ?thesis
    proof (cases "jmk_parse_list_page w (the html)")
      case (Inl e)
      with Suc.prems(2) load t True show ?thesis by (auto simp: jmk_pages.simps)
    next
      case (Inr items)
      let ?start = "(log (ascii ''Nalezeno '' @ str_nat (length items) @ ascii '' polozek'') INFO t)
                      \<lparr>pages_processed := pages_processed t + 1\<rparr>"
      from t have start: "flag_in_step ?start" by (simp add: flag_steps)
      show ?thesis
      proof (cases "items = []")
        case True
        with Suc.prems(2) load t \<open>truthy html\<close> Inr show ?thesis
          by (auto simp: jmk_pages.simps flag_steps)
      next
        case False
        from Suc.prems(2) load \<open>truthy html\<close> Inr False
        obtain ending u where loop: "jmk_for_items w from_date to_date items ?start = Some (ending, u)"
          and rest: "(case ending of
                        Uncaught e \<Rightarrow> Some (Some e, u)
                      | Boundary \<Rightarrow> Some (None, u)
                      | Exhausted \<Rightarrow> jmk_pages w from_date to_date fuel (page + 1)
                                       (random_pause PAUSE_MIN PAUSE_MAX u)) = Some (r, s')"
          by (auto simp: jmk_pages.simps split: option.splits loop_end.splits)
        from start loop have u: "flag_in_step u" by (rule flag_jmk_for_items)
        show ?thesis
        proof (cases ending)
          case Exhausted
          with rest have "jmk_pages w from_date to_date fuel (page + 1)
                            (random_pause PAUSE_MIN PAUSE_MAX u) = Some (r, s')" by simp
          moreover from u have "flag_in_step (random_pause PAUSE_MIN PAUSE_MAX u)"
            by (simp add: flag_steps)
          ultimately show ?thesis using Suc.IH by blast
        next
          case Boundary
          with rest u show ?thesis by simp
        next
          case (Uncaught e)
          with rest u show ?thesis by simp
        qed
      qed
    qed
  qed
  qed
qed

lemma flag_brno_pages:
  "flag_in_step s \<Longrightarrow> brno_pages w from_date to_date fuel first total_count s = Some (r, s')
   \<Longrightarrow> flag_in_step s'"
proof (induction fuel arbitrary: first total_count s)
  case 0
  then show ?case by (simp add: brno_pages.simps)
next
  case (Suc fuel)
  let ?began = "log (ascii ''Nacitam stranku (offset '' @ str_nat first @ ascii '')...'') INFO s"
  obtain html t0 where load: "brno_get_list_page w first ?began = (html, t0)"
    by (cases "brno_get_list_page w first ?began")
  from Suc.prems(1) have "flag_in_step ?began" by (rule flag_log)
  then have t0: "flag_in_step t0" using load by (rule flag_brno_get_list_page)
  let ?total = "if first = 0 then parse_total_count w (the html) else total_count"
  let ?t = "if first = 0
            then log (ascii ''Celkovy pocet zaznamu na desce: '' @ str_nat ?total) INFO t0 else t0"
  from t0 have t: "flag_in_step ?t" by (simp add: flag_steps)
  show ?case
  proof (cases "truthy html")
    case False
    with Suc.prems(2) load t0 show ?thesis by (auto simp: brno_pages.simps flag_steps)
  next
    case True
    show ?thesis
    proof (cases "brno_parse_list_page w (the html)")
      case (Inl e)
      with Suc.prems(2) load t True show ?thesis
        by (auto simp: brno_pages.simps Let_def split: if_splits)
    next
      case (Inr items)
      let ?start = "(log (ascii ''Nalezeno '' @ str_nat (length items) @
                          ascii '' polozek na strance'') INFO ?t)
                      \<lparr>pages_processed := pages_processed ?t + 1\<rparr>"
      from t have start: "flag_in_step ?start" by (simp add: flag_steps)
      show ?thesis
      proof (cases "items = []")
        case True
        with Suc.prems(2) load t \<open>truthy html\<close> Inr show ?thesis
          by (auto simp: brno_pages.simps Let_def flag_steps split: if_splits)
      next
        case False
        from Suc.prems(2) load \<open>truthy html\<close> Inr False
        obtain ending u where loop: "brno_for_items w from_date to_date items ?start = Some (ending, u)"
          and rest: "(case ending of
                        Uncaught e \<Rightarrow> Some (Some e, u)
                      | Boundary \<Rightarrow> Some (None, u)
                      | Exhausted \<Rightarrow>
                          if first + PAGE_SIZE \<ge> ?total
                          then Some (None, log (ascii ''Dosazeno konce seznamu.'') INFO u)
                          else brno_pages w from_date to_date fuel (first + PAGE_SIZE) ?total
                                 (random_pause PAUSE_MIN PAUSE_MAX u)) = Some (r, s')"
          by (simp add: brno_pages.simps Let_def split: option.splits prod.splits)
        from start loop have u: "flag_in_step u" by (rule flag_brno_for_items)
        show ?thesis
        proof (cases ending)
          case Exhausted
          show ?thesis
          proof (cases "first + PAGE_SIZE \<ge> ?total")
            case True
            with rest Exhausted u show ?thesis by (auto simp: flag_steps)
          next
            case False
            with rest Exhausted
            have "brno_pages w from_date to_date fuel (first + PAGE_SIZE) ?total
                    (random_pause PAUSE_MIN PAUSE_MAX u) = Some (r, s')" by simp
            moreover from u have "flag_in_step (random_pause PAUSE_MIN PAUSE_MAX u)"
              by (simp add: flag_steps)
            ultimately show ?thesis using Suc.IH by blast
          qed
        next
          case Boundary
          with rest u show ?thesis by simp
        next
          case (Uncaught e)
          with rest u show ?thesis by simp
        qed
      qed
    qed
  qed
qed

text \<open>
  The end of \<open>main\<close>: the uploads may add ERROR lines; the status is 1 when the log holds
  one by then, and 0 otherwise.
\<close>

lemma flag_summary: "flag_in_step s \<Longrightarrow> flag_in_step (summary s)"
  by (simp add: summary_def Let_def flag_steps)

lemma flag_upload_sql_to_ftp:
  "flag_in_step s \<Longrightarrow> flag_in_step (snd (upload_sql_to_ftp w remote_filename s))"
  by (simp add: upload_sql_to_ftp_def Let_def flag_upload_to_ftp)

lemma flag_upload_log_to_ftp:
  "flag_in_step s \<Longrightarrow> flag_in_step (snd (upload_log_to_ftp w site remote_filename s))"
  by (simp add: upload_log_to_ftp_def Let_def flag_upload_to_ftp)

lemma finish_run_status:
  assumes "flag_in_step s" and "finish_run w site import_name logy_name s = (status, s')"
  shows "status = (if error_logged s' then 1 else 0)"
proof -
  let ?a = "summary s"
  let ?b = "if statements ?a \<noteq> []
            then snd (upload_sql_to_ftp w import_name (sql_import_save w ?a))
            else log (ascii ''Zadne soubory ke stazeni, SQL import nevytvoren.'') INFO ?a"
  let ?c = "snd (upload_log_to_ftp w site (LOG_FILE_name w)
                   (snd (upload_sql_to_ftp w logy_name (sql_logy_save w ?b))))"
  from assms(1) have "flag_in_step ?a" by (rule flag_summary)
  then have "flag_in_step ?b"
    by (simp add: sql_import_save_def flag_steps flag_upload_sql_to_ftp)
  then have "flag_in_step ?c"
    by (simp add: sql_logy_save_def flag_steps flag_upload_sql_to_ftp flag_upload_log_to_ftp)
  then have c: "HAS_ERROR ?c = error_logged ?c" by (simp add: flag_in_step_def)
  from assms(2) have "(status, s') =
      (if HAS_ERROR ?c then (1, log (ascii ''Skript skoncil s chybami.'') ERROR ?c)
       else (0, log (ascii ''Skript skoncil uspesne.'') INFO ?c))"
    by (simp add: finish_run_def Let_def)
  with c show ?thesis
    by (auto simp: error_logged_def log_def split: if_splits)
qed

lemma flag_initial_state: "flag_in_step (initial_state existing)"
  "flag_in_step (jmk_initial_state existing)"
  by (simp_all add: flag_in_step_def error_logged_def initial_state_def jmk_initial_state_def
       run_state.extend_def)

lemma jmk_main_status:
  assumes "jmk_main w fuel existing = Some (Exit n, s)"
  shows "n = (if error_logged s then 1 else 0)"
proof -
  from assms obtain from_date to_date t
    where pages: "jmk_pages w from_date to_date fuel 1
             (log (ascii ''Lokalni slozka: '' @ SAVE_DIR w) INFO
               (log (ascii ''Datum: '' @ FROM_DATE w) INFO
                 (log (ascii ''=== Stahovani z uredni desky JMK ==='') INFO
                   (jmk_initial_state existing)))) = Some (None, t)"
      and finish: "finish_run w (ascii ''jihomoravsky_kraj'') (ascii ''jmk_import.sql'')
                     (ascii ''jmk_logy.sql'') t = (n, s)"
    by (auto simp: jmk_main_def Let_def split: sum.splits option.splits prod.splits)
  have "flag_in_step t"
    by (rule flag_jmk_pages [OF _ pages]) (simp add: flag_steps flag_initial_state)
  then show ?thesis using finish by (rule finish_run_status)
qed

lemma brno_main_status:
  assumes "brno_main w fuel existing = Some (Exit n, s)"
  shows "n = (if error_logged s then 1 else 0)"
proof -
  from assms obtain from_date to_date t
    where pages: "brno_pages w from_date to_date fuel 0 0
             (log (ascii ''Lokalni slozka: '' @ SAVE_DIR w) INFO
               (log (ascii ''Datum od: '' @ FROM_DATE w @ ascii '', do: '' @ TO_DATE w) INFO
                 (log (ascii ''=== Stahovani z uredni desky Magistratu mesta Brna ==='') INFO
                   (initial_state existing)))) = Some (None, t)"
      and finish: "finish_run w (ascii ''magistrat_mesta_brna'')
                     (ascii ''soubory_z_magistratu_mesta_brna.sql'')
                     (ascii ''soubory_z_magistratu_mesta_brna_logy.sql'') t = (n, s)"
    by (auto simp: brno_main_def Let_def split: sum.splits option.splits prod.splits)
  have "flag_in_step t"
    by (rule flag_brno_pages [OF _ pages]) (simp add: flag_steps flag_initial_state)
  then show ?thesis using finish by (rule finish_run_status)
qed

text \<open>Two runs that reach the end of \<open>main\<close>, and one that does not.\<close>

lemma withdrawn_fields:
  "http_get withdrawn_world n url = html_response (ascii ''<p>Dokument neni k dispozici</p>'')"
  "re_jmk_rows withdrawn_world html = []"
  "unicode withdrawn_world = ucd_excerpt"
  "FROM_DATE withdrawn_world = ascii ''2024-05-02''"
  "TO_DATE withdrawn_world = ascii ''2024-05-02''"
  "urljoin withdrawn_world b u = Inr (b @ u)"
  "re_viewstate withdrawn_world html = None"
  "re_viewstate_generator withdrawn_world html = None"
  "FTP_HOST withdrawn_world = []"
  "FTP_PATH withdrawn_world = []"
  "FTP_LOGS_PATH withdrawn_world = []"
  by (simp_all add: withdrawn_world_def offline_world_def)

lemma offline_fields:
  "http_get offline_world n url = Http_exception (ascii ''connection refused'')"
  "unicode offline_world = ucd_excerpt"
  "FROM_DATE offline_world = ascii ''2024-05-02''"
  "TO_DATE offline_world = ascii ''2024-05-02''"
  "FTP_HOST offline_world = []"
  "FTP_PATH offline_world = []"
  "FTP_LOGS_PATH offline_world = []"
  by (simp_all add: offline_world_def)

lemma withdrawn_page:
  "jmk_page_attempt (html_response (ascii ''<p>Dokument neni k dispozici</p>''))
     = Inr (ascii ''<p>Dokument neni k dispozici</p>'')"
  by (simp add: jmk_page_attempt_def html_response_def ascii_def cp_def)

lemma withdrawn_page_nonempty: "ascii ''<p>Dokument neni k dispozici</p>'' \<noteq> []"
  by (simp add: ascii_def)

lemmas finish_eval =
  finish_run_def summary_def sql_logy_save_def sql_import_save_def upload_sql_to_ftp_def
  upload_log_to_ftp_def upload_to_ftp_def Let_def split_beta

lemma withdrawn_run: "\<exists>s. jmk_main withdrawn_world (Suc 0) {} = Some (Exit 0, s)"
  by (simp add: jmk_main_def jmk_pages.simps withdrawn_fields bounds_parse jmk_get_list_page_def
        jmk_get_page.simps withdrawn_page truthy_def withdrawn_page_nonempty
        jmk_parse_list_page_def extract_viewstate_def finish_eval log_def tick_def
        jmk_initial_state_def initial_state_def run_state.extend_def)

lemma offline_page:
  "brno_page_attempt (Http_exception (ascii ''connection refused''))
     = Inl (ascii ''connection refused'')"
  by (simp add: brno_page_attempt_def)

lemma offline_run: "\<exists>s. brno_main offline_world (Suc 0) {} = Some (Exit 1, s)"
  by (simp add: brno_main_def brno_pages.simps offline_fields bounds_parse brno_get_list_page_def
        brno_get_page.simps offline_page truthy_def finish_eval log_def tick_def sleep_def
        MAX_RETRIES_def initial_state_def)

text \<open>
  In a run that ends with \<open>sys.exit\<close>, the status is 0 if and only if no ERROR line was
  logged; and in every run that ends, an ERROR line makes the status other than 0. The
  first conjunct is \<open>edeska_jmk.py\<close>, the second \<open>magistrat_mesta_brna.py\<close>.
\<close>

lemma exit_status_after_sys_exit:
  "(jmk_main w fuel existing = Some (e, s) \<longrightarrow>
      (error_logged s \<longrightarrow> exit_status e \<noteq> 0) \<and>
      ((\<forall>x. e \<noteq> Traceback x) \<longrightarrow> (exit_status e = 0) = (\<not> error_logged s))) \<and>
   (brno_main w fuel existing = Some (e', s') \<longrightarrow>
      (error_logged s' \<longrightarrow> exit_status e' \<noteq> 0) \<and>
      ((\<forall>x. e' \<noteq> Traceback x) \<longrightarrow> (exit_status e' = 0) = (\<not> error_logged s')))"
proof (intro conjI impI)
  assume run: "jmk_main w fuel existing = Some (e, s)"
  show "exit_status e = 0 \<longleftrightarrow> \<not> error_logged s" if "\<forall>x. e \<noteq> Traceback x"
  proof (cases e)
    case (Exit n)
    with run jmk_main_status [of w fuel existing n s] show ?thesis by simp
  next
    case (Traceback x)
    with that show ?thesis by simp
  qed
  show "exit_status e \<noteq> 0" if "error_logged s"
  proof (cases e)
    case (Exit n)
    with run that jmk_main_status [of w fuel existing n s] show ?thesis by simp
  next
    case (Traceback x)
    then show ?thesis by simp
  qed
next
  assume run: "brno_main w fuel existing = Some (e', s')"
  show "exit_status e' = 0 \<longleftrightarrow> \<not> error_logged s'" if "\<forall>x. e' \<noteq> Traceback x"
  proof (cases e')
    case (Exit n)
    with run brno_main_status [of w fuel existing n s'] show ?thesis by simp
  next
    case (Traceback x)
    with that show ?thesis by simp
  qed
  show "exit_status e' \<noteq> 0" if "error_logged s'"
  proof (cases e')
    case (Exit n)
    with run that brno_main_status [of w fuel existing n s'] show ?thesis by simp
  next
    case (Traceback x)
    then show ?thesis by simp
  qed
qed

lemma exit_status_examples:
  "\<exists>s. jmk_main withdrawn_world (Suc 0) {} = Some (Exit 0, s) \<and> \<not> error_logged s"
  "\<exists>s. brno_main offline_world (Suc 0) {} = Some (Exit 1, s) \<and> error_logged s"
proof -
  from withdrawn_run obtain s where run: "jmk_main withdrawn_world (Suc 0) {} = Some (Exit 0, s)" ..
  with exit_status_after_sys_exit [of withdrawn_world "Suc 0" "{}" "Exit 0" s]
  have "\<not> error_logged s" by simp
  with run show "\<exists>s. jmk_main withdrawn_world (Suc 0) {} = Some (Exit 0, s) \<and> \<not> error_logged s"
    by blast
  from offline_run obtain t where run: "brno_main offline_world (Suc 0) {} = Some (Exit 1, t)" ..
  with exit_status_after_sys_exit [of offline_world "Suc 0" "{}" _ _ "Exit 1" t]
  have "error_logged t" by simp
  with run show "\<exists>s. brno_main offline_world (Suc 0) {} = Some (Exit 1, s) \<and> error_logged s"
    by blast
qed

text \<open>
  Claim C8 (the code of \<open>edeska_jmk.py\<close> departs from it). The first row of the list page
  has a link and the date \<open>31.02.2024\<close>. \<open>format_date_iso\<close> raises \<open>ValueError\<close>, nothing
  catches it and nothing logs it: the run ends with the traceback and the status 1, and
  no ERROR line was logged. A failed request, download or upload is caught and logged at
  ERROR, which sets \<open>HAS_ERROR\<close>.
\<close>

theorem traceback_exits_nonzero_without_error_line:
  "map_option (\<lambda>(e, s). (e, exit_status e, error_logged s, HAS_ERROR s))
     (jmk_main february_world (Suc 0) {}) = Some (Traceback ValueError, 1, False, False)"
  by (simp add: february_run error_logged_def extract_viewstate_def log_def tick_def
        jmk_initial_state_def initial_state_def run_state.extend_def)

end
